theory Spec2Isabelle
  imports Main "HOL-Library.AList"
begin

section \<open>Values and errors\<close>

text \<open>
  The values an entity property can hold. JavaScript numbers are modelled as integers
  (the ids and the sequence counter of the persister are whole numbers); an object is
  the list of its own properties in insertion order.
\<close>

datatype val =
    VUndefined
  | VNull
  | VBool bool
  | VNum int
  | VStr string
  | VObj "(string \<times> val) list"
  | VArr "val list"

text \<open>Every \<open>throw new TypeError(...)\<close> of the two source files, one constructor each.\<close>

datatype error =
    QueryBuilderFailed
  | FormulaRequired
  | ColumnNameRequired
  | FromTableNotInitialized
  | GroupByNotInitialized
  | NoTableInitialized
  | EntityCannotBeSaved val
  | EntityAlreadyStored val
  | CouldNotAddItems
  | NoIdProperty string
  | NoValidId string val
  | NoLinkToTable string string
  | NoMetadataForLinkedTable string string string
  | NoRelatedEntity string
  | NoRelatedEntityId string
  | RelatedEntityNotFound val string
  | ExternalError string

section \<open>PgSelectQueryBuilder\<close>

text \<open>
  \<open>PgQueryUtils\<close> is imported by the builder but is not among the source files: its
  three quoting functions are a parameter of every rendering function below.
\<close>

record PgQueryUtils =
  quoteTableName :: "string \<Rightarrow> string"
  quoteColumnName :: "string \<Rightarrow> string"
  quoteTableAndColumn :: "string \<Rightarrow> string \<Rightarrow> string"

definition dq :: char where
  "dq = CHR 0x22"

text \<open>
  Modelled from the spec: \<open>PgQueryUtils\<close> is missing from the sources; the spec says that
  identifiers are double-quoted through a shared quoting rule. Only the concrete examples
  use this instance.
\<close>

definition pgQueryUtils :: PgQueryUtils where
  "pgQueryUtils =
     \<lparr> quoteTableName = (\<lambda>t. dq # t @ [dq]),
       quoteColumnName = (\<lambda>c. dq # c @ [dq]),
       quoteTableAndColumn = (\<lambda>t c. dq # t @ [dq] @ ''.'' @ dq # c @ [dq]) \<rparr>"

text \<open>
  The \<open>QueryBuilder\<close> interface (the predicate builder): what its three methods return.
  Rendering can throw, as the select builder's own \<open>buildQueryString\<close> does.
\<close>

record 'v QueryBuilder =
  qb_buildQueryString :: "error + string"
  qb_buildQueryValues :: "'v list"
  qb_getQueryValueFactories :: "(unit \<Rightarrow> 'v) list"

text \<open>
  The private fields of the class. A \<open>string | undefined\<close> field is a \<open>string option\<close>;
  the closures \<open>() => string\<close> and \<open>() => any\<close> are functions from \<open>unit\<close>, and a field
  closure can throw.
\<close>

record 'v PgSelectQueryBuilder =
  mainIdColumnName :: "string option"
  mainTableName :: "string option"
  tablePrefix :: string
  fieldQueries :: "(unit \<Rightarrow> error + string) list"
  fieldValues :: "(unit \<Rightarrow> 'v) list"
  leftJoinQueries :: "(unit \<Rightarrow> string) list"
  leftJoinValues :: "(unit \<Rightarrow> 'v) list"
  whereBuilder :: "'v QueryBuilder option"

definition newPgSelectQueryBuilder :: "'v PgSelectQueryBuilder" where
  "newPgSelectQueryBuilder =
     \<lparr> mainIdColumnName = None, mainTableName = None, tablePrefix = [],
       fieldQueries = [], fieldValues = [], leftJoinQueries = [], leftJoinValues = [],
       whereBuilder = None \<rparr>"

text \<open>JavaScript truthiness of a \<open>string | undefined\<close>: set and not empty.\<close>

fun truthy_string :: "string option \<Rightarrow> bool" where
  "truthy_string None = False"
| "truthy_string (Some s) = (s \<noteq> [])"

fun string_of :: "string option \<Rightarrow> string" where
  "string_of None = []"
| "string_of (Some s) = s"

text \<open>\<open>Array.prototype.join\<close>.\<close>

fun join :: "string \<Rightarrow> string list \<Rightarrow> string" where
  "join sep [] = []"
| "join sep [x] = x"
| "join sep (x # y # ys) = x @ sep @ join sep (y # ys)"

text \<open>\<open>map(fs, (f) => f())\<close> over closures that can throw: the first throw ends the map.\<close>

fun call_all :: "(unit \<Rightarrow> error + 'a) list \<Rightarrow> error + 'a list" where
  "call_all [] = Inr []"
| "call_all (f # fs) =
     (case f () of
        Inl e \<Rightarrow> Inl e
      | Inr x \<Rightarrow> (case call_all fs of Inl e \<Rightarrow> Inl e | Inr xs \<Rightarrow> Inr (x # xs)))"

definition setTablePrefix :: "string \<Rightarrow> 'v PgSelectQueryBuilder \<Rightarrow> 'v PgSelectQueryBuilder" where
  "setTablePrefix prefix this = this\<lparr>tablePrefix := prefix\<rparr>"

definition getTablePrefix :: "'v PgSelectQueryBuilder \<Rightarrow> string" where
  "getTablePrefix this = tablePrefix this"

definition getCompleteTableName :: "string \<Rightarrow> 'v PgSelectQueryBuilder \<Rightarrow> string" where
  "getCompleteTableName tableName this = tablePrefix this @ tableName"

definition setWhereFromQueryBuilder ::
  "'v QueryBuilder \<Rightarrow> 'v PgSelectQueryBuilder \<Rightarrow> 'v PgSelectQueryBuilder" where
  "setWhereFromQueryBuilder builder this = this\<lparr>whereBuilder := Some builder\<rparr>"

definition includeAllColumnsFromTable ::
  "PgQueryUtils \<Rightarrow> string \<Rightarrow> 'v PgSelectQueryBuilder \<Rightarrow> 'v PgSelectQueryBuilder" where
  "includeAllColumnsFromTable U tableName this =
     this\<lparr>fieldQueries := fieldQueries this @ [\<lambda>_. Inr (quoteTableName U tableName @ ''.*'')]\<rparr>"

text \<open>
  The closure pushed by \<open>includeColumnFromQueryBuilder\<close>: it renders the sub-builder when
  it is called, and throws there when the rendered string is empty.
\<close>

definition columnFromQueryBuilder ::
  "PgQueryUtils \<Rightarrow> 'v QueryBuilder \<Rightarrow> string \<Rightarrow> unit \<Rightarrow> error + string" where
  "columnFromQueryBuilder U builder asColumnName =
     (\<lambda>_. case qb_buildQueryString builder of
            Inl e \<Rightarrow> Inl e
          | Inr query \<Rightarrow>
              if query = [] then Inl QueryBuilderFailed
              else Inr (query @ '' AS '' @ quoteColumnName U asColumnName))"

definition includeColumnFromQueryBuilder ::
  "PgQueryUtils \<Rightarrow> 'v QueryBuilder \<Rightarrow> string \<Rightarrow> 'v PgSelectQueryBuilder
    \<Rightarrow> 'v PgSelectQueryBuilder" where
  "includeColumnFromQueryBuilder U builder asColumnName this =
     (let this1 = this\<lparr>fieldQueries :=
                         fieldQueries this @ [columnFromQueryBuilder U builder asColumnName]\<rparr>
      in foldl (\<lambda>t item. t\<lparr>fieldValues := fieldValues t @ [item]\<rparr>) this1
           (qb_getQueryValueFactories builder))"

definition includeFormulaByString ::
  "PgQueryUtils \<Rightarrow> string \<Rightarrow> string \<Rightarrow> 'v PgSelectQueryBuilder
    \<Rightarrow> error + 'v PgSelectQueryBuilder" where
  "includeFormulaByString U formula asColumnName this =
     (if formula = [] then Inl FormulaRequired
      else if asColumnName = [] then Inl ColumnNameRequired
      else Inr (this\<lparr>fieldQueries := fieldQueries this
                  @ [\<lambda>_. Inr (formula @ '' AS '' @ quoteColumnName U asColumnName)]\<rparr>))"

definition setFromTable :: "string \<Rightarrow> 'v PgSelectQueryBuilder \<Rightarrow> 'v PgSelectQueryBuilder" where
  "setFromTable tableName this = this\<lparr>mainTableName := Some tableName\<rparr>"

definition getCompleteFromTable :: "'v PgSelectQueryBuilder \<Rightarrow> error + string" where
  "getCompleteFromTable this =
     (if \<not> truthy_string (mainTableName this) then Inl FromTableNotInitialized
      else Inr (getCompleteTableName (string_of (mainTableName this)) this))"

definition getShortFromTable :: "'v PgSelectQueryBuilder \<Rightarrow> error + string" where
  "getShortFromTable this =
     (if \<not> truthy_string (mainTableName this) then Inl FromTableNotInitialized
      else Inr (string_of (mainTableName this)))"

definition setGroupByColumn :: "string \<Rightarrow> 'v PgSelectQueryBuilder \<Rightarrow> 'v PgSelectQueryBuilder" where
  "setGroupByColumn columnName this = this\<lparr>mainIdColumnName := Some columnName\<rparr>"

definition getGroupByColumn :: "'v PgSelectQueryBuilder \<Rightarrow> error + string" where
  "getGroupByColumn this =
     (if \<not> truthy_string (mainIdColumnName this) then Inl GroupByNotInitialized
      else Inr (string_of (mainIdColumnName this)))"

definition leftJoinTable ::
  "PgQueryUtils \<Rightarrow> string \<Rightarrow> string \<Rightarrow> string \<Rightarrow> string \<Rightarrow> 'v PgSelectQueryBuilder
    \<Rightarrow> 'v PgSelectQueryBuilder" where
  "leftJoinTable U fromTableName fromColumnName sourceTableName sourceColumnName this =
     this\<lparr>leftJoinQueries := leftJoinQueries this
       @ [\<lambda>_. ''LEFT JOIN '' @ quoteTableName U fromTableName @ '' ON ''
               @ quoteTableAndColumn U sourceTableName sourceColumnName @ '' = ''
               @ quoteTableAndColumn U fromTableName fromColumnName]\<rparr>"

text \<open>
  \<open>buildQueryString\<close>: the local \<open>query\<close> grows clause by clause, in the order of the
  source's statements; the group-by step is the only one that throws by itself.
\<close>

definition buildQueryString :: "PgQueryUtils \<Rightarrow> 'v PgSelectQueryBuilder \<Rightarrow> error + string" where
  "buildQueryString U this =
     (case call_all (fieldQueries this) of
        Inl e \<Rightarrow> Inl e
      | Inr fieldQueries' \<Rightarrow>
          let leftJoinQueries' = map (\<lambda>f. f ()) (leftJoinQueries this);
              query0 = ''SELECT '' @ join '', '' fieldQueries';
              query1 = (if truthy_string (mainTableName this)
                        then query0 @ '' FROM '' @ quoteTableName U (string_of (mainTableName this))
                        else query0);
              query2 = (if length leftJoinQueries' \<noteq> 0
                        then query1 @ '' '' @ join '' '' leftJoinQueries'
                        else query1)
          in (case (case whereBuilder this of
                      None \<Rightarrow> Inr query2
                    | Some w \<Rightarrow>
                        (case qb_buildQueryString w of
                           Inl e \<Rightarrow> Inl e
                         | Inr ws \<Rightarrow> Inr (query2 @ '' WHERE '' @ ws))) of
                Inl e \<Rightarrow> Inl e
              | Inr query3 \<Rightarrow>
                  if truthy_string (mainIdColumnName this) then
                    if \<not> truthy_string (mainTableName this) then Inl NoTableInitialized
                    else Inr (query3 @ '' GROUP BY ''
                           @ quoteTableAndColumn U (string_of (mainTableName this))
                               (string_of (mainIdColumnName this)))
                  else Inr query3))"

definition buildQueryValues :: "'v PgSelectQueryBuilder \<Rightarrow> 'v list" where
  "buildQueryValues this =
     (let fieldValues' = map (\<lambda>f. f ()) (fieldValues this);
          leftJoinValues' = map (\<lambda>f. f ()) (leftJoinValues this)
      in fieldValues' @ leftJoinValues'
         @ (case whereBuilder this of None \<Rightarrow> [] | Some w \<Rightarrow> qb_buildQueryValues w))"

definition getQueryValueFactories :: "'v PgSelectQueryBuilder \<Rightarrow> (unit \<Rightarrow> 'v) list" where
  "getQueryValueFactories this =
     fieldValues this @ leftJoinValues this
     @ (case whereBuilder this of None \<Rightarrow> [] | Some w \<Rightarrow> qb_getQueryValueFactories w)"

definition build :: "PgQueryUtils \<Rightarrow> 'v PgSelectQueryBuilder \<Rightarrow> error + (string \<times> 'v list)" where
  "build U this =
     (case buildQueryString U this of
        Inl e \<Rightarrow> Inl e
      | Inr q \<Rightarrow> Inr (q, buildQueryValues this))"

text \<open>A select builder seen through the \<open>QueryBuilder\<close> interface it implements.\<close>

definition asQueryBuilder :: "PgQueryUtils \<Rightarrow> 'v PgSelectQueryBuilder \<Rightarrow> 'v QueryBuilder" where
  "asQueryBuilder U this =
     \<lparr> qb_buildQueryString = buildQueryString U this,
       qb_buildQueryValues = buildQueryValues this,
       qb_getQueryValueFactories = getQueryValueFactories this \<rparr>"

subsection \<open>The clauses of the rendered text, named as the spec names them\<close>

definition select_clause :: "string list \<Rightarrow> string" where
  "select_clause fs = ''SELECT '' @ join '', '' fs"

definition from_clause :: "PgQueryUtils \<Rightarrow> 'v PgSelectQueryBuilder \<Rightarrow> string" where
  "from_clause U this =
     (case mainTableName this of
        None \<Rightarrow> []
      | Some t \<Rightarrow> if t = [] then [] else '' FROM '' @ quoteTableName U t)"

definition joins_clause :: "'v PgSelectQueryBuilder \<Rightarrow> string" where
  "joins_clause this =
     (if leftJoinQueries this = [] then []
      else '' '' @ join '' '' (map (\<lambda>f. f ()) (leftJoinQueries this)))"

definition where_clause :: "string option \<Rightarrow> string" where
  "where_clause w = (case w of None \<Rightarrow> [] | Some ws \<Rightarrow> '' WHERE '' @ ws)"

definition groupBy_clause :: "PgQueryUtils \<Rightarrow> 'v PgSelectQueryBuilder \<Rightarrow> string" where
  "groupBy_clause U this =
     (case mainIdColumnName this of
        None \<Rightarrow> []
      | Some c \<Rightarrow>
          if c = [] then []
          else '' GROUP BY '' @ quoteTableAndColumn U (string_of (mainTableName this)) c)"

text \<open>The predicate's rendered text, when a predicate builder is attached.\<close>

definition where_string :: "'v PgSelectQueryBuilder \<Rightarrow> error + string option" where
  "where_string this =
     (case whereBuilder this of
        None \<Rightarrow> Inr None
      | Some w \<Rightarrow> (case qb_buildQueryString w of Inl e \<Rightarrow> Inl e | Inr ws \<Rightarrow> Inr (Some ws)))"

subsection \<open>Example builders\<close>

text \<open>\<open>ends_with s q\<close>: the text \<open>q\<close> ends with \<open>s\<close>.\<close>

definition ends_with :: "string \<Rightarrow> string \<Rightarrow> bool" where
  "ends_with s q = (length s \<le> length q \<and> drop (length q - length s) q = s)"

text \<open>A sub-builder that renders the empty string and still has one value factory.\<close>

definition ex_sub_empty :: "int QueryBuilder" where
  "ex_sub_empty =
     \<lparr> qb_buildQueryString = Inr [], qb_buildQueryValues = [7],
       qb_getQueryValueFactories = [\<lambda>_. 7] \<rparr>"

definition ex_sub :: "int QueryBuilder" where
  "ex_sub =
     \<lparr> qb_buildQueryString = Inr ''(SELECT COUNT(*) FROM c WHERE k = $1)'',
       qb_buildQueryValues = [7], qb_getQueryValueFactories = [\<lambda>_. 7] \<rparr>"

definition ex_pred :: "int QueryBuilder" where
  "ex_pred =
     \<lparr> qb_buildQueryString = Inr ''x = $2'', qb_buildQueryValues = [9],
       qb_getQueryValueFactories = [\<lambda>_. 9] \<rparr>"

text \<open>Two field expressions, one left join and one predicate, on the table \<open>p\<close>.\<close>

definition ex_builder :: "int PgSelectQueryBuilder" where
  "ex_builder =
     setWhereFromQueryBuilder ex_pred
       (leftJoinTable pgQueryUtils ''c'' ''pid'' ''p'' ''id''
         (includeColumnFromQueryBuilder pgQueryUtils ex_sub ''n''
           (includeAllColumnsFromTable pgQueryUtils ''p''
             (setFromTable ''p'' newPgSelectQueryBuilder))))"

text \<open>A builder with the table prefix \<open>p_\<close> and the from-table \<open>t\<close>.\<close>

definition ex_prefixed :: "int PgSelectQueryBuilder" where
  "ex_prefixed = setFromTable ''t'' (setTablePrefix ''p_'' newPgSelectQueryBuilder)"


section \<open>MemoryPersister\<close>

subsection \<open>Entities, the object store and the sequence counter\<close>

text \<open>
  An entity object is the list of its own properties. \<open>has\<close> is the core library's own
  property test (not among the source files; it is read as \<open>hasOwnProperty\<close>), \<open>get_prop\<close>
  is \<open>obj[name]\<close> and \<open>set_prop\<close> is \<open>obj[name] = v\<close>.
\<close>

type_synonym entity = "(string \<times> val) list"

type_synonym addr = nat

definition has :: "entity \<Rightarrow> string \<Rightarrow> bool" where
  "has e p = (map_of e p \<noteq> None)"

definition get_prop :: "entity \<Rightarrow> string \<Rightarrow> val" where
  "get_prop e p = (case map_of e p of None \<Rightarrow> VUndefined | Some v \<Rightarrow> v)"

definition set_prop :: "entity \<Rightarrow> string \<Rightarrow> val \<Rightarrow> entity" where
  "set_prop e p v = AList.update p v e"

text \<open>The same on a property value: only an object has own properties here.\<close>

fun has_val :: "val \<Rightarrow> string \<Rightarrow> bool" where
  "has_val (VObj ps) p = has ps p"
| "has_val _ p = False"

fun get_val :: "val \<Rightarrow> string \<Rightarrow> val" where
  "get_val (VObj ps) p = get_prop ps p"
| "get_val _ p = VUndefined"

text \<open>The expression \<open>has(obj, name) ? obj[name] : undefined\<close>, on an entity and on a value.\<close>

definition own_prop :: "entity \<Rightarrow> string \<Rightarrow> val" where
  "own_prop e p = (if has e p then get_prop e p else VUndefined)"

definition own_prop_val :: "val \<Rightarrow> string \<Rightarrow> val" where
  "own_prop_val v p = (if has_val v p then get_val v p else VUndefined)"

text \<open>JavaScript truthiness (\<open>!x\<close> is its negation).\<close>

fun truthy :: "val \<Rightarrow> bool" where
  "truthy VUndefined = False"
| "truthy VNull = False"
| "truthy (VBool b) = b"
| "truthy (VNum n) = (n \<noteq> 0)"
| "truthy (VStr s) = (s \<noteq> [])"
| "truthy (VObj ps) = True"
| "truthy (VArr vs) = True"

text \<open>
  \<open>===\<close>. Primitives compare by value. Objects and arrays compare by identity, and every
  object these comparisons meet sits inside a deep copy made by \<open>clone\<close>, so no two of
  them are the same object.
\<close>

fun strict_eq :: "val \<Rightarrow> val \<Rightarrow> bool" where
  "strict_eq VUndefined VUndefined = True"
| "strict_eq VNull VNull = True"
| "strict_eq (VBool a) (VBool b) = (a = b)"
| "strict_eq (VNum a) (VNum b) = (a = b)"
| "strict_eq (VStr a) (VStr b) = (a = b)"
| "strict_eq a b = False"

text \<open>\<open>Array.prototype.includes\<close> (no value here is NaN, so it agrees with \<open>===\<close>).\<close>

definition array_includes :: "val list \<Rightarrow> val \<Rightarrow> bool" where
  "array_includes xs v = list_ex (\<lambda>x. strict_eq x v) xs"

text \<open>
  The state shared by the whole process: the objects (an entity object lives at an
  address; \<open>next_addr\<close> is the first address not yet allocated) and the module-level
  variable \<open>ID_SEQUENCER\<close>, which every persister instance increments.
\<close>

record global =
  heap :: "addr \<Rightarrow> entity"
  next_addr :: addr
  ID_SEQUENCER :: nat

text \<open>
  Modelled from the spec: \<open>Entity.clone\<close> is called by the persister but the entity class
  among the source files does not define it. The spec says that it is a deep,
  value-semantics copy: a new object with the same property values.
\<close>

definition clone :: "addr \<Rightarrow> global \<Rightarrow> addr \<times> global" where
  "clone a g =
     (next_addr g,
      g\<lparr>heap := (heap g)(next_addr g := heap g a), next_addr := Suc (next_addr g)\<rparr>)"

text \<open>\<open>map(list, (item) => item.clone())\<close>.\<close>

fun clone_list :: "addr list \<Rightarrow> global \<Rightarrow> addr list \<times> global" where
  "clone_list [] g = ([], g)"
| "clone_list (a # as) g =
     (let (b, g1) = clone a g; (bs, g2) = clone_list as g1 in (b # bs, g2))"

text \<open>The template literal \<open>`${newId}`\<close> of a counter value: its decimal digits.\<close>

definition digit_char :: "nat \<Rightarrow> char" where
  "digit_char d = char_of (48 + d)"

function string_of_nat :: "nat \<Rightarrow> string" where
  "string_of_nat n =
     (if n < 10 then [digit_char n] else string_of_nat (n div 10) @ [digit_char (n mod 10)])"
  by pat_completeness auto
termination
  by (relation "measure (\<lambda>n. n)") auto

declare string_of_nat.simps [simp del]

subsection \<open>Metadata\<close>

record EntityField =
  propertyName :: string
  columnName :: string

record EntityRelationOneToMany =
  otm_propertyName :: string
  mappedBy :: string
  otm_mappedTable :: string

record EntityRelationManyToOne =
  mto_propertyName :: string
  mto_mappedTable :: string

text \<open>
  The metadata types are imported, not among the source files; these are the fields the
  persister reads. An absent or undefined string is the empty string (both are falsy), an
  absent relation list is the empty list.
\<close>

record EntityMetadata =
  tableName :: string
  idPropertyName :: string
  md_fields :: "EntityField list"
  oneToManyRelations :: "EntityRelationOneToMany list"
  manyToOneRelations :: "EntityRelationManyToOne list"

text \<open>
  \<open>EntityUtils.getPropertyName\<close> is not among the source files: it is a parameter of the
  persister's functions, and it may throw.
\<close>

record EntityUtils =
  getPropertyName :: "string \<Rightarrow> EntityField list \<Rightarrow> error + string"

text \<open>
  Modelled from the spec: \<open>EntityUtils.getPropertyName\<close> maps a column name back to a
  property name of the given field list. Only the concrete examples use this instance;
  what it does when no field has the column is not in the spec, and it fails here.
\<close>

definition entityUtils :: EntityUtils where
  "entityUtils =
     \<lparr> getPropertyName = (\<lambda>c fs.
         case find (\<lambda>f. columnName f = c) fs of
           None \<Rightarrow> Inl (ExternalError c)
         | Some f \<Rightarrow> Inr (propertyName f)) \<rparr>"

subsection \<open>Tables and the persister\<close>

record MemoryItem =
  item_id :: val
  item_value :: addr

definition createMemoryItem :: "val \<Rightarrow> addr \<Rightarrow> MemoryItem" where
  "createMemoryItem i v = \<lparr> item_id = i, item_value = v \<rparr>"

record MemoryTable =
  items :: "MemoryItem list"

definition createMemoryTable :: "MemoryItem list option \<Rightarrow> MemoryTable" where
  "createMemoryTable its = \<lparr> items = (case its of None \<Rightarrow> [] | Some l \<Rightarrow> l) \<rparr>"

datatype MemoryIdType = STRING | NUMBER

text \<open>
  The private fields of a persister. \<open>_data\<close> is a plain object (\<open>this._data = {}\<close>): \<open>data\<close>
  holds its own properties, the only ones \<open>has\<close> sees, and \<open>data_proto\<close> is its prototype once
  an assignment to the key \<open>__proto__\<close> has replaced \<open>Object.prototype\<close> by a table (\<open>None\<close>
  before that). Modelled from the spec: the metadata manager
  (\<open>PersisterMetadataManagerImpl\<close>, not among the source files) is a map from a table name
  to the metadata registered last under it.
\<close>

record MemoryPersister =
  idType :: MemoryIdType
  data :: "string \<rightharpoonup> MemoryTable"
  data_proto :: "MemoryTable option"
  metadataManager :: "string \<rightharpoonup> EntityMetadata"

definition newMemoryPersister :: "MemoryIdType option \<Rightarrow> MemoryPersister" where
  "newMemoryPersister t =
     \<lparr> idType = (case t of None \<Rightarrow> STRING | Some i \<Rightarrow> i), data = Map.empty,
       data_proto = None, metadataManager = Map.empty \<rparr>"

definition setupEntityMetadata :: "EntityMetadata \<Rightarrow> MemoryPersister \<Rightarrow> MemoryPersister" where
  "setupEntityMetadata metadata this =
     this\<lparr>metadataManager := (metadataManager this)(tableName metadata \<mapsto> metadata)\<rparr>"

definition getMetadataByTable :: "MemoryPersister \<Rightarrow> string \<Rightarrow> EntityMetadata option" where
  "getMetadataByTable this t = metadataManager this t"

text \<open>
  \<open>has(this._data, tableName)\<close>, an own-property test, and \<open>this._data[tableName].items\<close> where
  the code reads it behind that test (\<open>count\<close>, the deletions, the finders).
\<close>

definition has_table :: "MemoryPersister \<Rightarrow> string \<Rightarrow> bool" where
  "has_table this t = (data this t \<noteq> None)"

definition table_items :: "MemoryPersister \<Rightarrow> string \<Rightarrow> MemoryItem list" where
  "table_items this t = (case data this t of None \<Rightarrow> [] | Some tb \<Rightarrow> items tb)"

text \<open>
  \<open>this._data[tableName].items = ...\<close> in the deletions, which run it only when \<open>has\<close> holds:
  the table is an own property.
\<close>

definition set_items :: "string \<Rightarrow> MemoryItem list \<Rightarrow> MemoryPersister \<Rightarrow> MemoryPersister" where
  "set_items t its this = this\<lparr>data := (data this)(t \<mapsto> \<lparr> items = its \<rparr>)\<rparr>"

text \<open>
  The assignment \<open>this._data[tableName] = table\<close>. On a plain object the key \<open>__proto__\<close> is
  the accessor inherited from \<open>Object.prototype\<close>: assigning an object to it replaces the
  prototype and creates no own property. Every other key becomes an own property.
\<close>

definition assign_table :: "string \<Rightarrow> MemoryTable \<Rightarrow> MemoryPersister \<Rightarrow> MemoryPersister" where
  "assign_table t tb this =
     (if t = ''__proto__'' \<and> data this t = None then this\<lparr>data_proto := Some tb\<rparr>
      else this\<lparr>data := (data this)(t \<mapsto> tb)\<rparr>)"

text \<open>
  The read \<open>this._data[tableName]\<close> that \<open>insert\<close> and \<open>update\<close> make with no \<open>has\<close> test
  before it: an own property, or for the key \<open>__proto__\<close> the prototype. Both functions read
  only after they have created a missing table, so the read finds a table.
\<close>

definition read_table :: "MemoryPersister \<Rightarrow> string \<Rightarrow> MemoryTable option" where
  "read_table this t =
     (case data this t of
        Some tb \<Rightarrow> Some tb
      | None \<Rightarrow> if t = ''__proto__'' then data_proto this else None)"

definition current_items :: "MemoryPersister \<Rightarrow> string \<Rightarrow> MemoryItem list" where
  "current_items this t = (case read_table this t of None \<Rightarrow> [] | Some tb \<Rightarrow> items tb)"

text \<open>
  The mutations \<open>this._data[tableName].items.push(item)\<close> and \<open>savedItem.value = entity\<close>: they
  change the items of the table that the read above returns.
\<close>

definition write_items :: "string \<Rightarrow> MemoryItem list \<Rightarrow> MemoryPersister \<Rightarrow> MemoryPersister" where
  "write_items t its this =
     (case data this t of
        Some tb \<Rightarrow> this\<lparr>data := (data this)(t \<mapsto> tb\<lparr>items := its\<rparr>)\<rparr>
      | None \<Rightarrow>
          if t = ''__proto__''
          then this\<lparr>data_proto := map_option (\<lambda>tb. tb\<lparr>items := its\<rparr>) (data_proto this)\<rparr>
          else this)"

text \<open>The first lines of \<open>insert\<close> and \<open>update\<close>: the table is created when it is missing.\<close>

definition ensure_table :: "string \<Rightarrow> MemoryPersister \<Rightarrow> MemoryPersister" where
  "ensure_table t this =
     (if \<not> has_table this t then assign_table t (createMemoryTable None) this else this)"

definition findItem ::
  "MemoryPersister \<Rightarrow> (MemoryItem \<Rightarrow> bool) \<Rightarrow> string \<Rightarrow> MemoryItem option" where
  "findItem this callback t =
     (if \<not> has_table this t then None else find callback (table_items this t))"

definition filterItems ::
  "MemoryPersister \<Rightarrow> (MemoryItem \<Rightarrow> bool) \<Rightarrow> string \<Rightarrow> MemoryItem list" where
  "filterItems this callback t =
     (if \<not> has_table this t then [] else filter callback (table_items this t))"

definition prepareItem :: "MemoryItem \<Rightarrow> EntityMetadata \<Rightarrow> global \<Rightarrow> addr \<times> global" where
  "prepareItem item metadata g = clone (item_value item) g"

fun prepareItemList :: "MemoryItem list \<Rightarrow> EntityMetadata \<Rightarrow> global \<Rightarrow> addr list \<times> global" where
  "prepareItemList [] metadata g = ([], g)"
| "prepareItemList (item # rest) metadata g =
     (let (a, g1) = prepareItem item metadata g;
          (as, g2) = prepareItemList rest metadata g1
      in (a # as, g2))"

text \<open>\<open>forEach\<close> over a callback that can throw: the first throw ends the loop.\<close>

fun forEach :: "('a \<Rightarrow> global \<Rightarrow> (error + unit) \<times> global) \<Rightarrow> 'a list \<Rightarrow> global
    \<Rightarrow> (error + unit) \<times> global" where
  "forEach f [] g = (Inr (), g)"
| "forEach f (x # xs) g =
     (case f x g of
        (Inl e, g1) \<Rightarrow> (Inl e, g1)
      | (Inr u, g1) \<Rightarrow> forEach f xs g1)"

subsection \<open>Relation population\<close>

text \<open>The callback of \<open>_filterItems\<close> in \<open>_populateOneToManyRelations\<close>.\<close>

definition linked ::
  "global \<Rightarrow> string \<Rightarrow> string \<Rightarrow> val \<Rightarrow> MemoryItem \<Rightarrow> bool" where
  "linked g mappedBy' joinPropertyName entityId relatedItem =
     (let relatedEntity = heap g (item_value relatedItem);
          relatedEntityProperty = own_prop relatedEntity mappedBy'
      in if truthy relatedEntityProperty then
           (let innerId = own_prop_val relatedEntityProperty joinPropertyName
            in truthy innerId \<and> strict_eq innerId entityId)
         else False)"

text \<open>The callback of the \<open>forEach\<close> over the one-to-many relations.\<close>

definition oneToMany_step ::
  "EntityUtils \<Rightarrow> MemoryPersister \<Rightarrow> EntityMetadata \<Rightarrow> addr \<Rightarrow> val
    \<Rightarrow> EntityRelationOneToMany \<Rightarrow> global \<Rightarrow> (error + unit) \<times> global" where
  "oneToMany_step EU this metadata entity entityId oneToMany g =
     (let pn = otm_propertyName oneToMany;
          mb = mappedBy oneToMany;
          mt = otm_mappedTable oneToMany
      in if mt \<noteq> [] \<and> mb \<noteq> [] then
           (case getMetadataByTable this mt of
              Some mappedToMetadata \<Rightarrow>
                (case find (\<lambda>field. propertyName field = mb) (md_fields mappedToMetadata) of
                   Some joinColumn \<Rightarrow>
                     (case getPropertyName EU (columnName joinColumn) (md_fields metadata) of
                        Inl e \<Rightarrow> (Inl e, g)
                      | Inr joinPropertyName \<Rightarrow>
                          (let linkedEntities =
                                 filterItems this (linked g mb joinPropertyName entityId) mt;
                               (as, g1) = prepareItemList linkedEntities mappedToMetadata g
                           in (Inr (),
                               g1\<lparr>heap := (heap g1)(entity :=
                                    set_prop (heap g1 entity) pn
                                      (VArr (map (\<lambda>a. VObj (heap g1 a)) as)))\<rparr>)))
                 | None \<Rightarrow> (Inr (), g))
            | None \<Rightarrow> (Inl (NoMetadataForLinkedTable mt pn (tableName metadata)), g))
         else (Inl (NoLinkToTable pn (tableName metadata)), g))"

definition populateOneToManyRelations ::
  "EntityUtils \<Rightarrow> MemoryPersister \<Rightarrow> addr \<Rightarrow> EntityMetadata \<Rightarrow> global
    \<Rightarrow> (error + addr) \<times> global" where
  "populateOneToManyRelations EU this entity0 metadata g =
     (let (entity, g1) = clone entity0 g;
          idp = idPropertyName metadata;
          entityId = own_prop (heap g1 entity) idp
      in if length (oneToManyRelations metadata) \<noteq> 0 then
           (case forEach (oneToMany_step EU this metadata entity entityId)
                   (oneToManyRelations metadata) g1 of
              (Inl e, g2) \<Rightarrow> (Inl e, g2)
            | (Inr u, g2) \<Rightarrow> (Inr entity, g2))
         else (Inr entity, g1))"

text \<open>The callback of the \<open>forEach\<close> over the many-to-one relations.\<close>

definition manyToOne_step ::
  "EntityUtils \<Rightarrow> MemoryPersister \<Rightarrow> EntityMetadata \<Rightarrow> addr
    \<Rightarrow> EntityRelationManyToOne \<Rightarrow> global \<Rightarrow> (error + unit) \<times> global" where
  "manyToOne_step EU this metadata entity manyToOne g =
     (let pn = mto_propertyName manyToOne;
          mt = mto_mappedTable manyToOne
      in case find (\<lambda>field. propertyName field = pn) (md_fields metadata) of
           Some joinColumn \<Rightarrow>
             (if mt = [] then (Inl (NoLinkToTable pn (tableName metadata)), g)
              else
                (case getMetadataByTable this mt of
                   None \<Rightarrow> (Inl (NoMetadataForLinkedTable mt pn (tableName metadata)), g)
                 | Some mappedToMetadata \<Rightarrow>
                     (let relatedEntity = get_prop (heap g entity) pn
                      in if \<not> truthy relatedEntity then (Inl (NoRelatedEntity pn), g)
                         else
                           (case getPropertyName EU (columnName joinColumn)
                                   (md_fields mappedToMetadata) of
                              Inl e \<Rightarrow> (Inl e, g)
                            | Inr joinPropertyName \<Rightarrow>
                                (let relatedId = own_prop_val relatedEntity joinPropertyName
                                 in if \<not> truthy relatedId
                                    then (Inl (NoRelatedEntityId joinPropertyName), g)
                                    else
                                      (case findItem this
                                              (\<lambda>item. strict_eq (item_id item) relatedId)
                                              (tableName mappedToMetadata) of
                                         None \<Rightarrow>
                                           (Inl (RelatedEntityNotFound relatedId
                                                   (tableName mappedToMetadata)), g)
                                       | Some storedRelatedItem \<Rightarrow>
                                           (let (a, g1) = prepareItem storedRelatedItem
                                                            mappedToMetadata g
                                            in case populateOneToManyRelations EU this a
                                                      mappedToMetadata g1 of
                                                 (Inl e, g2) \<Rightarrow> (Inl e, g2)
                                               | (Inr b, g2) \<Rightarrow>
                                                   (Inr (),
                                                    g2\<lparr>heap := (heap g2)(entity :=
                                                         set_prop (heap g2 entity) pn
                                                           (VObj (heap g2 b)))\<rparr>))))))))
         | None \<Rightarrow> (Inr (), g))"

definition populateManyToOneRelations ::
  "EntityUtils \<Rightarrow> MemoryPersister \<Rightarrow> addr \<Rightarrow> EntityMetadata \<Rightarrow> global
    \<Rightarrow> (error + addr) \<times> global" where
  "populateManyToOneRelations EU this entity0 metadata g =
     (let (entity, g1) = clone entity0 g
      in if length (manyToOneRelations metadata) \<noteq> 0 then
           (case forEach (manyToOne_step EU this metadata entity)
                   (manyToOneRelations metadata) g1 of
              (Inl e, g2) \<Rightarrow> (Inl e, g2)
            | (Inr u, g2) \<Rightarrow> (Inr entity, g2))
         else (Inr entity, g1))"

definition populateRelations ::
  "EntityUtils \<Rightarrow> MemoryPersister \<Rightarrow> addr \<Rightarrow> EntityMetadata \<Rightarrow> global
    \<Rightarrow> (error + addr) \<times> global" where
  "populateRelations EU this entity metadata g =
     (case populateOneToManyRelations EU this entity metadata g of
        (Inl e, g1) \<Rightarrow> (Inl e, g1)
      | (Inr a, g1) \<Rightarrow> populateManyToOneRelations EU this a metadata g1)"

text \<open>\<open>map(list, (item) => this._populateRelations(item, metadata))\<close>.\<close>

fun populateRelationsToList ::
  "EntityUtils \<Rightarrow> MemoryPersister \<Rightarrow> addr list \<Rightarrow> EntityMetadata \<Rightarrow> global
    \<Rightarrow> (error + addr list) \<times> global" where
  "populateRelationsToList EU this [] metadata g = (Inr [], g)"
| "populateRelationsToList EU this (a # as) metadata g =
     (case populateRelations EU this a metadata g of
        (Inl e, g1) \<Rightarrow> (Inl e, g1)
      | (Inr b, g1) \<Rightarrow>
          (case populateRelationsToList EU this as metadata g1 of
             (Inl e, g2) \<Rightarrow> (Inl e, g2)
           | (Inr bs, g2) \<Rightarrow> (Inr (b # bs), g2)))"


subsection \<open>The Persister operations\<close>

definition count :: "EntityMetadata \<Rightarrow> MemoryPersister \<Rightarrow> nat" where
  "count metadata this =
     (if \<not> has_table this (tableName metadata) then 0
      else length (table_items this (tableName metadata)))"

text \<open>The callbacks of the scans by property: \<open>===\<close> and \<open>!==\<close> on the stored value.\<close>

definition property_is :: "global \<Rightarrow> string \<Rightarrow> val \<Rightarrow> MemoryItem \<Rightarrow> bool" where
  "property_is g property v item =
     (if has (heap g (item_value item)) property
      then strict_eq (get_prop (heap g (item_value item)) property) v else False)"

definition property_is_not :: "global \<Rightarrow> string \<Rightarrow> val \<Rightarrow> MemoryItem \<Rightarrow> bool" where
  "property_is_not g property v item =
     (if has (heap g (item_value item)) property
      then \<not> strict_eq (get_prop (heap g (item_value item)) property) v else True)"

definition countByProperty ::
  "string \<Rightarrow> val \<Rightarrow> EntityMetadata \<Rightarrow> MemoryPersister \<Rightarrow> global \<Rightarrow> nat" where
  "countByProperty property v metadata this g =
     (if \<not> has_table this (tableName metadata) then 0
      else length (filter
             (\<lambda>item. has (heap g (item_value item)) property
                     \<and> strict_eq v (get_prop (heap g (item_value item)) property))
             (table_items this (tableName metadata))))"

definition deleteAll :: "EntityMetadata \<Rightarrow> MemoryPersister \<Rightarrow> MemoryPersister" where
  "deleteAll metadata this =
     (if \<not> has_table this (tableName metadata) then this
      else this\<lparr>data := (data this)(tableName metadata := None)\<rparr>)"

definition deleteAllById :: "val list \<Rightarrow> EntityMetadata \<Rightarrow> MemoryPersister \<Rightarrow> MemoryPersister" where
  "deleteAllById ids metadata this =
     (if \<not> has_table this (tableName metadata) then this
      else set_items (tableName metadata)
             (filter (\<lambda>item. \<not> array_includes ids (item_id item))
                (table_items this (tableName metadata))) this)"

definition deleteAllByProperty ::
  "string \<Rightarrow> val \<Rightarrow> EntityMetadata \<Rightarrow> MemoryPersister \<Rightarrow> global \<Rightarrow> MemoryPersister" where
  "deleteAllByProperty property v metadata this g =
     (if \<not> has_table this (tableName metadata) then this
      else set_items (tableName metadata)
             (filter (property_is_not g property v) (table_items this (tableName metadata)))
             this)"

definition deleteById :: "val \<Rightarrow> EntityMetadata \<Rightarrow> MemoryPersister \<Rightarrow> MemoryPersister" where
  "deleteById i metadata this = deleteAllById [i] metadata this"

definition existsByProperty ::
  "string \<Rightarrow> val \<Rightarrow> EntityMetadata \<Rightarrow> MemoryPersister \<Rightarrow> global \<Rightarrow> bool" where
  "existsByProperty property v metadata this g =
     (if \<not> has_table this (tableName metadata) then False
      else list_ex (property_is g property v) (table_items this (tableName metadata)))"

definition findAll ::
  "EntityUtils \<Rightarrow> EntityMetadata \<Rightarrow> MemoryPersister \<Rightarrow> global \<Rightarrow> (error + addr list) \<times> global" where
  "findAll EU metadata this g =
     (if \<not> has_table this (tableName metadata) then (Inr [], g)
      else (let (as, g1) = prepareItemList (table_items this (tableName metadata)) metadata g
            in populateRelationsToList EU this as metadata g1))"

definition findAllById ::
  "EntityUtils \<Rightarrow> val list \<Rightarrow> EntityMetadata \<Rightarrow> MemoryPersister \<Rightarrow> global
    \<Rightarrow> (error + addr list) \<times> global" where
  "findAllById EU ids metadata this g =
     (let (as, g1) = prepareItemList
                       (filterItems this (\<lambda>item. array_includes ids (item_id item))
                          (tableName metadata)) metadata g
      in populateRelationsToList EU this as metadata g1)"

definition findAllByProperty ::
  "EntityUtils \<Rightarrow> string \<Rightarrow> val \<Rightarrow> EntityMetadata \<Rightarrow> MemoryPersister \<Rightarrow> global
    \<Rightarrow> (error + addr list) \<times> global" where
  "findAllByProperty EU property v metadata this g =
     (let (as, g1) = prepareItemList
                       (filterItems this (property_is g property v) (tableName metadata))
                       metadata g
      in populateRelationsToList EU this as metadata g1)"

text \<open>The common end of \<open>findById\<close> and \<open>findByProperty\<close>.\<close>

definition found ::
  "EntityUtils \<Rightarrow> MemoryItem option \<Rightarrow> EntityMetadata \<Rightarrow> MemoryPersister \<Rightarrow> global
    \<Rightarrow> (error + addr option) \<times> global" where
  "found EU item metadata this g =
     (case item of
        None \<Rightarrow> (Inr None, g)
      | Some it \<Rightarrow>
          (let (a, g1) = prepareItem it metadata g
           in case populateRelations EU this a metadata g1 of
                (Inl e, g2) \<Rightarrow> (Inl e, g2)
              | (Inr b, g2) \<Rightarrow> (Inr (Some b), g2)))"

definition findById ::
  "EntityUtils \<Rightarrow> val \<Rightarrow> EntityMetadata \<Rightarrow> MemoryPersister \<Rightarrow> global
    \<Rightarrow> (error + addr option) \<times> global" where
  "findById EU i metadata this g =
     found EU (findItem this (\<lambda>item. strict_eq (item_id item) i) (tableName metadata))
       metadata this g"

definition findByProperty ::
  "EntityUtils \<Rightarrow> string \<Rightarrow> val \<Rightarrow> EntityMetadata \<Rightarrow> MemoryPersister \<Rightarrow> global
    \<Rightarrow> (error + addr option) \<times> global" where
  "findByProperty EU property v metadata this g =
     found EU (findItem this (property_is g property v) (tableName metadata)) metadata this g"

text \<open>The argument of \<open>insert\<close>: one entity or an array of entities.\<close>

datatype entity_arg = One addr | Many "addr list"

fun as_list :: "entity_arg \<Rightarrow> addr list" where
  "as_list (One e) = [e]"
| "as_list (Many es) = es"

text \<open>The id a counter value becomes, per the persister's id type.\<close>

definition format_id :: "MemoryIdType \<Rightarrow> nat \<Rightarrow> val" where
  "format_id t newId = (if t = STRING then VStr (string_of_nat newId) else VNum (int newId))"

text \<open>An entity has a populated id: \<open>has(item, idPropertyName) && item[idPropertyName]\<close>.\<close>

definition has_id :: "entity \<Rightarrow> string \<Rightarrow> bool" where
  "has_id e idp = (has e idp \<and> truthy (get_prop e idp))"

text \<open>
  \<open>++ID_SEQUENCER\<close>. The counter is a JavaScript number, a double that starts at 0 and is
  only ever incremented: below \<open>2 ^ 53\<close> the increment is exact, and at \<open>2 ^ 53\<close> the sum
  \<open>2 ^ 53 + 1\<close> is rounded back to \<open>2 ^ 53\<close>, so the counter stays there.
\<close>

definition increment :: "nat \<Rightarrow> nat" where
  "increment n = (if n < 2 ^ 53 then Suc n else n)"

text \<open>
  The first statement of the callback that builds \<open>newItems\<close> in \<open>insert\<close>: an entity
  without a populated id gets the next value of the sequence counter.
\<close>

definition assign_id :: "MemoryIdType \<Rightarrow> string \<Rightarrow> addr \<Rightarrow> global \<Rightarrow> global" where
  "assign_id t idp item g =
     (if \<not> has_id (heap g item) idp then
        (let newId = increment (ID_SEQUENCER g)
         in g\<lparr>ID_SEQUENCER := newId,
              heap := (heap g)(item := set_prop (heap g item) idp (format_id t newId))\<rparr>)
      else g)"

text \<open>
  The \<open>map\<close> in \<open>insert\<close> that builds \<open>newItems\<close>: it assigns the missing ids, checks each id
  against \<open>allIds\<close> and pushes it there; the first throw ends it.
\<close>

fun newItems ::
  "MemoryIdType \<Rightarrow> string \<Rightarrow> addr list \<Rightarrow> val list \<Rightarrow> global
    \<Rightarrow> (error + MemoryItem list) \<times> global" where
  "newItems t idp [] allIds g = (Inr [], g)"
| "newItems t idp (item # rest) allIds g =
     (let g1 = assign_id t idp item g;
          i = get_prop (heap g1 item) idp
      in if \<not> truthy i then (Inl (EntityCannotBeSaved i), g1)
         else if array_includes allIds i then (Inl (EntityAlreadyStored i), g1)
         else (case newItems t idp rest (allIds @ [i]) g1 of
                 (Inl e, g2) \<Rightarrow> (Inl e, g2)
               | (Inr its, g2) \<Rightarrow> (Inr (createMemoryItem i item # its), g2)))"

text \<open>\<open>first\<close> of the core library.\<close>

fun first :: "'a list \<Rightarrow> 'a option" where
  "first [] = None"
| "first (x # xs) = Some x"

definition insert ::
  "EntityUtils \<Rightarrow> entity_arg \<Rightarrow> EntityMetadata \<Rightarrow> MemoryPersister \<Rightarrow> global
    \<Rightarrow> (error + addr) \<times> MemoryPersister \<times> global" where
  "insert EU entity metadata this g =
     (let (list, g1) = clone_list (as_list entity) g;
          tn = tableName metadata;
          idp = idPropertyName metadata;
          this1 = ensure_table tn this;
          allIds = map item_id (current_items this1 tn)
      in case newItems (idType this1) idp list allIds g1 of
           (Inl e, g2) \<Rightarrow> (Inl e, this1, g2)
         | (Inr its, g2) \<Rightarrow>
             (let this2 = write_items tn (current_items this1 tn @ its) this1
              in case first its of
                   None \<Rightarrow> (Inl CouldNotAddItems, this2, g2)
                 | Some firstItem \<Rightarrow>
                     (let (a, g3) = prepareItem firstItem metadata g2
                      in case populateRelations EU this2 a metadata g3 of
                           (r, g4) \<Rightarrow> (r, this2, g4))))"

text \<open>\<open>savedItem.value = entity\<close> on the first item that \<open>find\<close> returns.\<close>

fun set_first_value :: "(MemoryItem \<Rightarrow> bool) \<Rightarrow> addr \<Rightarrow> MemoryItem list \<Rightarrow> MemoryItem list" where
  "set_first_value P a [] = []"
| "set_first_value P a (x # xs) =
     (if P x then x\<lparr>item_value := a\<rparr> # xs else x # set_first_value P a xs)"

definition update ::
  "EntityUtils \<Rightarrow> addr \<Rightarrow> EntityMetadata \<Rightarrow> MemoryPersister \<Rightarrow> global
    \<Rightarrow> (error + addr) \<times> MemoryPersister \<times> global" where
  "update EU entity0 metadata this g =
     (let (entity, g1) = clone entity0 g;
          tn = tableName metadata;
          this1 = ensure_table tn this;
          idp = idPropertyName metadata
      in if \<not> (idp \<noteq> [] \<and> has (heap g1 entity) idp) then (Inl (NoIdProperty idp), this1, g1)
         else
           (let i = get_prop (heap g1 entity) idp
            in if \<not> truthy i then (Inl (NoValidId idp i), this1, g1)
               else
                 (let this2 =
                        (case find (\<lambda>item. strict_eq (item_id item) i) (current_items this1 tn) of
                           Some savedItem \<Rightarrow>
                             write_items tn
                               (set_first_value (\<lambda>item. strict_eq (item_id item) i) entity
                                  (current_items this1 tn)) this1
                         | None \<Rightarrow>
                             write_items tn (current_items this1 tn @ [createMemoryItem i entity])
                               this1)
                  in case populateRelations EU this2 entity metadata g1 of
                       (r, g2) \<Rightarrow> (r, this2, g2))))"

text \<open>The operations of the Persister contract, and the state after one of them.\<close>

datatype operation =
    Count EntityMetadata
  | CountByProperty string val EntityMetadata
  | DeleteAll EntityMetadata
  | DeleteAllById "val list" EntityMetadata
  | DeleteAllByProperty string val EntityMetadata
  | DeleteById val EntityMetadata
  | ExistsByProperty string val EntityMetadata
  | FindAll EntityMetadata
  | FindAllById "val list" EntityMetadata
  | FindAllByProperty string val EntityMetadata
  | FindById val EntityMetadata
  | FindByProperty string val EntityMetadata
  | Insert entity_arg EntityMetadata
  | Update addr EntityMetadata
  | SetupEntityMetadata EntityMetadata

fun run :: "EntityUtils \<Rightarrow> operation \<Rightarrow> MemoryPersister \<times> global \<Rightarrow> MemoryPersister \<times> global" where
  "run EU (Count m) (this, g) = (this, g)"
| "run EU (CountByProperty p v m) (this, g) = (this, g)"
| "run EU (DeleteAll m) (this, g) = (deleteAll m this, g)"
| "run EU (DeleteAllById ids m) (this, g) = (deleteAllById ids m this, g)"
| "run EU (DeleteAllByProperty p v m) (this, g) = (deleteAllByProperty p v m this g, g)"
| "run EU (DeleteById i m) (this, g) = (deleteById i m this, g)"
| "run EU (ExistsByProperty p v m) (this, g) = (this, g)"
| "run EU (FindAll m) (this, g) = (this, snd (findAll EU m this g))"
| "run EU (FindAllById ids m) (this, g) = (this, snd (findAllById EU ids m this g))"
| "run EU (FindAllByProperty p v m) (this, g) = (this, snd (findAllByProperty EU p v m this g))"
| "run EU (FindById i m) (this, g) = (this, snd (findById EU i m this g))"
| "run EU (FindByProperty p v m) (this, g) = (this, snd (findByProperty EU p v m this g))"
| "run EU (Insert e m) (this, g) = snd (insert EU e m this g)"
| "run EU (Update e m) (this, g) = snd (update EU e m this g)"
| "run EU (SetupEntityMetadata m) (this, g) = (setupEntityMetadata m this, g)"

text \<open>The ids of a list are pairwise distinct under \<open>===\<close>.\<close>

fun distinct_ids :: "val list \<Rightarrow> bool" where
  "distinct_ids [] = True"
| "distinct_ids (x # xs) = (\<not> array_includes xs x \<and> distinct_ids xs)"

text \<open>
  The invariant of a persister: in every table the item ids are pairwise distinct. The tables
  are the own properties of \<open>_data\<close> and the table that has become its prototype.
\<close>

definition proto_items :: "MemoryPersister \<Rightarrow> MemoryItem list" where
  "proto_items this = (case data_proto this of None \<Rightarrow> [] | Some tb \<Rightarrow> items tb)"

definition ids_distinct :: "MemoryPersister \<Rightarrow> bool" where
  "ids_distinct this =
     ((\<forall>t. distinct_ids (map item_id (table_items this t)))
      \<and> distinct_ids (map item_id (proto_items this)))"

text \<open>
  The ids the entities of a batch end up with, when the counter stands at \<open>n\<close>: the id an
  entity brings, or the next counter value (\<open>++ID_SEQUENCER\<close>).
\<close>

fun assigned_ids :: "MemoryIdType \<Rightarrow> string \<Rightarrow> nat \<Rightarrow> entity list \<Rightarrow> val list" where
  "assigned_ids t idp n [] = []"
| "assigned_ids t idp n (e # es) =
     (if has_id e idp then get_prop e idp # assigned_ids t idp n es
      else format_id t (increment n) # assigned_ids t idp (increment n) es)"

text \<open>
  Some id of the batch equals an id seen before it: one of \<open>seen\<close> (the ids stored in the
  table) or the id of an earlier entity of the batch.
\<close>

fun has_duplicate :: "val list \<Rightarrow> val list \<Rightarrow> bool" where
  "has_duplicate seen [] = False"
| "has_duplicate seen (i # rest) = (array_includes seen i \<or> has_duplicate (seen @ [i]) rest)"

subsection \<open>The lookups of relation population, as the spec lists them\<close>

text \<open>
  One-to-many, steps 1 to 3 of the spec: the relation names a table and a property, the
  table's metadata is registered, the field named \<open>mappedBy\<close> is looked up there, and its
  column is mapped back to a property name of the current entity's fields. \<open>Inr None\<close>
  stands for a relation that is passed over.
\<close>

definition otm_resolve ::
  "EntityUtils \<Rightarrow> MemoryPersister \<Rightarrow> EntityMetadata \<Rightarrow> EntityRelationOneToMany
    \<Rightarrow> error + (EntityMetadata \<times> string) option" where
  "otm_resolve EU this metadata r =
     (if otm_mappedTable r = [] \<or> mappedBy r = []
      then Inl (NoLinkToTable (otm_propertyName r) (tableName metadata))
      else
        (case getMetadataByTable this (otm_mappedTable r) of
           None \<Rightarrow> Inl (NoMetadataForLinkedTable (otm_mappedTable r) (otm_propertyName r)
                         (tableName metadata))
         | Some mm \<Rightarrow>
             (case find (\<lambda>field. propertyName field = mappedBy r) (md_fields mm) of
                None \<Rightarrow> Inr None
              | Some jc \<Rightarrow>
                  (case getPropertyName EU (columnName jc) (md_fields metadata) of
                     Inl e \<Rightarrow> Inl e
                   | Inr jp \<Rightarrow> Inr (Some (mm, jp))))))"

text \<open>
  Many-to-one, steps 1 to 5 of the spec, on the entity value \<open>ent\<close>: the field named like
  the relation, the mapped table's metadata, the placeholder, its join property and the
  stored item with that id.
\<close>

definition mto_resolve ::
  "EntityUtils \<Rightarrow> MemoryPersister \<Rightarrow> EntityMetadata \<Rightarrow> entity \<Rightarrow> EntityRelationManyToOne
    \<Rightarrow> error + (EntityMetadata \<times> MemoryItem) option" where
  "mto_resolve EU this metadata ent r =
     (case find (\<lambda>field. propertyName field = mto_propertyName r) (md_fields metadata) of
        None \<Rightarrow> Inr None
      | Some jc \<Rightarrow>
          if mto_mappedTable r = []
          then Inl (NoLinkToTable (mto_propertyName r) (tableName metadata))
          else
            (case getMetadataByTable this (mto_mappedTable r) of
               None \<Rightarrow> Inl (NoMetadataForLinkedTable (mto_mappedTable r) (mto_propertyName r)
                             (tableName metadata))
             | Some mm \<Rightarrow>
                 if \<not> truthy (get_prop ent (mto_propertyName r))
                 then Inl (NoRelatedEntity (mto_propertyName r))
                 else
                   (case getPropertyName EU (columnName jc) (md_fields mm) of
                      Inl e \<Rightarrow> Inl e
                    | Inr jp \<Rightarrow>
                        if \<not> truthy (get_val (get_prop ent (mto_propertyName r)) jp)
                        then Inl (NoRelatedEntityId jp)
                        else
                          (case findItem this
                                  (\<lambda>item. strict_eq (item_id item)
                                     (get_val (get_prop ent (mto_propertyName r)) jp))
                                  (tableName mm) of
                             None \<Rightarrow>
                               Inl (RelatedEntityNotFound
                                      (get_val (get_prop ent (mto_propertyName r)) jp)
                                      (tableName mm))
                           | Some it \<Rightarrow> Inr (Some (mm, it))))))"

text \<open>
  A relation whose join field is missing. One-to-many: the relation names a table and a
  property, the table is registered, and no field of its metadata has the property name
  \<open>mappedBy\<close>. Many-to-one: no field of the entity's own metadata has the relation's
  property name.
\<close>

definition otm_field_missing :: "MemoryPersister \<Rightarrow> EntityRelationOneToMany \<Rightarrow> bool" where
  "otm_field_missing this r =
     (otm_mappedTable r \<noteq> [] \<and> mappedBy r \<noteq> []
      \<and> (case getMetadataByTable this (otm_mappedTable r) of
            None \<Rightarrow> False
          | Some mm \<Rightarrow> find (\<lambda>field. propertyName field = mappedBy r) (md_fields mm) = None))"

definition mto_field_missing :: "EntityMetadata \<Rightarrow> EntityRelationManyToOne \<Rightarrow> bool" where
  "mto_field_missing metadata r =
     (find (\<lambda>field. propertyName field = mto_propertyName r) (md_fields metadata) = None)"

subsection \<open>What an operation leaves alone\<close>

text \<open>
  \<open>preserves g g'\<close>: every object allocated in \<open>g\<close> is unchanged in \<open>g'\<close>, and so is the
  sequence counter; objects may have been allocated.
\<close>

definition preserves :: "global \<Rightarrow> global \<Rightarrow> bool" where
  "preserves g g' \<longleftrightarrow>
     next_addr g \<le> next_addr g' \<and> ID_SEQUENCER g' = ID_SEQUENCER g
     \<and> (\<forall>x < next_addr g. heap g' x = heap g x)"

text \<open>
  \<open>frame e N g g'\<close>: the same, but for the object \<open>e\<close>, whose properties outside \<open>N\<close> keep
  their values.
\<close>

definition frame :: "addr \<Rightarrow> string set \<Rightarrow> global \<Rightarrow> global \<Rightarrow> bool" where
  "frame e N g g' \<longleftrightarrow>
     next_addr g \<le> next_addr g' \<and> ID_SEQUENCER g' = ID_SEQUENCER g
     \<and> (\<forall>x < next_addr g. x \<noteq> e \<longrightarrow> heap g' x = heap g x)
     \<and> (\<forall>q. q \<notin> N \<longrightarrow> get_prop (heap g' e) q = get_prop (heap g e) q)"


subsection \<open>Example persister states\<close>

text \<open>
  A table \<open>t\<close> without relations, a persister with numeric ids that stores one item with
  the id 1, and a store with that entity and two entities of a caller.
\<close>

definition ex_meta :: EntityMetadata where
  "ex_meta =
     \<lparr> tableName = ''t'', idPropertyName = ''id'',
       md_fields = [\<lparr>propertyName = ''id'', columnName = ''id''\<rparr>,
                    \<lparr>propertyName = ''name'', columnName = ''name''\<rparr>],
       oneToManyRelations = [], manyToOneRelations = [] \<rparr>"

definition ex_this :: MemoryPersister where
  "ex_this =
     \<lparr> idType = NUMBER,
       data = [''t'' \<mapsto> \<lparr> items = [\<lparr> item_id = VNum 1, item_value = 0 \<rparr>] \<rparr>],
       data_proto = None,
       metadataManager = [''t'' \<mapsto> ex_meta] \<rparr>"

definition ex_g :: global where
  "ex_g =
     \<lparr> heap = (\<lambda>_. [])(0 := [(''id'', VNum 1), (''name'', VStr ''a'')],
                         1 := [(''name'', VStr ''b'')],
                         2 := [(''id'', VNum 5)]),
       next_addr = 3, ID_SEQUENCER = 0 \<rparr>"

text \<open>
  Three tables: a child holds one parent, a parent holds one grandparent and has many
  children. Each table stores one entity; the relation properties hold placeholders that
  carry the id of the related row.
\<close>

definition ex_grandMeta :: EntityMetadata where
  "ex_grandMeta =
     \<lparr> tableName = ''grand'', idPropertyName = ''id'',
       md_fields = [\<lparr>propertyName = ''id'', columnName = ''grand_id''\<rparr>,
                    \<lparr>propertyName = ''name'', columnName = ''name''\<rparr>],
       oneToManyRelations = [], manyToOneRelations = [] \<rparr>"

definition ex_parentMeta :: EntityMetadata where
  "ex_parentMeta =
     \<lparr> tableName = ''parent'', idPropertyName = ''id'',
       md_fields = [\<lparr>propertyName = ''id'', columnName = ''parent_id''\<rparr>,
                    \<lparr>propertyName = ''grand'', columnName = ''grand_id''\<rparr>],
       oneToManyRelations =
         [\<lparr>otm_propertyName = ''children'', mappedBy = ''parent'', otm_mappedTable = ''child''\<rparr>],
       manyToOneRelations = [\<lparr>mto_propertyName = ''grand'', mto_mappedTable = ''grand''\<rparr>] \<rparr>"

definition ex_childMeta :: EntityMetadata where
  "ex_childMeta =
     \<lparr> tableName = ''child'', idPropertyName = ''id'',
       md_fields = [\<lparr>propertyName = ''id'', columnName = ''child_id''\<rparr>,
                    \<lparr>propertyName = ''parent'', columnName = ''parent_id''\<rparr>],
       oneToManyRelations = [],
       manyToOneRelations = [\<lparr>mto_propertyName = ''parent'', mto_mappedTable = ''parent''\<rparr>] \<rparr>"

definition ex_family :: MemoryPersister where
  "ex_family =
     \<lparr> idType = STRING,
       data = [''grand'' \<mapsto> \<lparr> items = [\<lparr> item_id = VStr ''1'', item_value = 0 \<rparr>] \<rparr>,
               ''parent'' \<mapsto> \<lparr> items = [\<lparr> item_id = VStr ''2'', item_value = 1 \<rparr>] \<rparr>,
               ''child'' \<mapsto> \<lparr> items = [\<lparr> item_id = VStr ''3'', item_value = 2 \<rparr>] \<rparr>],
       data_proto = None,
       metadataManager = [''grand'' \<mapsto> ex_grandMeta, ''parent'' \<mapsto> ex_parentMeta,
                          ''child'' \<mapsto> ex_childMeta] \<rparr>"

definition ex_family_store :: global where
  "ex_family_store =
     \<lparr> heap = (\<lambda>_. [])(0 := [(''id'', VStr ''1''), (''name'', VStr ''G'')],
                         1 := [(''id'', VStr ''2''), (''grand'', VObj [(''id'', VStr ''1'')])],
                         2 := [(''id'', VStr ''3''), (''parent'', VObj [(''id'', VStr ''2'')])]),
       next_addr = 3, ID_SEQUENCER = 3 \<rparr>"

text \<open>
  The same parent and child tables declared without the join fields: the child's metadata
  has no field for the property \<open>parent\<close> that the parent's one-to-many relation is mapped
  by, and the parent's metadata has no field for its many-to-one property \<open>grand\<close>.
\<close>

definition ex_parentMeta_nofield :: EntityMetadata where
  "ex_parentMeta_nofield =
     ex_parentMeta\<lparr>md_fields := [\<lparr>propertyName = ''id'', columnName = ''parent_id''\<rparr>]\<rparr>"

definition ex_childMeta_nofield :: EntityMetadata where
  "ex_childMeta_nofield =
     ex_childMeta\<lparr>md_fields := [\<lparr>propertyName = ''id'', columnName = ''child_id''\<rparr>]\<rparr>"

definition ex_family_nofield :: MemoryPersister where
  "ex_family_nofield =
     ex_family\<lparr>metadataManager := [''grand'' \<mapsto> ex_grandMeta,
                                     ''parent'' \<mapsto> ex_parentMeta_nofield,
                                     ''child'' \<mapsto> ex_childMeta_nofield]\<rparr>"

text \<open>
  A parent table that declares its one-to-many relation on the id property itself, and a
  new persister with numeric ids in which the child table's metadata is registered.
\<close>

definition ex_idrelMeta :: EntityMetadata where
  "ex_idrelMeta =
     ex_parentMeta\<lparr>oneToManyRelations :=
                     [\<lparr>otm_propertyName = ''id'', mappedBy = ''parent'', otm_mappedTable = ''child''\<rparr>],
                   manyToOneRelations := []\<rparr>"

definition ex_idrel :: MemoryPersister where
  "ex_idrel = setupEntityMetadata ex_childMeta (newMemoryPersister (Some NUMBER))"

text \<open>The store \<open>ex_g\<close> when the counter has been incremented \<open>2 ^ 53 - 1\<close> times.\<close>

definition ex_g_last :: global where
  "ex_g_last = ex_g\<lparr>ID_SEQUENCER := 2 ^ 53 - 1\<rparr>"

section \<open>Properties of the query builder\<close>

lemmas qb_defs =
  ex_sub_empty_def ex_sub_def ex_pred_def ex_builder_def ex_prefixed_def
  setWhereFromQueryBuilder_def leftJoinTable_def includeColumnFromQueryBuilder_def
  includeAllColumnsFromTable_def setFromTable_def newPgSelectQueryBuilder_def
  setGroupByColumn_def setTablePrefix_def columnFromQueryBuilder_def pgQueryUtils_def
  build_def buildQueryString_def buildQueryValues_def getCompleteFromTable_def
  getCompleteTableName_def

lemma buildQueryString_clauses:
  "buildQueryString U this = Inr q \<longleftrightarrow>
     (\<exists>fs w. call_all (fieldQueries this) = Inr fs \<and> where_string this = Inr w
        \<and> (truthy_string (mainIdColumnName this) \<longrightarrow> truthy_string (mainTableName this))
        \<and> q = select_clause fs @ from_clause U this @ joins_clause this @ where_clause w
               @ groupBy_clause U this)"
  by (cases "mainIdColumnName this"; cases "mainTableName this")
     (auto simp: buildQueryString_def where_string_def select_clause_def from_clause_def
        joins_clause_def where_clause_def groupBy_clause_def Let_def
        split: sum.splits option.splits if_splits)

text \<open>
  C4. \<open>getQueryValueFactories\<close> returns the field factories, then the join factories,
  then the predicate builder's factories. \<open>build\<close> returns the text \<open>q\<close> and the values
  \<open>vs\<close> exactly when the field closures and the predicate render, a group-by column comes
  with a from-table, \<open>vs\<close> is the evaluated field factories, then the evaluated join
  factories, then the predicate's values, and \<open>q\<close> is the SELECT, FROM, joins, WHERE and
  GROUP BY clauses in this order, a clause being empty when its state is unset or empty.
\<close>

theorem build_clause_order:
  "getQueryValueFactories this =
     fieldValues this @ leftJoinValues this
     @ (case whereBuilder this of None \<Rightarrow> [] | Some w \<Rightarrow> qb_getQueryValueFactories w)
   \<and> (build U this = Inr (q, vs) \<longleftrightarrow>
        vs = map (\<lambda>f. f ()) (fieldValues this) @ map (\<lambda>f. f ()) (leftJoinValues this)
             @ (case whereBuilder this of None \<Rightarrow> [] | Some w \<Rightarrow> qb_buildQueryValues w)
        \<and> (\<exists>fs w. call_all (fieldQueries this) = Inr fs \<and> where_string this = Inr w
              \<and> (truthy_string (mainIdColumnName this) \<longrightarrow> truthy_string (mainTableName this))
              \<and> q = select_clause fs @ from_clause U this @ joins_clause this @ where_clause w
                     @ groupBy_clause U this))"
proof -
  have "build U this = Inr (q, vs)
          \<longleftrightarrow> buildQueryString U this = Inr q \<and> vs = buildQueryValues this"
    by (auto simp: build_def split: sum.splits)
  then show ?thesis
    unfolding buildQueryString_clauses
    by (auto simp: getQueryValueFactories_def buildQueryValues_def)
qed

theorem build_clause_order_witness:
  "build pgQueryUtils ex_builder =
     Inr (''SELECT '' @ dq # ''p'' @ dq # ''.*, (SELECT COUNT(*) FROM c WHERE k = $1) AS ''
            @ dq # ''n'' @ dq # '' FROM '' @ dq # ''p'' @ dq # '' LEFT JOIN '' @ dq # ''c'' @ dq
            # '' ON '' @ dq # ''p'' @ dq # ''.'' @ dq # ''id'' @ dq # '' = '' @ dq # ''c'' @ dq
            # ''.'' @ dq # ''pid'' @ dq # '' WHERE x = $2'',
          [7, 9])
   \<and> (\<exists>fs w. call_all (fieldQueries ex_builder) = Inr fs \<and> where_string ex_builder = Inr w
          \<and> ''SELECT '' @ dq # ''p'' @ dq # ''.*, (SELECT COUNT(*) FROM c WHERE k = $1) AS ''
            @ dq # ''n'' @ dq # '' FROM '' @ dq # ''p'' @ dq # '' LEFT JOIN '' @ dq # ''c'' @ dq
            # '' ON '' @ dq # ''p'' @ dq # ''.'' @ dq # ''id'' @ dq # '' = '' @ dq # ''c'' @ dq
            # ''.'' @ dq # ''pid'' @ dq # '' WHERE x = $2''
             = select_clause fs @ from_clause pgQueryUtils ex_builder @ joins_clause ex_builder
               @ where_clause w @ groupBy_clause pgQueryUtils ex_builder)"
proof -
  have b: "build pgQueryUtils ex_builder =
     Inr (''SELECT '' @ dq # ''p'' @ dq # ''.*, (SELECT COUNT(*) FROM c WHERE k = $1) AS ''
            @ dq # ''n'' @ dq # '' FROM '' @ dq # ''p'' @ dq # '' LEFT JOIN '' @ dq # ''c'' @ dq
            # '' ON '' @ dq # ''p'' @ dq # ''.'' @ dq # ''id'' @ dq # '' = '' @ dq # ''c'' @ dq
            # ''.'' @ dq # ''pid'' @ dq # '' WHERE x = $2'',
          [7, 9])"
    by (simp add: qb_defs)
  from build_clause_order [THEN conjunct2, THEN iffD1, OF b] b show ?thesis
    by blast
qed

lemma foldl_push_fieldValues:
  "foldl (\<lambda>t item. t\<lparr>fieldValues := fieldValues t @ [item]\<rparr>) this fs
     = this\<lparr>fieldValues := fieldValues this @ fs\<rparr>"
  by (induction fs arbitrary: this) simp_all

lemma call_all_append:
  "call_all (fs @ gs) =
     (case call_all fs of
        Inl e \<Rightarrow> Inl e
      | Inr xs \<Rightarrow> (case call_all gs of Inl e \<Rightarrow> Inl e | Inr ys \<Rightarrow> Inr (xs @ ys)))"
  by (induction fs) (auto split: sum.splits)

lemma includeColumnFromQueryBuilder_eq:
  "includeColumnFromQueryBuilder U builder a this =
     this\<lparr>fieldQueries := fieldQueries this @ [columnFromQueryBuilder U builder a],
          fieldValues := fieldValues this @ qb_getQueryValueFactories builder\<rparr>"
  by (simp add: includeColumnFromQueryBuilder_def Let_def foldl_push_fieldValues)

text \<open>
  C7, as the claim states it, fails: the sub-builder \<open>ex_sub_empty\<close> renders the empty
  string, the call returns (the method has no throw of its own; the throw is inside the
  closure it pushes), and the one value factory of the sub-builder has been added to a
  field-value list that was empty.
\<close>

theorem includeColumnFromQueryBuilder_counterexample:
  "qb_buildQueryString ex_sub_empty = Inr []
   \<and> fieldValues (newPgSelectQueryBuilder :: int PgSelectQueryBuilder) = []
   \<and> map (\<lambda>f. f ())
        (fieldValues (includeColumnFromQueryBuilder pgQueryUtils ex_sub_empty ''n''
           newPgSelectQueryBuilder)) = [7]"
  by (simp add: qb_defs)

text \<open>
  C7, amended. \<open>includeColumnFromQueryBuilder\<close> always appends the sub-builder's value
  factories, in order, to the field-value list, and pushes one field closure. When the
  sub-builder renders the empty string, the error is raised later, by \<open>build\<close>: it fails,
  and with the composition error when the field closures added before render. When the
  sub-builder renders a non-empty string \<open>q\<close>, the new closure renders \<open>q AS alias\<close> after
  the earlier fields.
\<close>

theorem includeColumnFromQueryBuilder_deferred:
  "fieldValues (includeColumnFromQueryBuilder U builder a this)
     = fieldValues this @ qb_getQueryValueFactories builder
   \<and> fieldQueries (includeColumnFromQueryBuilder U builder a this)
     = fieldQueries this @ [columnFromQueryBuilder U builder a]
   \<and> (qb_buildQueryString builder = Inr [] \<longrightarrow>
        (\<exists>e. build U (includeColumnFromQueryBuilder U builder a this) = Inl e)
        \<and> (\<forall>fs. call_all (fieldQueries this) = Inr fs \<longrightarrow>
              build U (includeColumnFromQueryBuilder U builder a this) = Inl QueryBuilderFailed))
   \<and> (\<forall>q fs. qb_buildQueryString builder = Inr q \<and> q \<noteq> []
          \<and> call_all (fieldQueries this) = Inr fs \<longrightarrow>
        call_all (fieldQueries (includeColumnFromQueryBuilder U builder a this))
          = Inr (fs @ [q @ '' AS '' @ quoteColumnName U a]))"
  by (auto simp: includeColumnFromQueryBuilder_eq build_def buildQueryString_def call_all_append
        columnFromQueryBuilder_def split: sum.splits)

theorem includeColumnFromQueryBuilder_deferred_witness:
  "qb_buildQueryString ex_sub_empty = Inr []
   \<and> call_all (fieldQueries (newPgSelectQueryBuilder :: int PgSelectQueryBuilder)) = Inr []
   \<and> build pgQueryUtils (includeColumnFromQueryBuilder pgQueryUtils ex_sub_empty ''n''
        newPgSelectQueryBuilder) = Inl QueryBuilderFailed
   \<and> qb_buildQueryString ex_sub = Inr ''(SELECT COUNT(*) FROM c WHERE k = $1)''
   \<and> call_all (fieldQueries (includeColumnFromQueryBuilder pgQueryUtils ex_sub ''n''
        (newPgSelectQueryBuilder :: int PgSelectQueryBuilder)))
        = Inr ([] @ [''(SELECT COUNT(*) FROM c WHERE k = $1)'' @ '' AS ''
                      @ quoteColumnName pgQueryUtils ''n''])"
proof -
  have e: "qb_buildQueryString ex_sub_empty = Inr []"
    by (simp add: ex_sub_empty_def)
  have n: "call_all (fieldQueries (newPgSelectQueryBuilder :: int PgSelectQueryBuilder)) = Inr []"
    by (simp add: newPgSelectQueryBuilder_def)
  have s: "qb_buildQueryString ex_sub = Inr ''(SELECT COUNT(*) FROM c WHERE k = $1)''"
    by (simp add: ex_sub_def)
  note t = includeColumnFromQueryBuilder_deferred
  from t [of pgQueryUtils ex_sub_empty "''n''" newPgSelectQueryBuilder] e n
  have 1: "build pgQueryUtils (includeColumnFromQueryBuilder pgQueryUtils ex_sub_empty ''n''
        (newPgSelectQueryBuilder :: int PgSelectQueryBuilder)) = Inl QueryBuilderFailed"
    by blast
  from t [of pgQueryUtils ex_sub "''n''" newPgSelectQueryBuilder] s n
  have 2: "call_all (fieldQueries (includeColumnFromQueryBuilder pgQueryUtils ex_sub ''n''
        (newPgSelectQueryBuilder :: int PgSelectQueryBuilder)))
        = Inr ([] @ [''(SELECT COUNT(*) FROM c WHERE k = $1)'' @ '' AS ''
                      @ quoteColumnName pgQueryUtils ''n''])"
    by blast
  from e n 1 s 2 show ?thesis by blast
qed

text \<open>
  C8, as the claim states it, fails: with the table prefix \<open>p_\<close> the complete from-table is
  \<open>p_t\<close>, and the rendered GROUP BY clause names the table \<open>t\<close> without the prefix.
\<close>

theorem setGroupByColumn_counterexample:
  "getCompleteFromTable ex_prefixed = Inr ''p_t''
   \<and> build pgQueryUtils (setGroupByColumn ''c'' ex_prefixed)
       = Inr (''SELECT  FROM '' @ dq # ''t'' @ dq # '' GROUP BY '' @ dq # ''t'' @ dq # ''.''
              @ dq # ''c'' @ [dq], [])
   \<and> \<not> ends_with ('' GROUP BY '' @ quoteTableAndColumn pgQueryUtils ''p_t'' ''c'')
         (''SELECT  FROM '' @ dq # ''t'' @ dq # '' GROUP BY '' @ dq # ''t'' @ dq # ''.''
              @ dq # ''c'' @ [dq])"
  by (simp add: qb_defs ends_with_def dq_def)

text \<open>
  C8, amended. After \<open>setGroupByColumn name\<close> with a non-empty name: when a non-empty
  from-table is set and the fields and the predicate render, \<open>build\<close> returns the other
  clauses followed by a GROUP BY clause that quotes the from-table as it was set (the table
  prefix is not applied) and the column; when no from-table is set, \<open>build\<close> fails, and with
  \<open>No table initialized\<close> when the fields and the predicate render.
\<close>

theorem setGroupByColumn_render:
  assumes "name \<noteq> []"
  shows "(truthy_string (mainTableName this) \<longrightarrow>
           (\<forall>fs w. call_all (fieldQueries this) = Inr fs \<and> where_string this = Inr w \<longrightarrow>
              build U (setGroupByColumn name this)
                = Inr (select_clause fs @ from_clause U this @ joins_clause this @ where_clause w
                        @ '' GROUP BY ''
                        @ quoteTableAndColumn U (string_of (mainTableName this)) name,
                       buildQueryValues this)))
       \<and> (\<not> truthy_string (mainTableName this) \<longrightarrow>
           (\<exists>e. build U (setGroupByColumn name this) = Inl e)
           \<and> (\<forall>fs w. call_all (fieldQueries this) = Inr fs \<and> where_string this = Inr w \<longrightarrow>
                build U (setGroupByColumn name this) = Inl NoTableInitialized))"
  using assms
  by (cases "mainTableName this")
     (auto simp: setGroupByColumn_def build_def buildQueryString_def where_string_def
        select_clause_def from_clause_def joins_clause_def where_clause_def buildQueryValues_def
        Let_def split: sum.splits option.splits)

theorem setGroupByColumn_render_witness:
  "''c'' \<noteq> []
   \<and> truthy_string (mainTableName ex_prefixed)
   \<and> call_all (fieldQueries ex_prefixed) = Inr []
   \<and> where_string ex_prefixed = Inr None
   \<and> build pgQueryUtils (setGroupByColumn ''c'' ex_prefixed)
       = Inr (select_clause [] @ from_clause pgQueryUtils ex_prefixed @ joins_clause ex_prefixed
               @ where_clause None @ '' GROUP BY ''
               @ quoteTableAndColumn pgQueryUtils (string_of (mainTableName ex_prefixed)) ''c'',
              buildQueryValues ex_prefixed)
   \<and> \<not> truthy_string (mainTableName (newPgSelectQueryBuilder :: int PgSelectQueryBuilder))
   \<and> call_all (fieldQueries (newPgSelectQueryBuilder :: int PgSelectQueryBuilder)) = Inr []
   \<and> where_string (newPgSelectQueryBuilder :: int PgSelectQueryBuilder) = Inr None
   \<and> build pgQueryUtils (setGroupByColumn ''c'' (newPgSelectQueryBuilder :: int PgSelectQueryBuilder))
       = Inl NoTableInitialized"
proof -
  have c: "''c'' \<noteq> []" by simp
  have 1: "truthy_string (mainTableName ex_prefixed)"
    "call_all (fieldQueries ex_prefixed) = Inr []" "where_string ex_prefixed = Inr None"
    by (simp_all add: ex_prefixed_def setFromTable_def setTablePrefix_def
          newPgSelectQueryBuilder_def where_string_def)
  have 2: "\<not> truthy_string (mainTableName (newPgSelectQueryBuilder :: int PgSelectQueryBuilder))"
    "call_all (fieldQueries (newPgSelectQueryBuilder :: int PgSelectQueryBuilder)) = Inr []"
    "where_string (newPgSelectQueryBuilder :: int PgSelectQueryBuilder) = Inr None"
    by (simp_all add: newPgSelectQueryBuilder_def where_string_def)
  from setGroupByColumn_render [OF c, of ex_prefixed pgQueryUtils] 1
  have 3: "build pgQueryUtils (setGroupByColumn ''c'' ex_prefixed)
       = Inr (select_clause [] @ from_clause pgQueryUtils ex_prefixed @ joins_clause ex_prefixed
               @ where_clause None @ '' GROUP BY ''
               @ quoteTableAndColumn pgQueryUtils (string_of (mainTableName ex_prefixed)) ''c'',
              buildQueryValues ex_prefixed)"
    by blast
  from setGroupByColumn_render [OF c, of newPgSelectQueryBuilder pgQueryUtils] 2
  have 4: "build pgQueryUtils (setGroupByColumn ''c'' (newPgSelectQueryBuilder :: int PgSelectQueryBuilder))
       = Inl NoTableInitialized"
    by blast
  from c 1 2 3 4 show ?thesis by blast
qed

section \<open>Properties of the persister\<close>

lemma get_set_prop: "get_prop (set_prop e p v) q = (if q = p then v else get_prop e q)"
  by (simp add: get_prop_def set_prop_def update_conv')

lemma has_set_prop: "has (set_prop e p v) q = (q = p \<or> has e q)"
  by (simp add: has_def set_prop_def update_conv')

lemma strict_eq_sym: "strict_eq a b = strict_eq b a"
  by (cases a; cases b) auto

lemma strict_eq_eq: "strict_eq a b \<Longrightarrow> a = b"
  by (cases a; cases b) auto

lemma array_includes_simps:
  "array_includes [] v = False"
  "array_includes (x # xs) v = (strict_eq x v \<or> array_includes xs v)"
  "array_includes (xs @ ys) v = (array_includes xs v \<or> array_includes ys v)"
  by (auto simp: array_includes_def list_ex_iff)

lemma array_includes_iff: "array_includes xs v \<longleftrightarrow> (\<exists>x\<in>set xs. strict_eq x v)"
  by (simp add: array_includes_def list_ex_iff)

lemma distinct_ids_snoc:
  "distinct_ids (xs @ [i]) \<longleftrightarrow> distinct_ids xs \<and> \<not> array_includes xs i"
  by (induction xs) (auto simp: array_includes_simps strict_eq_sym)

lemma distinct_ids_filter: "distinct_ids (map f xs) \<Longrightarrow> distinct_ids (map f (filter P xs))"
  by (induction xs) (auto simp: array_includes_iff)

lemma digit_char_inj: "a < 10 \<Longrightarrow> b < 10 \<Longrightarrow> digit_char a = digit_char b \<Longrightarrow> a = b"
  apply (simp add: digit_char_def char_of_eq_iff)
  apply (simp add: take_bit_eq_mod)
  done

lemma string_of_nat_nonempty: "string_of_nat n \<noteq> []"
  by (subst string_of_nat.simps) simp

lemma string_of_nat_inj: "string_of_nat n = string_of_nat m \<Longrightarrow> n = m"
proof (induction n arbitrary: m rule: string_of_nat.induct)
  case (1 n)
  show ?case
  proof (cases "n < 10")
    case True
    show ?thesis
    proof (cases "m < 10")
      case m: True
      from "1.prems" True m have "digit_char n = digit_char m"
        by (simp add: string_of_nat.simps [of n] string_of_nat.simps [of m])
      with True m show ?thesis by (auto dest: digit_char_inj)
    next
      case m: False
      from "1.prems" True m string_of_nat_nonempty [of "m div 10"] show ?thesis
        by (simp add: string_of_nat.simps [of n] string_of_nat.simps [of m] Cons_eq_append_conv)
    qed
  next
    case False
    show ?thesis
    proof (cases "m < 10")
      case m: True
      from "1.prems" False m string_of_nat_nonempty [of "n div 10"] show ?thesis
        by (simp add: string_of_nat.simps [of n] string_of_nat.simps [of m] append_eq_Cons_conv)
    next
      case m: False
      from "1.prems" False m
      have e: "string_of_nat (n div 10) = string_of_nat (m div 10)"
        and d: "digit_char (n mod 10) = digit_char (m mod 10)"
        by (simp_all add: string_of_nat.simps [of n] string_of_nat.simps [of m])
      from "1.IH" [OF False e] have "n div 10 = m div 10" .
      moreover from d have "n mod 10 = m mod 10"
        using digit_char_inj [of "n mod 10" "m mod 10"] by simp
      ultimately show ?thesis
        by (metis div_mult_mod_eq)
    qed
  qed
qed

lemma format_id_inj: "format_id t n = format_id t' m \<Longrightarrow> n = m \<and> t = t'"
  by (cases t; cases t') (auto simp: format_id_def dest: string_of_nat_inj)

lemma format_id_truthy: "truthy (format_id t (Suc n))"
  by (cases t) (auto simp: format_id_def string_of_nat_nonempty)

lemma increment_cases: "increment n = Suc n \<or> (increment n = n \<and> 2 ^ 53 \<le> n)"
  by (simp add: increment_def)

lemma increment_below: "n < 2 ^ 53 \<Longrightarrow> increment n = Suc n"
  by (simp add: increment_def)

lemma increment_ge: "n \<le> increment n"
  by (simp add: increment_def)

lemma increment_pos: "0 < increment n"
  by (simp add: increment_def)

lemma format_id_increment_truthy: "truthy (format_id t (increment n))"
proof -
  obtain k where "increment n = Suc k"
    using increment_pos [of n] by (cases "increment n") simp_all
  then show ?thesis by (simp add: format_id_truthy)
qed

lemma clone_eq:
  "clone a g = (b, g') \<longleftrightarrow>
     b = next_addr g \<and> g' = g\<lparr>heap := (heap g)(next_addr g := heap g a), next_addr := Suc (next_addr g)\<rparr>"
  by (auto simp: clone_def)

lemma clone_list_props:
  "clone_list as g = (bs, g') \<Longrightarrow>
     bs = [next_addr g ..< next_addr g + length as]
     \<and> next_addr g' = next_addr g + length as
     \<and> ID_SEQUENCER g' = ID_SEQUENCER g
     \<and> (\<forall>x < next_addr g. heap g' x = heap g x)
     \<and> ((\<forall>a \<in> set as. a < next_addr g) \<longrightarrow> map (heap g') bs = map (heap g) as)"
proof (induction as arbitrary: g bs g')
  case Nil
  then show ?case by simp
next
  case (Cons a as)
  obtain b g1 where c: "clone a g = (b, g1)" by (cases "clone a g")
  obtain cs g2 where r: "clone_list as g1 = (cs, g2)" by (cases "clone_list as g1")
  from Cons.prems c r have bs: "bs = b # cs" and g': "g' = g2" by simp_all
  from c have b: "b = next_addr g" and n1: "next_addr g1 = Suc (next_addr g)"
    and h1: "heap g1 = (heap g)(next_addr g := heap g a)" and s1: "ID_SEQUENCER g1 = ID_SEQUENCER g"
    by (auto simp: clone_eq)
  from Cons.IH [OF r]
  have cs: "cs = [next_addr g1 ..< next_addr g1 + length as]"
    and n2: "next_addr g2 = next_addr g1 + length as"
    and s2: "ID_SEQUENCER g2 = ID_SEQUENCER g1"
    and h2: "\<forall>x < next_addr g1. heap g2 x = heap g1 x"
    and m2: "(\<forall>a \<in> set as. a < next_addr g1) \<longrightarrow> map (heap g2) cs = map (heap g1) as"
    by blast+
  have 1: "bs = [next_addr g ..< next_addr g + length (a # as)]"
    using cs bs b n1 by (simp add: upt_rec)
  have 2: "\<forall>x < next_addr g. heap g' x = heap g x"
    using h2 g' n1 h1 by auto
  have 3: "(\<forall>a \<in> set (a # as). a < next_addr g) \<longrightarrow> map (heap g') bs = map (heap g) (a # as)"
  proof
    assume al: "\<forall>a \<in> set (a # as). a < next_addr g"
    then have "\<forall>a \<in> set as. a < next_addr g1" using n1 by auto
    with m2 have m: "map (heap g2) cs = map (heap g1) as" by blast
    have "map (heap g1) as = map (heap g) as" using al h1 by auto
    moreover have "heap g2 b = heap g a" using h2 b n1 h1 by simp
    ultimately show "map (heap g') bs = map (heap g) (a # as)" using m bs g' by simp
  qed
  from 1 2 3 n2 s2 g' n1 s1 show ?case by simp
qed

lemma prepareItemList_clone_list:
  "prepareItemList its m g = clone_list (map item_value its) g"
  by (induction its arbitrary: g) (simp_all add: prepareItem_def split: prod.splits)

lemma table_items_ensure_table [simp]:
  "table_items (ensure_table tn this) t = table_items this t"
  by (auto simp: ensure_table_def assign_table_def table_items_def has_table_def
        createMemoryTable_def)

lemma current_items_ensure_table [simp]:
  "current_items (ensure_table tn this) tn = table_items this tn"
  by (auto simp: ensure_table_def assign_table_def current_items_def read_table_def
        table_items_def has_table_def createMemoryTable_def split: option.splits)

lemma has_table_ensure_table [simp]:
  "has_table (ensure_table tn this) t = (has_table this t \<or> (t = tn \<and> tn \<noteq> ''__proto__''))"
  by (auto simp: ensure_table_def assign_table_def has_table_def)

lemma table_items_set_items [simp]:
  "table_items (set_items tn its this) t = (if t = tn then its else table_items this t)"
  by (simp add: set_items_def table_items_def)

lemma table_items_write_items [simp]:
  "table_items (write_items tn its this) t =
     (if t = tn \<and> has_table this tn then its else table_items this t)"
  by (auto simp: write_items_def table_items_def has_table_def split: option.splits)

lemma has_table_write_items [simp]: "has_table (write_items tn its this) t = has_table this t"
  by (auto simp: write_items_def has_table_def split: option.splits)

lemma current_items_write_items:
  "read_table this tn \<noteq> None \<Longrightarrow> current_items (write_items tn its this) tn = its"
  by (auto simp: write_items_def current_items_def read_table_def
        split: option.splits if_splits)

lemma read_table_ensure_table: "read_table (ensure_table tn this) tn \<noteq> None"
  by (auto simp: ensure_table_def assign_table_def read_table_def has_table_def
        split: option.splits)

lemma idType_ensure_table [simp]: "idType (ensure_table tn this) = idType this"
  by (simp add: ensure_table_def assign_table_def)

lemma metadataManager_ensure_table [simp]:
  "metadataManager (ensure_table tn this) = metadataManager this"
  by (simp add: ensure_table_def assign_table_def)

lemma idType_set_items [simp]: "idType (set_items tn its this) = idType this"
  by (simp add: set_items_def)

lemma metadataManager_set_items [simp]:
  "metadataManager (set_items tn its this) = metadataManager this"
  by (simp add: set_items_def)

lemma idType_write_items [simp]: "idType (write_items tn its this) = idType this"
  by (simp add: write_items_def split: option.splits)

lemma metadataManager_write_items [simp]:
  "metadataManager (write_items tn its this) = metadataManager this"
  by (simp add: write_items_def split: option.splits)

text \<open>
  C10. \<open>insert\<close> with an empty list raises \<open>Could not add items\<close>. The store and the
  sequence counter are as before, and so are the items of every table (a table that did
  not exist has been created, empty, by the first lines of \<open>insert\<close>: it has no items
  before and after), the id type and the registered metadata.
\<close>

theorem insert_empty_rejected:
  "fst (insert EU (Many []) metadata this g) = Inl CouldNotAddItems
   \<and> snd (snd (insert EU (Many []) metadata this g)) = g
   \<and> (\<forall>t. table_items (fst (snd (insert EU (Many []) metadata this g))) t = table_items this t)
   \<and> idType (fst (snd (insert EU (Many []) metadata this g))) = idType this
   \<and> metadataManager (fst (snd (insert EU (Many []) metadata this g))) = metadataManager this"
  by (simp add: insert_def Let_def)

lemma assign_id_props:
  "next_addr (assign_id t idp a g) = next_addr g"
  "x \<noteq> a \<Longrightarrow> heap (assign_id t idp a g) x = heap g x"
  "ID_SEQUENCER (assign_id t idp a g) =
     (if has_id (heap g a) idp then ID_SEQUENCER g else increment (ID_SEQUENCER g))"
  "heap (assign_id t idp a g) a =
     (if has_id (heap g a) idp then heap g a
      else set_prop (heap g a) idp (format_id t (increment (ID_SEQUENCER g))))"
  by (simp_all add: assign_id_def Let_def)

lemma assign_id_id:
  "get_prop (heap (assign_id t idp a g) a) idp =
     (if has_id (heap g a) idp then get_prop (heap g a) idp
      else format_id t (increment (ID_SEQUENCER g)))"
  by (simp add: assign_id_props get_set_prop)

lemma assign_id_truthy: "truthy (get_prop (heap (assign_id t idp a g) a) idp)"
  by (simp add: assign_id_id format_id_increment_truthy) (simp add: has_id_def)

lemma newItems_Cons:
  "newItems t idp (a # as) allIds g =
     (let g1 = assign_id t idp a g; i = get_prop (heap g1 a) idp
      in if array_includes allIds i then (Inl (EntityAlreadyStored i), g1)
         else (case newItems t idp as (allIds @ [i]) g1 of
                 (Inl e, g2) \<Rightarrow> (Inl e, g2)
               | (Inr its, g2) \<Rightarrow> (Inr (createMemoryItem i a # its), g2)))"
  by (simp add: Let_def assign_id_truthy)

declare newItems.simps(2) [simp del]

lemma newItems_frame:
  "newItems t idp as allIds g = (r, g') \<Longrightarrow>
     next_addr g' = next_addr g \<and> (\<forall>x. x \<notin> set as \<longrightarrow> heap g' x = heap g x)
     \<and> ID_SEQUENCER g \<le> ID_SEQUENCER g'"
proof (induction as arbitrary: allIds g r g')
  case Nil
  then show ?case by simp
next
  case (Cons a as)
  let ?g1 = "assign_id t idp a g"
  let ?i = "get_prop (heap ?g1 a) idp"
  show ?case
  proof (cases "array_includes allIds ?i")
    case True
    with Cons.prems have "g' = ?g1"
      by (simp add: newItems_Cons Let_def)
    then show ?thesis by (simp add: assign_id_props increment_ge)
  next
    case False
    obtain r2 g2 where rec: "newItems t idp as (allIds @ [?i]) ?g1 = (r2, g2)"
      by (cases "newItems t idp as (allIds @ [?i]) ?g1")
    with Cons.prems False have "g' = g2"
      by (cases r2) (simp_all add: newItems_Cons Let_def)
    with Cons.IH [OF rec] increment_ge [of "ID_SEQUENCER g"] show ?thesis
      by (auto simp: assign_id_props split: if_splits)
  qed
qed

lemma newItems_Inr:
  "newItems t idp as allIds g = (Inr its, g') \<Longrightarrow>
     map item_value its = as
     \<and> (distinct_ids allIds \<longrightarrow> distinct_ids (allIds @ map item_id its))"
proof (induction as arbitrary: allIds g its g')
  case Nil
  then show ?case by simp
next
  case (Cons a as)
  let ?g1 = "assign_id t idp a g"
  let ?i = "get_prop (heap ?g1 a) idp"
  from Cons.prems have ok: "\<not> array_includes allIds ?i"
    by (auto simp: newItems_Cons Let_def split: if_splits)
  obtain r2 g2 where rec: "newItems t idp as (allIds @ [?i]) ?g1 = (r2, g2)"
    by (cases "newItems t idp as (allIds @ [?i]) ?g1")
  with Cons.prems ok obtain its2 where r2: "r2 = Inr its2"
    and its: "its = createMemoryItem ?i a # its2"
    by (cases r2) (auto simp: newItems_Cons Let_def)
  from Cons.IH [OF rec [unfolded r2]] ok its show ?case
    by (simp add: createMemoryItem_def distinct_ids_snoc)
qed

lemma newItems_dup:
  "distinct as \<Longrightarrow>
   has_duplicate allIds (assigned_ids t idp (ID_SEQUENCER g) (map (heap g) as)) \<Longrightarrow>
   \<exists>i g'. newItems t idp as allIds g = (Inl (EntityAlreadyStored i), g')"
proof (induction as arbitrary: allIds g)
  case Nil
  then show ?case by simp
next
  case (Cons a as)
  let ?g1 = "assign_id t idp a g"
  let ?i = "get_prop (heap ?g1 a) idp"
  from Cons.prems(1) have "\<forall>x \<in> set as. x \<noteq> a" by auto
  then have rest: "map (heap ?g1) as = map (heap g) as"
    by (simp add: assign_id_props(2))
  show ?case
  proof (cases "array_includes allIds ?i")
    case True
    then show ?thesis
      by (simp add: newItems_Cons Let_def)
  next
    case False
    have "array_includes allIds ?i
          \<or> has_duplicate (allIds @ [?i]) (assigned_ids t idp (ID_SEQUENCER ?g1) (map (heap g) as))"
      using Cons.prems(2) by (simp add: assign_id_id assign_id_props(3) split: if_splits)
    with False
    have "has_duplicate (allIds @ [?i]) (assigned_ids t idp (ID_SEQUENCER ?g1) (map (heap g) as))"
      by blast
    then
    have hd: "has_duplicate (allIds @ [?i]) (assigned_ids t idp (ID_SEQUENCER ?g1) (map (heap ?g1) as))"
      by (simp only: rest)
    from Cons.prems(1) have d: "distinct as" by simp
    from Cons.IH [OF d hd]
    obtain j g2 where "newItems t idp as (allIds @ [?i]) ?g1 = (Inl (EntityAlreadyStored j), g2)"
      by blast
    with False show ?thesis
      by (simp add: newItems_Cons Let_def)
  qed
qed

text \<open>
  C1. The entities of the batch are allocated objects. When some id of the batch, the one
  an entity brings or the counter value it would be assigned, equals an id stored in the
  table or the id of an earlier entity of the batch, \<open>insert\<close> raises
  \<open>Entity already stored\<close>, the items of every table are as before, and every object that
  existed before the call is unchanged.
\<close>

theorem insert_duplicate_rejected:
  assumes alloc: "\<forall>a \<in> set (as_list entity). a < next_addr g"
      and dup: "has_duplicate (map item_id (table_items this (tableName metadata)))
                  (assigned_ids (idType this) (idPropertyName metadata) (ID_SEQUENCER g)
                     (map (heap g) (as_list entity)))"
  shows "\<exists>i this' g'. insert EU entity metadata this g = (Inl (EntityAlreadyStored i), this', g')
           \<and> (\<forall>t. table_items this' t = table_items this t)
           \<and> (\<forall>x < next_addr g. heap g' x = heap g x)"
proof -
  obtain list g1 where cl: "clone_list (as_list entity) g = (list, g1)"
    by (cases "clone_list (as_list entity) g")
  from clone_list_props [OF cl] alloc
  have list: "list = [next_addr g ..< next_addr g + length (as_list entity)]"
    and s1: "ID_SEQUENCER g1 = ID_SEQUENCER g"
    and h1: "\<forall>x < next_addr g. heap g1 x = heap g x"
    and m1: "map (heap g1) list = map (heap g) (as_list entity)"
    by blast+
  have d: "distinct list" by (simp add: list)
  from dup s1 m1
  have "has_duplicate (map item_id (table_items (ensure_table (tableName metadata) this) (tableName metadata)))
          (assigned_ids (idType (ensure_table (tableName metadata) this)) (idPropertyName metadata)
             (ID_SEQUENCER g1) (map (heap g1) list))"
    by simp
  from newItems_dup [OF d this]
  obtain i g2 where n: "newItems (idType (ensure_table (tableName metadata) this))
        (idPropertyName metadata) list
        (map item_id (table_items (ensure_table (tableName metadata) this) (tableName metadata))) g1
      = (Inl (EntityAlreadyStored i), g2)"
    by blast
  from newItems_frame [OF n] have "\<forall>x. x \<notin> set list \<longrightarrow> heap g2 x = heap g1 x" by blast
  with h1 list have h2: "\<forall>x < next_addr g. heap g2 x = heap g x" by auto
  from cl n have "insert EU entity metadata this g
      = (Inl (EntityAlreadyStored i), ensure_table (tableName metadata) this, g2)"
    by (simp add: insert_def Let_def)
  with h2 show ?thesis by simp
qed

lemma proto_items_ensure_table:
  "proto_items (ensure_table tn this) =
     (if tn = ''__proto__'' \<and> \<not> has_table this tn then [] else proto_items this)"
  by (auto simp: proto_items_def ensure_table_def assign_table_def has_table_def
        createMemoryTable_def split: option.splits)

lemma proto_items_set_items [simp]: "proto_items (set_items tn its this) = proto_items this"
  by (simp add: proto_items_def set_items_def)

lemma proto_items_write_items:
  "proto_items (write_items tn its this) = its
   \<or> proto_items (write_items tn its this) = proto_items this"
  by (auto simp: proto_items_def write_items_def split: option.splits)

lemma ids_distinct_new: "ids_distinct (newMemoryPersister t)"
  by (simp add: ids_distinct_def newMemoryPersister_def table_items_def proto_items_def)

lemma ids_distinct_ensure_table: "ids_distinct this \<Longrightarrow> ids_distinct (ensure_table tn this)"
  by (simp add: ids_distinct_def proto_items_ensure_table)

lemma ids_distinct_set_items:
  "ids_distinct this \<Longrightarrow> distinct_ids (map item_id its) \<Longrightarrow> ids_distinct (set_items tn its this)"
  by (simp add: ids_distinct_def)

lemma ids_distinct_write_items:
  "ids_distinct this \<Longrightarrow> distinct_ids (map item_id its) \<Longrightarrow> ids_distinct (write_items tn its this)"
  using proto_items_write_items [of tn its this] by (auto simp: ids_distinct_def)

lemma insert_ids_distinct:
  assumes "ids_distinct this"
  shows "ids_distinct (fst (snd (insert EU entity metadata this g)))"
proof -
  let ?tn = "tableName metadata"
  let ?this1 = "ensure_table ?tn this"
  obtain list g1 where cl: "clone_list (as_list entity) g = (list, g1)"
    by (cases "clone_list (as_list entity) g")
  obtain r g2 where n: "newItems (idType ?this1) (idPropertyName metadata) list
        (map item_id (current_items ?this1 ?tn)) g1 = (r, g2)"
    by (cases "newItems (idType ?this1) (idPropertyName metadata) list
        (map item_id (current_items ?this1 ?tn)) g1")
  show ?thesis
  proof (cases r)
    case (Inl e)
    with cl n assms show ?thesis
      by (simp add: insert_def Let_def ids_distinct_ensure_table)
  next
    case (Inr its)
    from assms have "distinct_ids (map item_id (current_items ?this1 ?tn))"
      by (simp add: ids_distinct_def)
    with newItems_Inr [OF n [unfolded Inr]]
    have "distinct_ids (map item_id (current_items ?this1 ?tn @ its))" by simp
    with assms have "ids_distinct (write_items ?tn (current_items ?this1 ?tn @ its) ?this1)"
      by (simp only: ids_distinct_write_items ids_distinct_ensure_table)
    with cl n Inr show ?thesis
      by (simp add: insert_def Let_def split: option.splits prod.splits)
  qed
qed

lemma map_item_id_set_first_value:
  "map item_id (set_first_value P a xs) = map item_id xs"
  by (induction xs) simp_all

lemma find_id_None:
  "find (\<lambda>item. strict_eq (item_id item) i) xs = None \<longleftrightarrow> \<not> array_includes (map item_id xs) i"
  by (auto simp: find_None_iff array_includes_iff)

lemma update_ids_distinct:
  assumes "ids_distinct this"
  shows "ids_distinct (fst (snd (update EU entity metadata this g)))"
proof -
  let ?tn = "tableName metadata"
  let ?this1 = "ensure_table ?tn this"
  from assms have d: "distinct_ids (map item_id (table_items this ?tn))"
    by (simp add: ids_distinct_def)
  show ?thesis
    using assms d
    by (auto simp: update_def Let_def clone_def ids_distinct_ensure_table
          ids_distinct_write_items map_item_id_set_first_value distinct_ids_snoc find_id_None
          createMemoryItem_def
          split: option.splits prod.splits)
qed

lemma deleteAll_ids_distinct: "ids_distinct this \<Longrightarrow> ids_distinct (deleteAll metadata this)"
  by (auto simp: deleteAll_def ids_distinct_def table_items_def proto_items_def)

lemma deleteAllById_ids_distinct:
  "ids_distinct this \<Longrightarrow> ids_distinct (deleteAllById ids metadata this)"
  by (auto simp: deleteAllById_def ids_distinct_def distinct_ids_filter)

lemma deleteAllByProperty_ids_distinct:
  "ids_distinct this \<Longrightarrow> ids_distinct (deleteAllByProperty p v metadata this g)"
  by (auto simp: deleteAllByProperty_def ids_distinct_def distinct_ids_filter)

lemma setupEntityMetadata_ids_distinct:
  "ids_distinct (setupEntityMetadata m this) = ids_distinct this"
  by (simp add: ids_distinct_def setupEntityMetadata_def table_items_def proto_items_def)

lemma run_ids_distinct: "ids_distinct (fst s) \<Longrightarrow> ids_distinct (fst (run EU op s))"
proof (cases s)
  case (Pair this g)
  assume "ids_distinct (fst s)"
  with Pair have i: "ids_distinct this" by simp
  show ?thesis
    unfolding Pair
    by (cases op)
       (simp_all add: i deleteAll_ids_distinct deleteAllById_ids_distinct deleteById_def
          deleteAllByProperty_ids_distinct setupEntityMetadata_ids_distinct
          insert_ids_distinct update_ids_distinct)
qed

lemma runs_ids_distinct:
  "ids_distinct (fst s) \<Longrightarrow> ids_distinct (fst (foldl (\<lambda>s op. run EU op s) s ops))"
  by (induction ops arbitrary: s) (simp_all add: run_ids_distinct)

lemma preserves_refl: "preserves g g"
  by (simp add: preserves_def)

lemma preserves_trans: "preserves g g1 \<Longrightarrow> preserves g1 g2 \<Longrightarrow> preserves g g2"
  by (auto simp: preserves_def)

lemma frame_refl: "frame e N g g"
  by (simp add: frame_def)

lemma frame_trans: "frame e N g g1 \<Longrightarrow> frame e M g1 g2 \<Longrightarrow> frame e (N \<union> M) g g2"
  by (auto simp: frame_def)

lemma frame_mono: "frame e N g g' \<Longrightarrow> N \<subseteq> M \<Longrightarrow> frame e M g g'"
  by (auto simp: frame_def)

lemma preserves_frame: "preserves g g' \<Longrightarrow> e < next_addr g \<Longrightarrow> frame e N g g'"
  by (auto simp: preserves_def frame_def)

lemma frame_fresh_preserves: "frame e N g g' \<Longrightarrow> next_addr g0 \<le> e \<Longrightarrow> preserves g0 g
    \<Longrightarrow> preserves g0 g'"
  by (auto simp: preserves_def frame_def)

lemma clone_preserves: "clone a g = (b, g') \<Longrightarrow> preserves g g'"
  by (auto simp: clone_eq preserves_def)

lemma clone_list_preserves: "clone_list as g = (bs, g') \<Longrightarrow> preserves g g'"
  using clone_list_props [of as g bs g'] by (simp add: preserves_def)

lemma prepareItemList_preserves: "prepareItemList its m g = (bs, g') \<Longrightarrow> preserves g g'"
  by (simp add: prepareItemList_clone_list clone_list_preserves)

lemma set_prop_frame:
  "e < next_addr g \<Longrightarrow>
     frame e {p} g (g\<lparr>heap := (heap g)(e := set_prop (heap g e) p v)\<rparr>)"
  by (simp add: frame_def get_set_prop)

lemma forEach_frame:
  assumes step: "\<And>x g res g'. x \<in> set xs \<Longrightarrow> e < next_addr g \<Longrightarrow> f x g = (res, g')
                  \<Longrightarrow> frame e (N x) g g'"
      and e: "e < next_addr g"
      and run: "forEach f xs g = (res, g')"
  shows "frame e (\<Union>x \<in> set xs. N x) g g'"
  using step e run
proof (induction xs arbitrary: g)
  case Nil
  then show ?case by (simp add: frame_refl)
next
  case (Cons x xs)
  obtain r1 g1 where f: "f x g = (r1, g1)" by (cases "f x g")
  from Cons.prems(1) [OF _ Cons.prems(2) f] have fr: "frame e (N x) g g1" by simp
  show ?case
  proof (cases r1)
    case (Inl err)
    with Cons.prems(3) f have "g' = g1" by simp
    with fr show ?thesis by (auto elim: frame_mono)
  next
    case (Inr u)
    with Cons.prems(3) f have r: "forEach f xs g1 = (res, g')" by simp
    from fr Cons.prems(2) have e1: "e < next_addr g1" by (simp add: frame_def)
    have "frame e (\<Union>x \<in> set xs. N x) g1 g'"
      by (rule Cons.IH [OF _ e1 r]) (rule Cons.prems(1), simp_all)
    from frame_trans [OF fr this] show ?thesis by simp
  qed
qed

lemma oneToMany_step_frame:
  assumes e: "e < next_addr g"
      and s: "oneToMany_step EU this m e eid r g = (res, g')"
  shows "frame e {otm_propertyName r} g g'"
proof -
  have skip: "g' = g \<Longrightarrow> ?thesis" by (simp add: frame_refl)
  show ?thesis
  proof (cases "g' = g")
    case True
    then show ?thesis by (rule skip)
  next
    case False
    with s obtain mm jc jp as g1 where
      p: "prepareItemList (filterItems this (linked g (mappedBy r) jp eid) (otm_mappedTable r)) mm g
            = (as, g1)"
      and g': "g' = g1\<lparr>heap := (heap g1)(e := set_prop (heap g1 e) (otm_propertyName r)
                         (VArr (map (\<lambda>a. VObj (heap g1 a)) as)))\<rparr>"
      by (auto simp: oneToMany_step_def Let_def split: if_splits option.splits sum.splits prod.splits)
    from prepareItemList_preserves [OF p] e have f1: "frame e {} g g1"
      by (rule preserves_frame)
    from f1 e have e1: "e < next_addr g1" by (simp add: frame_def)
    from frame_trans [OF f1 set_prop_frame [OF e1]] g' show ?thesis by simp
  qed
qed

lemma own_prop_eq [simp]: "own_prop e p = get_prop e p"
  by (simp add: own_prop_def has_def get_prop_def)

lemma own_prop_val_eq [simp]: "own_prop_val v p = get_val v p"
  by (cases v) (simp_all add: own_prop_val_def has_def get_prop_def)

lemma populateOneToManyRelations_eq:
  "populateOneToManyRelations EU this a m g =
     (case forEach (oneToMany_step EU this m (next_addr g) (get_prop (heap g a) (idPropertyName m)))
             (oneToManyRelations m) (snd (clone a g)) of
        (Inl err, g2) \<Rightarrow> (Inl err, g2)
      | (Inr u, g2) \<Rightarrow> (Inr (next_addr g), g2))"
  by (cases "oneToManyRelations m = []")
     (simp_all add: populateOneToManyRelations_def Let_def clone_def del: forEach.simps,
      simp add: clone_def)

lemma populateOneToManyRelations_props:
  assumes "populateOneToManyRelations EU this a m g = (res, g')"
  shows "preserves g g' \<and> next_addr g < next_addr g'
         \<and> (\<forall>b. res = Inr b \<longrightarrow> b = next_addr g
               \<and> (\<forall>q. q \<notin> otm_propertyName ` set (oneToManyRelations m)
                      \<longrightarrow> get_prop (heap g' b) q = get_prop (heap g a) q))"
proof -
  let ?e = "next_addr g"
  let ?g1 = "snd (clone a g)"
  let ?eid = "get_prop (heap g a) (idPropertyName m)"
  have c: "clone a g = (?e, ?g1)" by (simp add: clone_def)
  have p1: "preserves g ?g1" by (rule clone_preserves [OF c])
  have e1: "?e < next_addr ?g1" by (simp add: clone_def)
  have h1: "heap ?g1 ?e = heap g a" by (simp add: clone_def)
  obtain r2 g2 where fe: "forEach (oneToMany_step EU this m ?e ?eid) (oneToManyRelations m) ?g1
      = (r2, g2)"
    by (cases "forEach (oneToMany_step EU this m ?e ?eid) (oneToManyRelations m) ?g1")
  have fr: "frame ?e (\<Union>r \<in> set (oneToManyRelations m). {otm_propertyName r}) ?g1 g2"
    by (rule forEach_frame [OF _ e1 fe]) (rule oneToMany_step_frame)
  from assms fe have g': "g' = g2" and res: "\<And>b. res = Inr b \<Longrightarrow> b = ?e"
    by (cases r2; simp add: populateOneToManyRelations_eq)+
  from frame_fresh_preserves [OF fr _ p1] have pg: "preserves g g2" by simp
  from fr e1 have "next_addr g < next_addr g2" by (simp add: frame_def clone_def)
  moreover from fr h1
  have "\<forall>q. q \<notin> otm_propertyName ` set (oneToManyRelations m)
          \<longrightarrow> get_prop (heap g2 ?e) q = get_prop (heap g a) q"
    by (auto simp: frame_def)
  ultimately show ?thesis using pg g' res by blast
qed

lemma oneToMany_step_eq:
  "oneToMany_step EU this m e eid r g =
     (case otm_resolve EU this m r of
        Inl err \<Rightarrow> (Inl err, g)
      | Inr None \<Rightarrow> (Inr (), g)
      | Inr (Some (mm, jp)) \<Rightarrow>
          (case prepareItemList (filterItems this (linked g (mappedBy r) jp eid) (otm_mappedTable r))
                  mm g of
             (as, g1) \<Rightarrow>
               (Inr (), g1\<lparr>heap := (heap g1)(e := set_prop (heap g1 e) (otm_propertyName r)
                                  (VArr (map (\<lambda>a. VObj (heap g1 a)) as)))\<rparr>)))"
  by (simp add: oneToMany_step_def otm_resolve_def Let_def
        split: option.splits sum.splits prod.splits)

lemma manyToOne_step_eq:
  "manyToOne_step EU this m e r g =
     (case mto_resolve EU this m (heap g e) r of
        Inl err \<Rightarrow> (Inl err, g)
      | Inr None \<Rightarrow> (Inr (), g)
      | Inr (Some (mm, it)) \<Rightarrow>
          (case populateOneToManyRelations EU this (next_addr g) mm
                  (snd (clone (item_value it) g)) of
             (Inl err, g2) \<Rightarrow> (Inl err, g2)
           | (Inr b, g2) \<Rightarrow>
               (Inr (), g2\<lparr>heap := (heap g2)(e := set_prop (heap g2 e) (mto_propertyName r)
                                  (VObj (heap g2 b)))\<rparr>)))"
  by (simp add: manyToOne_step_def mto_resolve_def Let_def prepareItem_def clone_def
        split: option.splits sum.splits prod.splits)

lemma manyToOne_step_frame:
  assumes e: "e < next_addr g"
      and s: "manyToOne_step EU this m e r g = (res, g')"
  shows "frame e {mto_propertyName r} g g'"
proof (cases "mto_resolve EU this m (heap g e) r")
  case (Inl err)
  with s show ?thesis by (simp add: manyToOne_step_eq frame_refl)
next
  case (Inr t)
  show ?thesis
  proof (cases t)
    case None
    with s Inr show ?thesis by (simp add: manyToOne_step_eq frame_refl)
  next
    case (Some p)
    obtain mm it where p: "p = (mm, it)" by (cases p)
    obtain res2 g2 where
      o: "populateOneToManyRelations EU this (next_addr g) mm (snd (clone (item_value it) g))
            = (res2, g2)"
      by (cases "populateOneToManyRelations EU this (next_addr g) mm
                   (snd (clone (item_value it) g))")
    have "preserves g (snd (clone (item_value it) g))"
      by (rule clone_preserves [of "item_value it" g "next_addr g"]) (simp add: clone_def)
    with populateOneToManyRelations_props [OF o]
    have "preserves g g2" by (blast intro: preserves_trans)
    from this e have f: "frame e {} g g2" by (rule preserves_frame)
    with e have e2: "e < next_addr g2" by (simp add: frame_def)
    show ?thesis
    proof (cases res2)
      case (Inl err)
      with s Inr Some p o have "g' = g2" by (simp add: manyToOne_step_eq)
      with f show ?thesis by (auto elim: frame_mono)
    next
      case (Inr b)
      with s \<open>mto_resolve EU this m (heap g e) r = Inr t\<close> Some p o
      have "g' = g2\<lparr>heap := (heap g2)(e := set_prop (heap g2 e) (mto_propertyName r)
                                      (VObj (heap g2 b)))\<rparr>"
        by (simp add: manyToOne_step_eq)
      with frame_trans [OF f set_prop_frame [OF e2]] show ?thesis by simp
    qed
  qed
qed

lemma populateManyToOneRelations_eq:
  "populateManyToOneRelations EU this a m g =
     (case forEach (manyToOne_step EU this m (next_addr g)) (manyToOneRelations m)
             (snd (clone a g)) of
        (Inl err, g2) \<Rightarrow> (Inl err, g2)
      | (Inr u, g2) \<Rightarrow> (Inr (next_addr g), g2))"
  by (cases "manyToOneRelations m = []")
     (simp_all add: populateManyToOneRelations_def Let_def clone_def del: forEach.simps,
      simp add: clone_def)

lemma populateManyToOneRelations_props:
  assumes "populateManyToOneRelations EU this a m g = (res, g')"
  shows "preserves g g' \<and> next_addr g < next_addr g'
         \<and> (\<forall>b. res = Inr b \<longrightarrow> b = next_addr g
               \<and> (\<forall>q. q \<notin> mto_propertyName ` set (manyToOneRelations m)
                      \<longrightarrow> get_prop (heap g' b) q = get_prop (heap g a) q))"
proof -
  let ?e = "next_addr g"
  let ?g1 = "snd (clone a g)"
  have c: "clone a g = (?e, ?g1)" by (simp add: clone_def)
  have p1: "preserves g ?g1" by (rule clone_preserves [OF c])
  have e1: "?e < next_addr ?g1" by (simp add: clone_def)
  have h1: "heap ?g1 ?e = heap g a" by (simp add: clone_def)
  obtain r2 g2 where fe: "forEach (manyToOne_step EU this m ?e) (manyToOneRelations m) ?g1
      = (r2, g2)"
    by (cases "forEach (manyToOne_step EU this m ?e) (manyToOneRelations m) ?g1")
  have fr: "frame ?e (\<Union>r \<in> set (manyToOneRelations m). {mto_propertyName r}) ?g1 g2"
    by (rule forEach_frame [OF _ e1 fe]) (rule manyToOne_step_frame)
  from assms fe have g': "g' = g2" and res: "\<And>b. res = Inr b \<Longrightarrow> b = ?e"
    by (cases r2; simp add: populateManyToOneRelations_eq)+
  from frame_fresh_preserves [OF fr _ p1] have pg: "preserves g g2" by simp
  from fr e1 have "next_addr g < next_addr g2" by (simp add: frame_def clone_def)
  moreover from fr h1
  have "\<forall>q. q \<notin> mto_propertyName ` set (manyToOneRelations m)
          \<longrightarrow> get_prop (heap g2 ?e) q = get_prop (heap g a) q"
    by (auto simp: frame_def)
  ultimately show ?thesis using pg g' res by blast
qed

lemma populateRelations_props:
  assumes "populateRelations EU this a m g = (res, g')"
  shows "preserves g g' \<and> next_addr g < next_addr g'
         \<and> (\<forall>b. res = Inr b \<longrightarrow> next_addr g < b \<and> b < next_addr g'
               \<and> (\<forall>q. q \<notin> otm_propertyName ` set (oneToManyRelations m)
                      \<and> q \<notin> mto_propertyName ` set (manyToOneRelations m)
                      \<longrightarrow> get_prop (heap g' b) q = get_prop (heap g a) q))"
proof -
  obtain r1 g1 where o: "populateOneToManyRelations EU this a m g = (r1, g1)"
    by (cases "populateOneToManyRelations EU this a m g")
  note po = populateOneToManyRelations_props [OF o]
  show ?thesis
  proof (cases r1)
    case (Inl err)
    with assms o have "res = Inl err" "g' = g1" by (simp_all add: populateRelations_def)
    with po show ?thesis by simp
  next
    case (Inr c)
    with assms o have m: "populateManyToOneRelations EU this c m g1 = (res, g')"
      by (simp add: populateRelations_def)
    note pm = populateManyToOneRelations_props [OF m]
    from po Inr have c: "c = next_addr g" by simp
    from po pm have 1: "preserves g g'" by (blast intro: preserves_trans)
    from po pm have 2: "next_addr g < next_addr g'" by simp
    have 3: "\<forall>b. res = Inr b \<longrightarrow> next_addr g < b \<and> b < next_addr g'
               \<and> (\<forall>q. q \<notin> otm_propertyName ` set (oneToManyRelations m)
                      \<and> q \<notin> mto_propertyName ` set (manyToOneRelations m)
                      \<longrightarrow> get_prop (heap g' b) q = get_prop (heap g a) q)"
    proof (intro allI impI)
      fix b assume b: "res = Inr b"
      with pm have bn: "b = next_addr g1" by simp
      from po bn pm have "next_addr g < b" "b < next_addr g'" by simp_all
      moreover have "\<forall>q. q \<notin> otm_propertyName ` set (oneToManyRelations m)
                      \<and> q \<notin> mto_propertyName ` set (manyToOneRelations m)
                      \<longrightarrow> get_prop (heap g' b) q = get_prop (heap g a) q"
        using po pm b Inr by auto
      ultimately show "next_addr g < b \<and> b < next_addr g'
               \<and> (\<forall>q. q \<notin> otm_propertyName ` set (oneToManyRelations m)
                      \<and> q \<notin> mto_propertyName ` set (manyToOneRelations m)
                      \<longrightarrow> get_prop (heap g' b) q = get_prop (heap g a) q)"
        by blast
    qed
    from 1 2 3 show ?thesis by blast
  qed
qed

lemma deletes_filter:
  "\<exists>P. table_items (deleteAll m this) t = filter P (table_items this t)"
  "\<exists>P. table_items (deleteAllById ids m this) t = filter P (table_items this t)"
  "\<exists>P. table_items (deleteAllByProperty p v m this g) t = filter P (table_items this t)"
  "\<exists>P. table_items (deleteById i m this) t = filter P (table_items this t)"
proof -
  have triv: "\<exists>P. table_items this t = filter P (table_items this t)"
    by (rule exI [of _ "\<lambda>_. True"]) simp
  have none: "\<exists>P. [] = filter P (table_items this t)"
    by (rule exI [of _ "\<lambda>_. False"]) simp
  show "\<exists>P. table_items (deleteAll m this) t = filter P (table_items this t)"
    using triv none by (auto simp: deleteAll_def table_items_def)
  show d: "\<And>ids. \<exists>P. table_items (deleteAllById ids m this) t = filter P (table_items this t)"
    using triv by (auto simp: deleteAllById_def)
  show "\<exists>P. table_items (deleteAllByProperty p v m this g) t = filter P (table_items this t)"
    using triv by (auto simp: deleteAllByProperty_def)
  show "\<exists>P. table_items (deleteById i m this) t = filter P (table_items this t)"
    unfolding deleteById_def by (rule d)
qed

lemma insert_present_rejected:
  assumes a: "a < next_addr g"
      and h: "has_id (heap g a) (idPropertyName m)"
      and p: "array_includes (map item_id (table_items this (tableName m)))
                (get_prop (heap g a) (idPropertyName m))"
  shows "fst (insert EU (One a) m this g)
           = Inl (EntityAlreadyStored (get_prop (heap g a) (idPropertyName m)))
         \<and> (\<forall>t. table_items (fst (snd (insert EU (One a) m this g))) t = table_items this t)"
  using a h p
  by (simp add: insert_def Let_def clone_def newItems_Cons assign_id_def)

lemma update_current:
  assumes h: "idPropertyName m \<noteq> []" "has_id (heap g a) (idPropertyName m)"
  shows "current_items (fst (snd (update EU a m this g))) (tableName m) =
           (if array_includes (map item_id (table_items this (tableName m)))
                 (get_prop (heap g a) (idPropertyName m))
            then set_first_value
                   (\<lambda>item. strict_eq (item_id item) (get_prop (heap g a) (idPropertyName m)))
                   (next_addr g) (table_items this (tableName m))
            else table_items this (tableName m)
                 @ [createMemoryItem (get_prop (heap g a) (idPropertyName m)) (next_addr g)])"
proof (cases "find (\<lambda>item. strict_eq (item_id item) (get_prop (heap g a) (idPropertyName m)))
               (table_items this (tableName m))")
  case None
  then have "\<not> array_includes (map item_id (table_items this (tableName m)))
               (get_prop (heap g a) (idPropertyName m))"
    by (simp add: find_id_None)
  with h None show ?thesis
    by (simp add: update_def Let_def clone_def has_id_def current_items_write_items
          read_table_ensure_table split: prod.splits)
next
  case (Some x)
  then have "array_includes (map item_id (table_items this (tableName m)))
               (get_prop (heap g a) (idPropertyName m))"
    using find_id_None [of "get_prop (heap g a) (idPropertyName m)" "table_items this (tableName m)"]
    by simp
  with h Some show ?thesis
    by (simp add: update_def Let_def clone_def has_id_def current_items_write_items
          read_table_ensure_table split: prod.splits)
qed

lemma update_table:
  assumes h: "idPropertyName m \<noteq> []" "has_id (heap g a) (idPropertyName m)"
      and t: "tableName m \<noteq> ''__proto__''"
  shows "table_items (fst (snd (update EU a m this g))) (tableName m) =
           (if array_includes (map item_id (table_items this (tableName m)))
                 (get_prop (heap g a) (idPropertyName m))
            then set_first_value
                   (\<lambda>item. strict_eq (item_id item) (get_prop (heap g a) (idPropertyName m)))
                   (next_addr g) (table_items this (tableName m))
            else table_items this (tableName m)
                 @ [createMemoryItem (get_prop (heap g a) (idPropertyName m)) (next_addr g)])"
proof (cases "find (\<lambda>item. strict_eq (item_id item) (get_prop (heap g a) (idPropertyName m)))
               (table_items this (tableName m))")
  case None
  then have "\<not> array_includes (map item_id (table_items this (tableName m)))
               (get_prop (heap g a) (idPropertyName m))"
    by (simp add: find_id_None)
  with h t None show ?thesis
    by (simp add: update_def Let_def clone_def has_id_def split: prod.splits)
next
  case (Some x)
  then have "array_includes (map item_id (table_items this (tableName m)))
               (get_prop (heap g a) (idPropertyName m))"
    using find_id_None [of "get_prop (heap g a) (idPropertyName m)" "table_items this (tableName m)"]
    by simp
  with h t Some show ?thesis
    by (simp add: update_def Let_def clone_def has_id_def split: prod.splits)
qed

lemma update_proto:
  assumes h: "idPropertyName m \<noteq> []" "has_id (heap g a) (idPropertyName m)"
      and t: "tableName m = ''__proto__''" "\<not> has_table this ''__proto__''"
  shows "(\<forall>t. table_items (fst (snd (update EU a m this g))) t = table_items this t)
         \<and> (\<forall>t. has_table (fst (snd (update EU a m this g))) t = has_table this t)"
  using h t
  by (simp add: update_def Let_def clone_def has_id_def split: prod.splits option.splits)

text \<open>
  C9. The ids of the items of every table are pairwise distinct: in a new persister, after
  every operation on a persister where it held, and so after every sequence of operations
  on a new persister. \<open>insert\<close> rejects an entity whose id is in the table and leaves the
  tables as they were; \<open>update\<close> of an entity with a populated id works on the table that
  \<open>this._data[tableName]\<close> reads: it replaces the value of the first item with that id, in
  place and with the ids of the table unchanged, or appends one item when no item has the
  id. For every table name but \<open>__proto__\<close> that table is the one \<open>has\<close> and the other
  operations see; under the name \<open>__proto__\<close> the row goes to a new table that becomes the
  prototype of \<open>_data\<close>, and the tables that \<open>has\<close> sees are as before. After each of the four
  deletions a table holds a sub-sequence (a filter) of its earlier items.
\<close>

theorem ids_distinct_invariant:
  "ids_distinct (newMemoryPersister ty)
   \<and> (ids_distinct this \<longrightarrow> ids_distinct (fst (run EU op (this, g))))
   \<and> ids_distinct (fst (foldl (\<lambda>s op. run EU op s) (newMemoryPersister ty, g) ops))
   \<and> (a < next_addr g \<and> has_id (heap g a) (idPropertyName m)
        \<and> array_includes (map item_id (table_items this (tableName m)))
             (get_prop (heap g a) (idPropertyName m)) \<longrightarrow>
        fst (insert EU (One a) m this g)
          = Inl (EntityAlreadyStored (get_prop (heap g a) (idPropertyName m)))
        \<and> (\<forall>t. table_items (fst (snd (insert EU (One a) m this g))) t = table_items this t))
   \<and> (idPropertyName m \<noteq> [] \<and> has_id (heap g a) (idPropertyName m) \<longrightarrow>
        current_items (fst (snd (update EU a m this g))) (tableName m) =
           (if array_includes (map item_id (table_items this (tableName m)))
                 (get_prop (heap g a) (idPropertyName m))
            then set_first_value
                   (\<lambda>item. strict_eq (item_id item) (get_prop (heap g a) (idPropertyName m)))
                   (next_addr g) (table_items this (tableName m))
            else table_items this (tableName m)
                 @ [createMemoryItem (get_prop (heap g a) (idPropertyName m)) (next_addr g)])
        \<and> map item_id (set_first_value
                   (\<lambda>item. strict_eq (item_id item) (get_prop (heap g a) (idPropertyName m)))
                   (next_addr g) (table_items this (tableName m)))
            = map item_id (table_items this (tableName m)))
   \<and> (idPropertyName m \<noteq> [] \<and> has_id (heap g a) (idPropertyName m)
        \<and> tableName m \<noteq> ''__proto__'' \<longrightarrow>
        table_items (fst (snd (update EU a m this g))) (tableName m) =
           (if array_includes (map item_id (table_items this (tableName m)))
                 (get_prop (heap g a) (idPropertyName m))
            then set_first_value
                   (\<lambda>item. strict_eq (item_id item) (get_prop (heap g a) (idPropertyName m)))
                   (next_addr g) (table_items this (tableName m))
            else table_items this (tableName m)
                 @ [createMemoryItem (get_prop (heap g a) (idPropertyName m)) (next_addr g)]))
   \<and> (idPropertyName m \<noteq> [] \<and> has_id (heap g a) (idPropertyName m)
        \<and> tableName m = ''__proto__'' \<and> \<not> has_table this ''__proto__'' \<longrightarrow>
        (\<forall>t. table_items (fst (snd (update EU a m this g))) t = table_items this t)
        \<and> (\<forall>t. has_table (fst (snd (update EU a m this g))) t = has_table this t))
   \<and> (\<exists>P. table_items (deleteAll m this) t = filter P (table_items this t))
   \<and> (\<exists>P. table_items (deleteAllById ids m this) t = filter P (table_items this t))
   \<and> (\<exists>P. table_items (deleteAllByProperty p v m this g) t = filter P (table_items this t))
   \<and> (\<exists>P. table_items (deleteById i m this) t = filter P (table_items this t))"
proof -
  have 1: "ids_distinct (newMemoryPersister ty)" by (rule ids_distinct_new)
  have 2: "ids_distinct this \<longrightarrow> ids_distinct (fst (run EU op (this, g)))"
    using run_ids_distinct [of "(this, g)" EU op] by simp
  have 3: "ids_distinct (fst (foldl (\<lambda>s op. run EU op s) (newMemoryPersister ty, g) ops))"
    by (rule runs_ids_distinct) (simp add: ids_distinct_new)
  note 4 = insert_present_rejected [where a = a and g = g and m = m and this = this and EU = EU]
  note 5 = update_current [where a = a and g = g and m = m and this = this and EU = EU]
  note 6 = deletes_filter(1) [where m = m and this = this and t = t]
    deletes_filter(2) [where ids = ids and m = m and this = this and t = t]
    deletes_filter(3) [where p = p and v = v and m = m and this = this and g = g and t = t]
    deletes_filter(4) [where i = i and m = m and this = this and t = t]
  note 7 = update_table [where a = a and g = g and m = m and this = this and EU = EU]
  note 8 = update_proto [where a = a and g = g and m = m and this = this and EU = EU]
  have 9: "map item_id (set_first_value
                   (\<lambda>item. strict_eq (item_id item) (get_prop (heap g a) (idPropertyName m)))
                   (next_addr g) (table_items this (tableName m)))
            = map item_id (table_items this (tableName m))"
    by (rule map_item_id_set_first_value)
  from 1 2 3 4 5 6 7 8 9 show ?thesis
    by blast
qed

lemmas ex_defs = ex_meta_def ex_this_def ex_g_def

theorem insert_duplicate_rejected_witness:
  "list_all (\<lambda>a. a < next_addr ex_g) (as_list (Many [2, 1]))
   \<and> has_duplicate (map item_id (table_items ex_this (tableName ex_meta)))
        (assigned_ids (idType ex_this) (idPropertyName ex_meta) (ID_SEQUENCER ex_g)
           (map (heap ex_g) (as_list (Many [2, 1]))))
   \<and> (\<exists>i this' g'. insert entityUtils (Many [2, 1]) ex_meta ex_this ex_g
                       = (Inl (EntityAlreadyStored i), this', g')
           \<and> (\<forall>t. table_items this' t = table_items ex_this t)
           \<and> (\<forall>x < next_addr ex_g. heap g' x = heap ex_g x))"
proof -
  have a: "\<forall>a \<in> set (as_list (Many [2, 1])). a < next_addr ex_g"
    by (simp add: ex_defs)
  have d: "has_duplicate (map item_id (table_items ex_this (tableName ex_meta)))
        (assigned_ids (idType ex_this) (idPropertyName ex_meta) (ID_SEQUENCER ex_g)
           (map (heap ex_g) (as_list (Many [2, 1]))))"
    by (simp add: ex_defs table_items_def has_id_def has_def get_prop_def format_id_def
          array_includes_def increment_def)
  from a have "list_all (\<lambda>a. a < next_addr ex_g) (as_list (Many [2, 1]))"
    by (simp add: list_all_iff)
  with d insert_duplicate_rejected [OF a d, of entityUtils] show ?thesis by blast
qed

theorem ids_distinct_invariant_witness:
  "ids_distinct (newMemoryPersister None)
   \<and> ids_distinct (fst (run entityUtils (Insert (Many [2, 1]) ex_meta) (newMemoryPersister None, ex_g)))
   \<and> fst (insert entityUtils (One 0) ex_meta ex_this ex_g) = Inl (EntityAlreadyStored (VNum 1))
   \<and> table_items (fst (snd (update entityUtils 0 ex_meta ex_this ex_g))) ''t''
       = [\<lparr> item_id = VNum 1, item_value = 3 \<rparr>]
   \<and> table_items (fst (snd (update entityUtils 2 ex_meta ex_this ex_g))) ''t''
       = [\<lparr> item_id = VNum 1, item_value = 0 \<rparr>, \<lparr> item_id = VNum 5, item_value = 3 \<rparr>]
   \<and> current_items
         (fst (snd (update entityUtils 0 (ex_meta\<lparr>tableName := ''__proto__''\<rparr>) ex_this ex_g)))
         ''__proto__''
       = [\<lparr> item_id = VNum 1, item_value = 3 \<rparr>]
   \<and> table_items
         (fst (snd (update entityUtils 0 (ex_meta\<lparr>tableName := ''__proto__''\<rparr>) ex_this ex_g)))
         ''__proto__''
       = []
   \<and> \<not> has_table
         (fst (snd (update entityUtils 0 (ex_meta\<lparr>tableName := ''__proto__''\<rparr>) ex_this ex_g)))
         ''__proto__''"
proof -
  note t = ids_distinct_invariant
  have h0: "(0::nat) < next_addr ex_g \<and> has_id (heap ex_g 0) (idPropertyName ex_meta)
        \<and> array_includes (map item_id (table_items ex_this (tableName ex_meta)))
             (get_prop (heap ex_g 0) (idPropertyName ex_meta))"
    by (simp add: ex_defs table_items_def has_id_def has_def get_prop_def array_includes_def)
  have v0: "get_prop (heap ex_g 0) (idPropertyName ex_meta) = VNum 1"
    by (simp add: ex_defs get_prop_def)
  have h2: "idPropertyName ex_meta \<noteq> [] \<and> has_id (heap ex_g 2) (idPropertyName ex_meta)
        \<and> tableName ex_meta \<noteq> ''__proto__''"
    by (simp add: ex_defs has_id_def has_def get_prop_def)
  have h0': "idPropertyName ex_meta \<noteq> [] \<and> has_id (heap ex_g 0) (idPropertyName ex_meta)
        \<and> tableName ex_meta \<noteq> ''__proto__''"
    by (simp add: ex_defs has_id_def has_def get_prop_def)
  from t [where ty = None and this = "newMemoryPersister None" and EU = entityUtils
        and op = "Insert (Many [2, 1]) ex_meta" and g = ex_g]
  have 1: "ids_distinct (newMemoryPersister None)"
    and 2: "ids_distinct (fst (run entityUtils (Insert (Many [2, 1]) ex_meta) (newMemoryPersister None, ex_g)))"
    by blast+
  from t [where this = ex_this and EU = entityUtils and g = ex_g and a = 0 and m = ex_meta] h0 v0
  have 3: "fst (insert entityUtils (One 0) ex_meta ex_this ex_g) = Inl (EntityAlreadyStored (VNum 1))"
    by metis
  from t [where this = ex_this and EU = entityUtils and g = ex_g and a = 0 and m = ex_meta] h0'
  have "table_items (fst (snd (update entityUtils 0 ex_meta ex_this ex_g))) (tableName ex_meta) =
           (if array_includes (map item_id (table_items ex_this (tableName ex_meta)))
                 (get_prop (heap ex_g 0) (idPropertyName ex_meta))
            then set_first_value
                   (\<lambda>item. strict_eq (item_id item) (get_prop (heap ex_g 0) (idPropertyName ex_meta)))
                   (next_addr ex_g) (table_items ex_this (tableName ex_meta))
            else table_items ex_this (tableName ex_meta)
                 @ [createMemoryItem (get_prop (heap ex_g 0) (idPropertyName ex_meta)) (next_addr ex_g)])"
    by blast
  then have 4: "table_items (fst (snd (update entityUtils 0 ex_meta ex_this ex_g))) ''t''
       = [\<lparr> item_id = VNum 1, item_value = 3 \<rparr>]"
    by (simp add: ex_defs table_items_def get_prop_def array_includes_def)
  from t [where this = ex_this and EU = entityUtils and g = ex_g and a = 2 and m = ex_meta] h2
  have "table_items (fst (snd (update entityUtils 2 ex_meta ex_this ex_g))) (tableName ex_meta) =
           (if array_includes (map item_id (table_items ex_this (tableName ex_meta)))
                 (get_prop (heap ex_g 2) (idPropertyName ex_meta))
            then set_first_value
                   (\<lambda>item. strict_eq (item_id item) (get_prop (heap ex_g 2) (idPropertyName ex_meta)))
                   (next_addr ex_g) (table_items ex_this (tableName ex_meta))
            else table_items ex_this (tableName ex_meta)
                 @ [createMemoryItem (get_prop (heap ex_g 2) (idPropertyName ex_meta)) (next_addr ex_g)])"
    by blast
  then have 5: "table_items (fst (snd (update entityUtils 2 ex_meta ex_this ex_g))) ''t''
       = [\<lparr> item_id = VNum 1, item_value = 0 \<rparr>, \<lparr> item_id = VNum 5, item_value = 3 \<rparr>]"
    by (simp add: ex_defs table_items_def get_prop_def array_includes_def createMemoryItem_def)
  let ?mp = "ex_meta\<lparr>tableName := ''__proto__''\<rparr>"
  have hp: "idPropertyName ?mp \<noteq> [] \<and> has_id (heap ex_g 0) (idPropertyName ?mp)"
    by (simp add: ex_defs has_id_def has_def get_prop_def)
  have hq: "tableName ?mp = ''__proto__'' \<and> \<not> has_table ex_this ''__proto__''"
    by (simp add: ex_defs has_table_def)
  from t [where this = ex_this and EU = entityUtils and g = ex_g and a = 0 and m = ?mp] hp
  have "current_items (fst (snd (update entityUtils 0 ?mp ex_this ex_g))) (tableName ?mp) =
           (if array_includes (map item_id (table_items ex_this (tableName ?mp)))
                 (get_prop (heap ex_g 0) (idPropertyName ?mp))
            then set_first_value
                   (\<lambda>item. strict_eq (item_id item) (get_prop (heap ex_g 0) (idPropertyName ?mp)))
                   (next_addr ex_g) (table_items ex_this (tableName ?mp))
            else table_items ex_this (tableName ?mp)
                 @ [createMemoryItem (get_prop (heap ex_g 0) (idPropertyName ?mp)) (next_addr ex_g)])"
    by blast
  then have 6: "current_items (fst (snd (update entityUtils 0 ?mp ex_this ex_g))) ''__proto__''
       = [\<lparr> item_id = VNum 1, item_value = 3 \<rparr>]"
    by (simp add: ex_defs table_items_def get_prop_def array_includes_def createMemoryItem_def)
  from t [where this = ex_this and EU = entityUtils and g = ex_g and a = 0 and m = ?mp] hp hq
  have u: "(\<forall>t. table_items (fst (snd (update entityUtils 0 ?mp ex_this ex_g))) t
                 = table_items ex_this t)
         \<and> (\<forall>t. has_table (fst (snd (update entityUtils 0 ?mp ex_this ex_g))) t
                 = has_table ex_this t)"
    by blast
  from u have 7: "table_items (fst (snd (update entityUtils 0 ?mp ex_this ex_g))) ''__proto__'' = []"
    by (simp add: ex_defs table_items_def)
  from u hq have 8: "\<not> has_table (fst (snd (update entityUtils 0 ?mp ex_this ex_g))) ''__proto__''"
    by simp
  from 1 2 3 4 5 6 7 8 show ?thesis by blast
qed

lemma newItems_head:
  assumes n: "newItems t idp (a # as) allIds g = (Inr its, g')"
      and a: "a \<notin> set as"
  shows "\<exists>rest. its = createMemoryItem (get_prop (heap (assign_id t idp a g) a) idp) a # rest
          \<and> heap g' a = heap (assign_id t idp a g) a
          \<and> ID_SEQUENCER (assign_id t idp a g) \<le> ID_SEQUENCER g'
          \<and> length rest = length as
          \<and> \<not> array_includes allIds (get_prop (heap (assign_id t idp a g) a) idp)"
proof -
  let ?g1 = "assign_id t idp a g"
  let ?i = "get_prop (heap ?g1 a) idp"
  from n have ok: "\<not> array_includes allIds ?i"
    by (auto simp: newItems_Cons Let_def split: if_splits)
  obtain r2 g2 where rec: "newItems t idp as (allIds @ [?i]) ?g1 = (r2, g2)"
    by (cases "newItems t idp as (allIds @ [?i]) ?g1")
  with n ok obtain its2 where r2: "r2 = Inr its2"
    and its: "its = createMemoryItem ?i a # its2" and g': "g' = g2"
    by (cases r2) (auto simp: newItems_Cons Let_def)
  from newItems_frame [OF rec] a g' have "heap g' a = heap ?g1 a"
    and "ID_SEQUENCER ?g1 \<le> ID_SEQUENCER g'" by simp_all
  moreover from newItems_Inr [OF rec [unfolded r2]] have "length its2 = length as"
    by (metis length_map)
  ultimately show ?thesis using its ok by blast
qed

text \<open>What a successful insert did, for the first entity of the batch.\<close>

lemma insert_Inr:
  assumes ins: "insert EU entity m this g = (Inr r, this', g')"
      and first: "as_list entity = a # rest"
      and alloc: "\<forall>x \<in> set (as_list entity). x < next_addr g"
  shows "\<exists>its g2 stored.
           stored = (if has_id (heap g a) (idPropertyName m) then heap g a
                     else set_prop (heap g a) (idPropertyName m)
                            (format_id (idType this) (increment (ID_SEQUENCER g))))
         \<and> this' = write_items (tableName m)
                     (table_items this (tableName m)
                       @ createMemoryItem (get_prop stored (idPropertyName m)) (next_addr g) # its)
                     (ensure_table (tableName m) this)
         \<and> length its = length rest
         \<and> \<not> array_includes (map item_id (table_items this (tableName m)))
                 (get_prop stored (idPropertyName m))
         \<and> heap g2 (next_addr g) = stored
         \<and> next_addr g < next_addr g2
         \<and> (\<forall>x < next_addr g. heap g2 x = heap g x)
         \<and> (if has_id (heap g a) (idPropertyName m) then ID_SEQUENCER g
             else increment (ID_SEQUENCER g)) \<le> ID_SEQUENCER g2
         \<and> populateRelations EU this' (next_addr g2) m (snd (clone (next_addr g) g2)) = (Inr r, g')"
proof -
  let ?tn = "tableName m"
  let ?idp = "idPropertyName m"
  let ?this1 = "ensure_table ?tn this"
  obtain list g1 where cl: "clone_list (as_list entity) g = (list, g1)"
    by (cases "clone_list (as_list entity) g")
  from clone_list_props [OF cl] alloc
  have list0: "list = [next_addr g ..< next_addr g + length (as_list entity)]"
    and n0: "next_addr g1 = next_addr g + length (as_list entity)"
    and s1: "ID_SEQUENCER g1 = ID_SEQUENCER g"
    and h1: "\<forall>x < next_addr g. heap g1 x = heap g x"
    and m0: "map (heap g1) list = map (heap g) (as_list entity)"
    by blast+
  have list: "list = next_addr g # [Suc (next_addr g) ..< next_addr g + length (a # rest)]"
    unfolding list0 first by (rule upt_conv_Cons) simp
  from n0 first have n1: "next_addr g1 = next_addr g + length (a # rest)" by simp
  from m0 first have m1: "map (heap g1) list = map (heap g) (a # rest)" by simp
  let ?tl = "[Suc (next_addr g) ..< next_addr g + length (a # rest)]"
  from m1 list have hs: "heap g1 (next_addr g) = heap g a" by simp
  obtain res g2 where n: "newItems (idType this) ?idp list (map item_id (table_items this ?tn)) g1
      = (res, g2)"
    by (cases "newItems (idType this) ?idp list (map item_id (table_items this ?tn)) g1")
  from ins cl n obtain its where res: "res = Inr its"
    by (cases res) (auto simp: insert_def Let_def)
  have notin: "next_addr g \<notin> set ?tl" by auto
  from newItems_head [OF n [unfolded res list] notin]
  obtain tl where its: "its = createMemoryItem
        (get_prop (heap (assign_id (idType this) ?idp (next_addr g) g1) (next_addr g)) ?idp)
        (next_addr g) # tl"
    and h2: "heap g2 (next_addr g) = heap (assign_id (idType this) ?idp (next_addr g) g1) (next_addr g)"
    and s2: "ID_SEQUENCER (assign_id (idType this) ?idp (next_addr g) g1) \<le> ID_SEQUENCER g2"
    and len: "length tl = length ?tl"
    and ni: "\<not> array_includes (map item_id (table_items this ?tn))
               (get_prop (heap (assign_id (idType this) ?idp (next_addr g) g1) (next_addr g)) ?idp)"
    by blast
  let ?stored = "if has_id (heap g a) ?idp then heap g a
                 else set_prop (heap g a) ?idp (format_id (idType this) (increment (ID_SEQUENCER g)))"
  have st: "heap (assign_id (idType this) ?idp (next_addr g) g1) (next_addr g) = ?stored"
    by (simp add: assign_id_props hs s1)
  from newItems_frame [OF n] have n2: "next_addr g2 = next_addr g1"
    and f2: "\<forall>x. x \<notin> set list \<longrightarrow> heap g2 x = heap g1 x" by simp_all
  from f2 h1 list have h2': "\<forall>x < next_addr g. heap g2 x = heap g x" by auto
  let ?this2 = "write_items ?tn (current_items ?this1 ?tn @ its) ?this1"
  have ie: "insert EU entity m this g =
      (case populateRelations EU ?this2 (next_addr g2) m (snd (clone (next_addr g) g2)) of
         (r, g4) \<Rightarrow> (r, ?this2, g4))"
    by (simp add: insert_def Let_def cl n res its prepareItem_def clone_def createMemoryItem_def)
  obtain r4 g4 where pp: "populateRelations EU ?this2 (next_addr g2) m (snd (clone (next_addr g) g2))
      = (r4, g4)"
    by (cases "populateRelations EU ?this2 (next_addr g2) m (snd (clone (next_addr g) g2))")
  from ins ie pp have eqs: "r4 = Inr r" "this' = ?this2" "g4 = g'" by simp_all
  have this': "this' = write_items ?tn (table_items this ?tn
                 @ createMemoryItem (get_prop ?stored ?idp) (next_addr g) # tl) ?this1"
    unfolding eqs its st by simp
  have pop: "populateRelations EU this' (next_addr g2) m (snd (clone (next_addr g) g2)) = (Inr r, g')"
    using pp eqs by simp
  have "(if has_id (heap g a) ?idp then ID_SEQUENCER g else increment (ID_SEQUENCER g)) \<le> ID_SEQUENCER g2"
    using s2 by (simp add: assign_id_props hs s1 split: if_splits)
  then have sq: "(if has_id (heap g a) ?idp then ID_SEQUENCER g else increment (ID_SEQUENCER g))
                   \<le> ID_SEQUENCER g2" .
  from h2 st have hst: "heap g2 (next_addr g) = ?stored" by simp
  from n2 n1 have lt: "next_addr g < next_addr g2" by simp
  from len have "length tl = (next_addr g + length (a # rest)) - Suc (next_addr g)"
    by (simp only: length_upt)
  then have len': "length tl = length rest" by simp
  from ni have ni': "\<not> array_includes (map item_id (table_items this ?tn)) (get_prop ?stored ?idp)"
    unfolding st .
  show ?thesis
    by (intro exI conjI)
       (rule refl, rule this', rule len', rule ni', rule hst, rule lt, rule h2', rule sq, rule pop)
qed

lemma populateRelationsToList_preserves:
  "populateRelationsToList EU this as m g = (res, g') \<Longrightarrow> preserves g g'"
proof (induction as arbitrary: g res g')
  case Nil
  then show ?case by (simp add: preserves_refl)
next
  case (Cons a as)
  obtain r1 g1 where p: "populateRelations EU this a m g = (r1, g1)"
    by (cases "populateRelations EU this a m g")
  from populateRelations_props [OF p] have p1: "preserves g g1" by simp
  show ?case
  proof (cases r1)
    case (Inl e)
    with Cons.prems p have "g' = g1" by simp
    with p1 show ?thesis by simp
  next
    case (Inr b)
    obtain r2 g2 where q: "populateRelationsToList EU this as m g1 = (r2, g2)"
      by (cases "populateRelationsToList EU this as m g1")
    with Cons.prems p Inr have "g' = g2" by (cases r2) simp_all
    with Cons.IH [OF q] p1 show ?thesis by (blast intro: preserves_trans)
  qed
qed

lemma found_preserves: "found EU item m this g = (res, g') \<Longrightarrow> preserves g g'"
proof (cases item)
  case None
  assume "found EU item m this g = (res, g')"
  with None show ?thesis by (simp add: found_def preserves_refl)
next
  case (Some it)
  assume f: "found EU item m this g = (res, g')"
  obtain r1 g1 where p: "populateRelations EU this (next_addr g) m (snd (clone (item_value it) g))
      = (r1, g1)"
    by (cases "populateRelations EU this (next_addr g) m (snd (clone (item_value it) g))")
  have c: "preserves g (snd (clone (item_value it) g))"
    by (simp add: clone_def preserves_def)
  from f Some p have "g' = g1"
    by (cases r1) (simp_all add: found_def prepareItem_def clone_def)
  with populateRelations_props [OF p] c show ?thesis by (blast intro: preserves_trans)
qed

lemma findAll_preserves: "findAll EU m this g = (res, g') \<Longrightarrow> preserves g g'"
  by (auto simp: findAll_def Let_def preserves_refl split: if_splits prod.splits
        dest!: prepareItemList_preserves populateRelationsToList_preserves
        intro: preserves_trans)

lemma findAllById_preserves: "findAllById EU ids m this g = (res, g') \<Longrightarrow> preserves g g'"
  by (auto simp: findAllById_def Let_def split: prod.splits
        dest!: prepareItemList_preserves populateRelationsToList_preserves
        intro: preserves_trans)

lemma findAllByProperty_preserves:
  "findAllByProperty EU p v m this g = (res, g') \<Longrightarrow> preserves g g'"
  by (auto simp: findAllByProperty_def Let_def split: prod.splits
        dest!: prepareItemList_preserves populateRelationsToList_preserves
        intro: preserves_trans)

lemma update_preserves: "update EU a m this g = (res, this', g') \<Longrightarrow> preserves g g'"
proof -
  assume u: "update EU a m this g = (res, this', g')"
  have c: "preserves g (snd (clone a g))" by (simp add: clone_def preserves_def)
  show ?thesis
  proof (cases "g' = snd (clone a g)")
    case True
    with c show ?thesis by simp
  next
    case False
    with u obtain that r where "populateRelations EU that (next_addr g) m (snd (clone a g)) = (r, g')"
      by (auto simp: update_def Let_def clone_def split: if_splits prod.splits)
    from populateRelations_props [OF this] c show ?thesis by (blast intro: preserves_trans)
  qed
qed

lemma insert_counter:
  assumes "insert EU entity m this g = (res, this', g')"
  shows "ID_SEQUENCER g \<le> ID_SEQUENCER g' \<and> next_addr g \<le> next_addr g'"
proof -
  obtain list g1 where cl: "clone_list (as_list entity) g = (list, g1)"
    by (cases "clone_list (as_list entity) g")
  obtain r2 g2 where n: "newItems (idType this) (idPropertyName m) list
        (map item_id (table_items this (tableName m))) g1 = (r2, g2)"
    by (cases "newItems (idType this) (idPropertyName m) list
        (map item_id (table_items this (tableName m))) g1")
  from clone_list_preserves [OF cl] newItems_frame [OF n]
  have 2: "ID_SEQUENCER g \<le> ID_SEQUENCER g2 \<and> next_addr g \<le> next_addr g2"
    by (simp add: preserves_def)
  show ?thesis
  proof (cases "g' = g2")
    case True
    with 2 show ?thesis by simp
  next
    case False
    with assms cl n obtain that and it :: MemoryItem and r where
      "populateRelations EU that (next_addr g2) m (snd (clone (item_value it) g2)) = (r, g')"
      by (cases r2)
         (auto simp: insert_def Let_def prepareItem_def clone_def split: option.splits prod.splits)
    from populateRelations_props [OF this] have "preserves (snd (clone (item_value it) g2)) g'"
      by simp
    with 2 show ?thesis by (simp add: preserves_def clone_def)
  qed
qed

lemma run_counter:
  "ID_SEQUENCER (snd s) \<le> ID_SEQUENCER (snd (run EU op s))"
proof (cases s)
  case (Pair this g)
  show ?thesis
  proof (cases op)
    case (FindAll m)
    with Pair findAll_preserves [of EU m this g] show ?thesis
      by (cases "findAll EU m this g") (simp add: preserves_def)
  next
    case (FindAllById ids m)
    with Pair findAllById_preserves [of EU ids m this g] show ?thesis
      by (cases "findAllById EU ids m this g") (simp add: preserves_def)
  next
    case (FindAllByProperty p v m)
    with Pair findAllByProperty_preserves [of EU p v m this g] show ?thesis
      by (cases "findAllByProperty EU p v m this g") (simp add: preserves_def)
  next
    case (FindById i m)
    with Pair found_preserves [of EU _ m this g] show ?thesis
      by (cases "findById EU i m this g") (simp add: preserves_def findById_def)
  next
    case (FindByProperty p v m)
    with Pair found_preserves [of EU _ m this g] show ?thesis
      by (cases "findByProperty EU p v m this g") (simp add: preserves_def findByProperty_def)
  next
    case (Insert e m)
    with Pair insert_counter [of EU e m this g] show ?thesis
      by (cases "insert EU e m this g") auto
  next
    case (Update e m)
    with Pair update_preserves [of EU e m this g] show ?thesis
      by (cases "update EU e m this g") (auto simp: preserves_def)
  qed (simp_all add: Pair)
qed

lemma newItems_ids:
  "distinct as \<Longrightarrow> newItems t idp as allIds g = (Inr its, g') \<Longrightarrow>
     map item_id its = assigned_ids t idp (ID_SEQUENCER g) (map (heap g) as)"
proof (induction as arbitrary: allIds g its g')
  case Nil
  then show ?case by simp
next
  case (Cons a as)
  let ?g1 = "assign_id t idp a g"
  let ?i = "get_prop (heap ?g1 a) idp"
  from Cons.prems(1) have "\<forall>x \<in> set as. x \<noteq> a" by auto
  then have rest: "map (heap ?g1) as = map (heap g) as"
    by (simp add: assign_id_props(2))
  from Cons.prems(1) have d: "distinct as" by simp
  from Cons.prems(2) have ok: "\<not> array_includes allIds ?i"
    by (auto simp: newItems_Cons Let_def split: if_splits)
  obtain r2 g2 where rec: "newItems t idp as (allIds @ [?i]) ?g1 = (r2, g2)"
    by (cases "newItems t idp as (allIds @ [?i]) ?g1")
  with Cons.prems(2) ok obtain its2 where r2: "r2 = Inr its2"
    and its: "its = createMemoryItem ?i a # its2"
    by (cases r2) (auto simp: newItems_Cons Let_def)
  from Cons.IH [OF d rec [unfolded r2]]
  have "map item_id its2 = assigned_ids t idp (ID_SEQUENCER ?g1) (map (heap g) as)"
    by (simp only: rest)
  with its show ?case
    by (simp add: createMemoryItem_def assign_id_id assign_id_props(3))
qed

lemma assigned_ids_length: "length (assigned_ids t idp n es) = length es"
  by (induction es arbitrary: n) simp_all

lemma assigned_ids_fresh:
  "k < length es \<Longrightarrow> \<not> has_id (es ! k) idp \<Longrightarrow> n + length es \<le> 2 ^ 53 \<Longrightarrow>
     \<exists>c. n < c \<and> assigned_ids t idp n es ! k = format_id t c"
proof (induction es arbitrary: n k)
  case Nil
  then show ?case by simp
next
  case (Cons e es)
  from Cons.prems(3) have inc: "increment n = Suc n"
    by (simp add: increment_def)
  show ?case
  proof (cases k)
    case 0
    with Cons.prems inc show ?thesis by auto
  next
    case (Suc j)
    with Cons.prems have j: "j < length es" "\<not> has_id (es ! j) idp" by simp_all
    show ?thesis
    proof (cases "has_id e idp")
      case True
      from Cons.prems(3) have "n + length es \<le> 2 ^ 53" by simp
      from Cons.IH [OF j this] True Suc show ?thesis by simp
    next
      case False
      from Cons.prems(3) have "Suc n + length es \<le> 2 ^ 53" by simp
      from Cons.IH [OF j this] obtain c where "Suc n < c"
        "assigned_ids t idp (Suc n) es ! j = format_id t c" by blast
      with False Suc inc show ?thesis by (auto intro: exI [of _ c])
    qed
  qed
qed

lemma insert_Inr_ids:
  assumes ins: "insert EU entity m this g = (Inr r, this', g')"
      and alloc: "\<forall>x \<in> set (as_list entity). x < next_addr g"
  shows "\<exists>its. current_items this' (tableName m) = table_items this (tableName m) @ its
           \<and> map item_id its
               = assigned_ids (idType this) (idPropertyName m) (ID_SEQUENCER g)
                   (map (heap g) (as_list entity))"
proof -
  obtain list g1 where cl: "clone_list (as_list entity) g = (list, g1)"
    by (cases "clone_list (as_list entity) g")
  from clone_list_props [OF cl] alloc
  have list: "list = [next_addr g ..< next_addr g + length (as_list entity)]"
    and s1: "ID_SEQUENCER g1 = ID_SEQUENCER g"
    and m1: "map (heap g1) list = map (heap g) (as_list entity)"
    by blast+
  have d: "distinct list" by (simp add: list)
  obtain res g2 where n: "newItems (idType this) (idPropertyName m) list
        (map item_id (table_items this (tableName m))) g1 = (res, g2)"
    by (cases "newItems (idType this) (idPropertyName m) list
        (map item_id (table_items this (tableName m))) g1")
  from ins cl n obtain its where res: "res = Inr its"
    by (cases res) (auto simp: insert_def Let_def)
  from ins cl n res
  have "this' = write_items (tableName m) (table_items this (tableName m) @ its)
                  (ensure_table (tableName m) this)"
    by (auto simp: insert_def Let_def split: option.splits prod.splits)
  then have 1: "current_items this' (tableName m) = table_items this (tableName m) @ its"
    by (simp add: current_items_write_items read_table_ensure_table)
  from newItems_ids [OF d n [unfolded res]] s1 m1
  have 2: "map item_id its = assigned_ids (idType this) (idPropertyName m) (ID_SEQUENCER g)
                   (map (heap g) (as_list entity))"
    by simp
  from 1 2 show ?thesis by blast
qed

lemma insert_current:
  assumes ins: "insert EU entity m this g = (Inr r, this', g')"
      and first: "as_list entity = a # rest"
      and alloc: "\<forall>x \<in> set (as_list entity). x < next_addr g"
  shows "\<exists>its. current_items this' (tableName m)
           = table_items this (tableName m)
             @ createMemoryItem
                 (if has_id (heap g a) (idPropertyName m) then get_prop (heap g a) (idPropertyName m)
                  else format_id (idType this) (increment (ID_SEQUENCER g)))
                 (next_addr g) # its"
proof -
  from insert_Inr [OF ins first alloc]
  obtain its stored where
    st: "stored = (if has_id (heap g a) (idPropertyName m) then heap g a
                   else set_prop (heap g a) (idPropertyName m)
                          (format_id (idType this) (increment (ID_SEQUENCER g))))"
    and this': "this' = write_items (tableName m)
                     (table_items this (tableName m)
                       @ createMemoryItem (get_prop stored (idPropertyName m)) (next_addr g) # its)
                     (ensure_table (tableName m) this)"
    by blast
  have "get_prop stored (idPropertyName m)
          = (if has_id (heap g a) (idPropertyName m) then get_prop (heap g a) (idPropertyName m)
             else format_id (idType this) (increment (ID_SEQUENCER g)))"
    unfolding st by (simp add: get_set_prop)
  with this' show ?thesis
    by (simp add: current_items_write_items read_table_ensure_table)
qed

lemma insert_table_items:
  assumes ins: "insert EU entity m this g = (Inr r, this', g')"
  shows "table_items this' (tableName m)
           = (if tableName m = ''__proto__'' \<and> \<not> has_table this ''__proto__''
              then table_items this (tableName m) else current_items this' (tableName m))"
proof -
  obtain list g1 where cl: "clone_list (as_list entity) g = (list, g1)"
    by (cases "clone_list (as_list entity) g")
  obtain res g2 where n: "newItems (idType this) (idPropertyName m) list
        (map item_id (table_items this (tableName m))) g1 = (res, g2)"
    by (cases "newItems (idType this) (idPropertyName m) list
        (map item_id (table_items this (tableName m))) g1")
  from ins cl n obtain its where res: "res = Inr its"
    by (cases res) (auto simp: insert_def Let_def)
  from ins cl n res
  have "this' = write_items (tableName m) (table_items this (tableName m) @ its)
                  (ensure_table (tableName m) this)"
    by (auto simp: insert_def Let_def split: option.splits prod.splits)
  then show ?thesis
    by (auto simp: current_items_write_items read_table_ensure_table)
qed

text \<open>
  What \<open>insert\<close> and \<open>findById\<close> do under the table name \<open>__proto__\<close>: the rows go to a new
  table that becomes the prototype of \<open>_data\<close>, \<open>has\<close> sees no table before and after, and
  \<open>findById\<close> returns \<open>undefined\<close>.
\<close>

lemma insert_proto:
  assumes "tableName m = ''__proto__''" "\<not> has_table this ''__proto__''"
  shows "(\<forall>t. table_items (fst (snd (insert EU entity m this g))) t = table_items this t)
         \<and> (\<forall>t. has_table (fst (snd (insert EU entity m this g))) t = has_table this t)
         \<and> findById EU i m (fst (snd (insert EU entity m this g))) gX = (Inr None, gX)"
proof -
  have 1: "\<forall>t. has_table (fst (snd (insert EU entity m this g))) t = has_table this t"
    using assms
    by (auto simp: insert_def Let_def split: prod.splits sum.splits option.splits)
  have 2: "\<forall>t. table_items (fst (snd (insert EU entity m this g))) t = table_items this t"
    using assms
    by (auto simp: insert_def Let_def split: prod.splits sum.splits option.splits)
  from 1 assms have "\<not> has_table (fst (snd (insert EU entity m this g))) (tableName m)"
    by simp
  then have 3: "findById EU i m (fst (snd (insert EU entity m this g))) gX = (Inr None, gX)"
    by (simp add: findById_def findItem_def found_def)
  from 1 2 3 show ?thesis by blast
qed

lemmas insert_eval =
  insert_def Let_def clone_def newItems_Cons assign_id_def has_id_def has_def get_prop_def
  set_prop_def format_id_def populateRelations_def populateOneToManyRelations_def
  populateManyToOneRelations_def prepareItem_def createMemoryItem_def newMemoryPersister_def
  ensure_table_def assign_table_def read_table_def current_items_def write_items_def
  increment_def has_table_def table_items_def set_items_def createMemoryTable_def
  array_includes_def ex_defs

lemmas ex_idrel_defs = ex_idrelMeta_def ex_idrel_def ex_g_last_def ex_parentMeta_def
  ex_childMeta_def setupEntityMetadata_def

lemmas ex_idrel_eval = insert_eval ex_idrel_defs oneToMany_step_def getMetadataByTable_def
  entityUtils_def filterItems_def own_prop_def

text \<open>
  C3, as the claim states it, fails. First: the metadata \<open>ex_idrelMeta\<close> declares a
  one-to-many relation on the id property; \<open>insert\<close> of an entity without an id stores it
  under the counter value 1 and returns a copy whose id property population has
  overwritten with the list of the related entities, here the empty list, which is no
  counter value under either id type. Second: when the counter has been incremented
  \<open>2 ^ 53 - 1\<close> times, two inserts, each into a new persister, return copies with the same
  id \<open>2 ^ 53\<close>, and the counter stands at \<open>2 ^ 53\<close> after the first insert and after the
  second.
\<close>

theorem insert_assigns_sequence_id_counterexample:
  "\<not> has_id (heap ex_g 1) (idPropertyName ex_idrelMeta)
   \<and> fst (insert entityUtils (One 1) ex_idrelMeta ex_idrel ex_g) = Inr 6
   \<and> get_prop (heap (snd (snd (insert entityUtils (One 1) ex_idrelMeta ex_idrel ex_g))) 6)
        (idPropertyName ex_idrelMeta) = VArr []
   \<and> (\<forall>t n. format_id t n \<noteq> VArr [])
   \<and> current_items (fst (snd (insert entityUtils (One 1) ex_idrelMeta ex_idrel ex_g))) ''parent''
       = [\<lparr> item_id = VNum 1, item_value = 3 \<rparr>]
   \<and> fst (insert entityUtils (One 1) ex_meta (newMemoryPersister (Some NUMBER)) ex_g_last) = Inr 6
   \<and> get_prop (heap (snd (snd (insert entityUtils (One 1) ex_meta
                                   (newMemoryPersister (Some NUMBER)) ex_g_last))) 6) ''id''
       = VNum 9007199254740992
   \<and> ID_SEQUENCER (snd (snd (insert entityUtils (One 1) ex_meta
                                 (newMemoryPersister (Some NUMBER)) ex_g_last)))
       = 9007199254740992
   \<and> fst (insert entityUtils (One 1) ex_meta (newMemoryPersister (Some NUMBER))
            (snd (snd (insert entityUtils (One 1) ex_meta
                         (newMemoryPersister (Some NUMBER)) ex_g_last)))) = Inr 10
   \<and> get_prop (heap (snd (snd (insert entityUtils (One 1) ex_meta (newMemoryPersister (Some NUMBER))
            (snd (snd (insert entityUtils (One 1) ex_meta
                         (newMemoryPersister (Some NUMBER)) ex_g_last)))))) 10) ''id''
       = VNum 9007199254740992
   \<and> ID_SEQUENCER (snd (snd (insert entityUtils (One 1) ex_meta (newMemoryPersister (Some NUMBER))
            (snd (snd (insert entityUtils (One 1) ex_meta
                         (newMemoryPersister (Some NUMBER)) ex_g_last))))))
       = 9007199254740992"
proof -
  have 1: "\<not> has_id (heap ex_g 1) (idPropertyName ex_idrelMeta)"
    by (simp add: ex_idrel_defs ex_defs has_id_def has_def)
  have 2: "insert entityUtils (One 1) ex_idrelMeta ex_idrel ex_g
      = (Inr 6,
         ex_idrel\<lparr>data := [''parent'' \<mapsto> \<lparr> items = [\<lparr> item_id = VNum 1, item_value = 3 \<rparr>] \<rparr>]\<rparr>,
         ex_g\<lparr>heap := (heap ex_g)(3 := [(''name'', VStr ''b''), (''id'', VNum 1)],
                                  4 := [(''name'', VStr ''b''), (''id'', VNum 1)],
                                  5 := [(''name'', VStr ''b''), (''id'', VArr [])],
                                  6 := [(''name'', VStr ''b''), (''id'', VArr [])]),
              next_addr := 7, ID_SEQUENCER := 1\<rparr>)"
    by (simp add: ex_idrel_eval)
  have 3: "\<forall>t n. format_id t n \<noteq> VArr []"
    by (simp add: format_id_def)
  have 4: "insert entityUtils (One 1) ex_meta (newMemoryPersister (Some NUMBER)) ex_g_last
      = (Inr 6,
         (newMemoryPersister (Some NUMBER))
           \<lparr>data := [''t'' \<mapsto> \<lparr> items = [\<lparr> item_id = VNum 9007199254740992, item_value = 3 \<rparr>] \<rparr>]\<rparr>,
         ex_g\<lparr>heap := (heap ex_g)(3 := [(''name'', VStr ''b''), (''id'', VNum 9007199254740992)],
                                  4 := [(''name'', VStr ''b''), (''id'', VNum 9007199254740992)],
                                  5 := [(''name'', VStr ''b''), (''id'', VNum 9007199254740992)],
                                  6 := [(''name'', VStr ''b''), (''id'', VNum 9007199254740992)]),
              next_addr := 7, ID_SEQUENCER := 9007199254740992\<rparr>)"
    by (simp add: ex_idrel_eval)
  have 5: "insert entityUtils (One 1) ex_meta (newMemoryPersister (Some NUMBER))
        (ex_g\<lparr>heap := (heap ex_g)(3 := [(''name'', VStr ''b''), (''id'', VNum 9007199254740992)],
                                  4 := [(''name'', VStr ''b''), (''id'', VNum 9007199254740992)],
                                  5 := [(''name'', VStr ''b''), (''id'', VNum 9007199254740992)],
                                  6 := [(''name'', VStr ''b''), (''id'', VNum 9007199254740992)]),
              next_addr := 7, ID_SEQUENCER := 9007199254740992\<rparr>)
      = (Inr 10,
         (newMemoryPersister (Some NUMBER))
           \<lparr>data := [''t'' \<mapsto> \<lparr> items = [\<lparr> item_id = VNum 9007199254740992, item_value = 7 \<rparr>] \<rparr>]\<rparr>,
         ex_g\<lparr>heap := (heap ex_g)(3 := [(''name'', VStr ''b''), (''id'', VNum 9007199254740992)],
                                  4 := [(''name'', VStr ''b''), (''id'', VNum 9007199254740992)],
                                  5 := [(''name'', VStr ''b''), (''id'', VNum 9007199254740992)],
                                  6 := [(''name'', VStr ''b''), (''id'', VNum 9007199254740992)],
                                  7 := [(''name'', VStr ''b''), (''id'', VNum 9007199254740992)],
                                  8 := [(''name'', VStr ''b''), (''id'', VNum 9007199254740992)],
                                  9 := [(''name'', VStr ''b''), (''id'', VNum 9007199254740992)],
                                  10 := [(''name'', VStr ''b''), (''id'', VNum 9007199254740992)]),
              next_addr := 11, ID_SEQUENCER := 9007199254740992\<rparr>)"
    by (simp add: ex_idrel_eval)
  show ?thesis
    unfolding 2 4 5 snd_conv fst_conv
    using 1 3
    by (simp add: get_prop_def current_items_def read_table_def ex_idrel_defs)
qed

text \<open>
  C3, amended. An insert that returns, of a batch of allocated entities whose first entity
  has no populated id, with metadata whose relation properties are not the id property,
  while the counter is below \<open>2 ^ 53\<close>: the copy it returns carries at the id property the
  next value of \<open>ID_SEQUENCER\<close>, as a string or a number per the persister's id type; that
  id is truthy (non-empty) and differs from the id that any earlier counter value gives
  under either id type; the item added first to the table that \<open>this._data[tableName]\<close>
  reads has it too, and for every table name but \<open>__proto__\<close> that is the table \<open>has\<close> and
  the other operations see. The ids of all the items the batch adds are the ids
  \<open>assigned_ids\<close> computes, and, when the counter stays within \<open>2 ^ 53\<close> over the batch, for
  each entity of the batch without a populated id that is a counter value above the old
  one. \<open>ID_SEQUENCER\<close> belongs to the process state \<open>global\<close>, not to a persister or a table:
  this insert has increased it, and no operation of any persister decreases it.
\<close>

theorem insert_assigns_sequence_id:
  assumes ins: "insert EU entity metadata this g = (Inr r, this', g')"
      and first: "as_list entity = a # rest"
      and alloc: "\<forall>x \<in> set (as_list entity). x < next_addr g"
      and noid: "\<not> has_id (heap g a) (idPropertyName metadata)"
      and rel1: "idPropertyName metadata \<notin> otm_propertyName ` set (oneToManyRelations metadata)"
      and rel2: "idPropertyName metadata \<notin> mto_propertyName ` set (manyToOneRelations metadata)"
      and bound: "ID_SEQUENCER g < 2 ^ 53"
  shows "get_prop (heap g' r) (idPropertyName metadata)
           = format_id (idType this) (Suc (ID_SEQUENCER g))
       \<and> truthy (get_prop (heap g' r) (idPropertyName metadata))
       \<and> ID_SEQUENCER g < ID_SEQUENCER g'
       \<and> (\<forall>t k. k \<le> ID_SEQUENCER g \<longrightarrow>
             format_id t k \<noteq> get_prop (heap g' r) (idPropertyName metadata))
       \<and> (\<exists>its. current_items this' (tableName metadata)
             = table_items this (tableName metadata)
               @ createMemoryItem (format_id (idType this) (Suc (ID_SEQUENCER g))) (next_addr g) # its)
       \<and> (\<exists>its. current_items this' (tableName metadata)
               = table_items this (tableName metadata) @ its
             \<and> map item_id its
                 = assigned_ids (idType this) (idPropertyName metadata) (ID_SEQUENCER g)
                     (map (heap g) (as_list entity)))
       \<and> (tableName metadata \<noteq> ''__proto__'' \<longrightarrow>
             table_items this' (tableName metadata) = current_items this' (tableName metadata))
       \<and> (ID_SEQUENCER g + length (as_list entity) \<le> 2 ^ 53 \<longrightarrow>
            (\<forall>k < length (as_list entity).
               \<not> has_id (heap g (as_list entity ! k)) (idPropertyName metadata) \<longrightarrow>
               (\<exists>c. ID_SEQUENCER g < c
                  \<and> assigned_ids (idType this) (idPropertyName metadata) (ID_SEQUENCER g)
                        (map (heap g) (as_list entity)) ! k
                      = format_id (idType this) c)))
       \<and> ID_SEQUENCER g0 \<le> ID_SEQUENCER (snd (run EU0 op (this0, g0)))"
proof -
  let ?idp = "idPropertyName metadata"
  let ?new = "format_id (idType this) (Suc (ID_SEQUENCER g))"
  from bound have inc: "increment (ID_SEQUENCER g) = Suc (ID_SEQUENCER g)"
    by (rule increment_below)
  from insert_Inr [OF ins first alloc] noid
  obtain its g2 where
    h2: "heap g2 (next_addr g) = set_prop (heap g a) ?idp ?new"
    and s2: "Suc (ID_SEQUENCER g) \<le> ID_SEQUENCER g2"
    and pop: "populateRelations EU this' (next_addr g2) metadata (snd (clone (next_addr g) g2)) = (Inr r, g')"
    unfolding inc by auto
  from populateRelations_props [OF pop] rel1 rel2
  have id: "get_prop (heap g' r) ?idp = get_prop (heap (snd (clone (next_addr g) g2)) (next_addr g2)) ?idp"
    and pr: "preserves (snd (clone (next_addr g) g2)) g'"
    by blast+
  from id h2 have 1: "get_prop (heap g' r) ?idp = ?new"
    by (simp add: clone_def get_set_prop)
  from pr s2 have 3: "ID_SEQUENCER g < ID_SEQUENCER g'"
    by (simp add: preserves_def clone_def)
  have 4: "\<forall>t k. k \<le> ID_SEQUENCER g \<longrightarrow> format_id t k \<noteq> get_prop (heap g' r) ?idp"
    unfolding 1 by (auto dest: format_id_inj)
  from insert_current [OF ins first alloc] noid
  have 5: "\<exists>its. current_items this' (tableName metadata)
             = table_items this (tableName metadata) @ createMemoryItem ?new (next_addr g) # its"
    unfolding inc by simp
  have 6: "ID_SEQUENCER g0 \<le> ID_SEQUENCER (snd (run EU0 op (this0, g0)))"
    using run_counter [of "(this0, g0)" EU0 op] by simp
  note 7 = insert_Inr_ids [OF ins alloc]
  have 8: "ID_SEQUENCER g + length (as_list entity) \<le> 2 ^ 53 \<longrightarrow>
           (\<forall>k < length (as_list entity).
             \<not> has_id (heap g (as_list entity ! k)) ?idp \<longrightarrow>
             (\<exists>c. ID_SEQUENCER g < c
                \<and> assigned_ids (idType this) ?idp (ID_SEQUENCER g)
                      (map (heap g) (as_list entity)) ! k
                    = format_id (idType this) c))"
    using assigned_ids_fresh [where es = "map (heap g) (as_list entity)" and idp = ?idp
        and n = "ID_SEQUENCER g" and t = "idType this"]
    by simp
  have 9: "tableName metadata \<noteq> ''__proto__'' \<longrightarrow>
             table_items this' (tableName metadata) = current_items this' (tableName metadata)"
    using insert_table_items [OF ins] by simp
  have 2: "truthy (get_prop (heap g' r) ?idp)" unfolding 1 by (rule format_id_truthy)
  from 1 2 3 4 5 6 7 8 9 show ?thesis by blast
qed

lemma populateRelations_norel:
  assumes "oneToManyRelations m = []" "manyToOneRelations m = []"
  shows "populateRelations EU this a m g =
     (Inr (Suc (next_addr g)),
      g\<lparr>heap := (heap g)(next_addr g := heap g a, Suc (next_addr g) := heap g a),
        next_addr := Suc (Suc (next_addr g))\<rparr>)"
  using assms
  by (simp add: populateRelations_def populateOneToManyRelations_def
        populateManyToOneRelations_def Let_def clone_def)

lemma find_append_last:
  "\<forall>x \<in> set xs. \<not> P x \<Longrightarrow> P y \<Longrightarrow> find P (xs @ [y]) = Some y"
  by (induction xs) simp_all

lemma findById_stored:
  assumes norel: "oneToManyRelations m = []" "manyToOneRelations m = []"
      and f: "find (\<lambda>item. strict_eq (item_id item) i) (table_items this (tableName m)) = Some it"
  shows "findById EU i m this g =
     (Inr (Some (Suc (Suc (next_addr g)))),
      g\<lparr>heap := (heap g)(next_addr g := heap g (item_value it),
                          Suc (next_addr g) := heap g (item_value it),
                          Suc (Suc (next_addr g)) := heap g (item_value it)),
        next_addr := Suc (Suc (Suc (next_addr g)))\<rparr>)"
proof -
  from f have "table_items this (tableName m) \<noteq> []" by auto
  then have "has_table this (tableName m)"
    by (auto simp: table_items_def has_table_def split: option.splits)
  with f have "findItem this (\<lambda>item. strict_eq (item_id item) i) (tableName m) = Some it"
    by (simp add: findItem_def)
  then show ?thesis
    by (simp add: findById_def found_def prepareItem_def clone_def
          populateRelations_norel [OF norel])
qed

lemma strict_eq_format_id: "strict_eq (format_id t n) (format_id t n)"
  by (simp add: format_id_def)

text \<open>
  C2. Metadata without relations whose table name is not \<open>__proto__\<close>, an allocated entity
  \<open>a\<close> whose id, when it brings one, is a primitive, and an insert of it that returns the
  entity \<open>r\<close>: \<open>r\<close> has the value of \<open>a\<close>,
  with the assigned id when \<open>a\<close> had none, so every other property is equal. The stored
  copy (at the address \<open>next_addr g\<close>) is neither \<open>a\<close> nor \<open>r\<close>. In every later state of the
  store in which the stored copy has not been written, \<open>findById\<close> with the id of \<open>r\<close>
  returns a new object with the value \<open>r\<close> had when \<open>insert\<close> returned, and leaves the stored
  copy as it is. In particular this holds after \<open>r\<close> and \<open>a\<close> have been overwritten, and
  again after the entity that \<open>findById\<close> returned has been overwritten.
\<close>

theorem insert_findById_roundtrip:
  assumes norel: "oneToManyRelations m = []" "manyToOneRelations m = []"
      and ins: "insert EU (One a) m this g = (Inr r, this', g')"
      and alloc: "a < next_addr g"
      and prim: "has_id (heap g a) (idPropertyName m) \<longrightarrow>
                   strict_eq (get_prop (heap g a) (idPropertyName m))
                     (get_prop (heap g a) (idPropertyName m))"
      and tn: "tableName m \<noteq> ''__proto__''"
  shows "heap g' r = (if has_id (heap g a) (idPropertyName m) then heap g a
                      else set_prop (heap g a) (idPropertyName m)
                             (format_id (idType this) (increment (ID_SEQUENCER g))))
       \<and> (\<forall>p. p \<noteq> idPropertyName m \<longrightarrow> get_prop (heap g' r) p = get_prop (heap g a) p)
       \<and> a \<noteq> next_addr g \<and> r \<noteq> next_addr g
       \<and> (\<forall>gX. next_addr g' \<le> next_addr gX \<and> heap gX (next_addr g) = heap g' (next_addr g) \<longrightarrow>
             (\<exists>f gY. findById EU (get_prop (heap g' r) (idPropertyName m)) m this' gX
                        = (Inr (Some f), gY)
                  \<and> heap gY f = heap g' r \<and> next_addr gX \<le> f \<and> f < next_addr gY
                  \<and> heap gY (next_addr g) = heap g' (next_addr g)))
       \<and> (\<forall>v w. \<exists>f gY. findById EU (get_prop (heap g' r) (idPropertyName m)) m this'
                            (g'\<lparr>heap := (heap g')(r := v, a := w)\<rparr>) = (Inr (Some f), gY)
                  \<and> heap gY f = heap g' r
                  \<and> (\<forall>u. \<exists>f' gZ. findById EU (get_prop (heap g' r) (idPropertyName m)) m this'
                                      (gY\<lparr>heap := (heap gY)(f := u)\<rparr>) = (Inr (Some f'), gZ)
                            \<and> heap gZ f' = heap g' r))"
proof -
  let ?idp = "idPropertyName m"
  let ?tn = "tableName m"
  let ?s = "next_addr g"
  let ?stored = "if has_id (heap g a) ?idp then heap g a
                 else set_prop (heap g a) ?idp (format_id (idType this) (increment (ID_SEQUENCER g)))"
  let ?i = "get_prop ?stored ?idp"
  have first: "as_list (One a) = a # []" by simp
  from alloc have al: "\<forall>x \<in> set (as_list (One a)). x < next_addr g" by simp
  from insert_Inr [OF ins first al]
  obtain its g2 where
    this': "this' = write_items ?tn (table_items this ?tn @ createMemoryItem ?i ?s # its)
                      (ensure_table ?tn this)"
    and len: "length its = length ([] :: addr list)"
    and ni: "\<not> array_includes (map item_id (table_items this ?tn)) ?i"
    and h2: "heap g2 ?s = ?stored"
    and lt: "?s < next_addr g2"
    and pop: "populateRelations EU this' (next_addr g2) m (snd (clone ?s g2)) = (Inr r, g')"
    by blast
  from len have its: "its = []" by simp
  from pop have r: "r = Suc (Suc (next_addr g2))"
    and g': "g' = g2\<lparr>heap := (heap g2)(next_addr g2 := heap g2 ?s,
                                      Suc (next_addr g2) := heap g2 ?s,
                                      Suc (Suc (next_addr g2)) := heap g2 ?s),
                    next_addr := Suc (Suc (Suc (next_addr g2)))\<rparr>"
    by (auto simp: populateRelations_norel [OF norel] clone_def)
  from g' r h2 have hr: "heap g' r = ?stored" by simp
  from g' lt h2 have hs: "heap g' ?s = ?stored" by simp
  from g' have n': "next_addr g' = Suc (Suc (Suc (next_addr g2)))" by simp
  have 1: "heap g' r = ?stored" by (rule hr)
  have 2: "\<forall>p. p \<noteq> ?idp \<longrightarrow> get_prop (heap g' r) p = get_prop (heap g a) p"
    unfolding hr by (simp add: get_set_prop)
  from alloc r lt have 3: "a \<noteq> ?s \<and> r \<noteq> ?s" by simp
  have ii: "strict_eq ?i ?i"
    using prim by (simp add: get_set_prop strict_eq_format_id)
  have tbl: "table_items this' ?tn = table_items this ?tn @ [createMemoryItem ?i ?s]"
    unfolding this' its using tn by simp
  from ni have "\<forall>x \<in> set (table_items this ?tn). \<not> strict_eq (item_id x) ?i"
    by (simp add: array_includes_iff)
  then have fnd: "find (\<lambda>item. strict_eq (item_id item) ?i) (table_items this' ?tn)
                   = Some (createMemoryItem ?i ?s)"
    unfolding tbl by (rule find_append_last) (simp add: createMemoryItem_def ii)
  have iv: "item_value (createMemoryItem ?i ?s) = ?s" by (simp add: createMemoryItem_def)
  have gen: "\<exists>f gY. findById EU ?i m this' gX = (Inr (Some f), gY)
                  \<and> heap gY f = heap g' r \<and> next_addr gX \<le> f \<and> f < next_addr gY
                  \<and> heap gY ?s = heap g' ?s"
    if "next_addr g' \<le> next_addr gX" "heap gX ?s = heap g' ?s" for gX
  proof -
    from that n' lt have "?s < next_addr gX" by simp
    with that hs hr show ?thesis
      unfolding findById_stored [OF norel fnd] iv by simp
  qed
  have 4: "\<forall>gX. next_addr g' \<le> next_addr gX \<and> heap gX ?s = heap g' ?s \<longrightarrow>
             (\<exists>f gY. findById EU (get_prop (heap g' r) ?idp) m this' gX = (Inr (Some f), gY)
                  \<and> heap gY f = heap g' r \<and> next_addr gX \<le> f \<and> f < next_addr gY
                  \<and> heap gY ?s = heap g' ?s)"
    unfolding hr using gen hr by auto
  have 5: "\<exists>f gY. findById EU (get_prop (heap g' r) ?idp) m this'
                            (g'\<lparr>heap := (heap g')(r := v, a := w)\<rparr>) = (Inr (Some f), gY)
                  \<and> heap gY f = heap g' r
                  \<and> (\<forall>u. \<exists>f' gZ. findById EU (get_prop (heap g' r) ?idp) m this'
                                      (gY\<lparr>heap := (heap gY)(f := u)\<rparr>) = (Inr (Some f'), gZ)
                            \<and> heap gZ f' = heap g' r)" for v w
  proof -
    let ?gX = "g'\<lparr>heap := (heap g')(r := v, a := w)\<rparr>"
    from 3 have "next_addr g' \<le> next_addr ?gX" "heap ?gX ?s = heap g' ?s" by simp_all
    from gen [OF this] obtain f gY where
      f: "findById EU ?i m this' ?gX = (Inr (Some f), gY)" "heap gY f = heap g' r"
         "next_addr ?gX \<le> f" "f < next_addr gY" "heap gY ?s = heap g' ?s"
      by blast
    have "\<exists>f' gZ. findById EU ?i m this' (gY\<lparr>heap := (heap gY)(f := u)\<rparr>) = (Inr (Some f'), gZ)
                            \<and> heap gZ f' = heap g' r" for u
    proof -
      let ?gY = "gY\<lparr>heap := (heap gY)(f := u)\<rparr>"
      from f n' lt have "f \<noteq> ?s" by simp
      with f have "next_addr g' \<le> next_addr ?gY" "heap ?gY ?s = heap g' ?s" by simp_all
      from gen [OF this] show ?thesis by blast
    qed
    with f show ?thesis unfolding hr by blast
  qed
  from 1 2 3 4 5 show ?thesis by blast
qed

lemma ex_insert_fst:
  "fst (insert entityUtils (One 1) ex_meta (newMemoryPersister None) ex_g) = Inr 6"
  by (simp add: insert_eval)

theorem insert_assigns_sequence_id_witness:
  "fst (insert entityUtils (One 1) ex_meta (newMemoryPersister None) ex_g) = Inr 6
   \<and> \<not> has_id (heap ex_g 1) (idPropertyName ex_meta)
   \<and> ID_SEQUENCER ex_g < 2 ^ 53
   \<and> get_prop (heap (snd (snd (insert entityUtils (One 1) ex_meta (newMemoryPersister None) ex_g))) 6)
        (idPropertyName ex_meta)
      = format_id (idType (newMemoryPersister None)) (Suc (ID_SEQUENCER ex_g))
   \<and> ID_SEQUENCER ex_g
       < ID_SEQUENCER (snd (snd (insert entityUtils (One 1) ex_meta (newMemoryPersister None) ex_g)))"
proof -
  let ?X = "insert entityUtils (One 1) ex_meta (newMemoryPersister None) ex_g"
  have e: "fst ?X = Inr 6" by (simp add: insert_eval)
  then have ins: "?X = (Inr 6, fst (snd ?X), snd (snd ?X))"
    by (metis prod.collapse)
  have first: "as_list (One 1) = 1 # []" by simp
  have alloc: "\<forall>x \<in> set (as_list (One 1)). x < next_addr ex_g" by (simp add: ex_defs)
  have noid: "\<not> has_id (heap ex_g 1) (idPropertyName ex_meta)"
    by (simp add: ex_defs has_id_def has_def)
  have rel1: "idPropertyName ex_meta \<notin> otm_propertyName ` set (oneToManyRelations ex_meta)"
    and rel2: "idPropertyName ex_meta \<notin> mto_propertyName ` set (manyToOneRelations ex_meta)"
    by (simp_all add: ex_defs)
  have bound: "ID_SEQUENCER ex_g < 2 ^ 53" by (simp add: ex_defs)
  from insert_assigns_sequence_id [OF ins first alloc noid rel1 rel2 bound] e noid bound
  show ?thesis by blast
qed

theorem insert_findById_roundtrip_witness:
  "fst (insert entityUtils (One 1) ex_meta (newMemoryPersister None) ex_g) = Inr 6
   \<and> (1::nat) < next_addr ex_g
   \<and> \<not> has_id (heap ex_g 1) (idPropertyName ex_meta)
   \<and> tableName ex_meta \<noteq> ''__proto__''
   \<and> heap (snd (snd (insert entityUtils (One 1) ex_meta (newMemoryPersister None) ex_g))) 6
       = set_prop (heap ex_g 1) (idPropertyName ex_meta)
           (format_id (idType (newMemoryPersister None)) (increment (ID_SEQUENCER ex_g)))
   \<and> (\<exists>f gY. findById entityUtils
                (get_prop (heap (snd (snd (insert entityUtils (One 1) ex_meta
                                            (newMemoryPersister None) ex_g))) 6)
                   (idPropertyName ex_meta))
                ex_meta
                (fst (snd (insert entityUtils (One 1) ex_meta (newMemoryPersister None) ex_g)))
                ((snd (snd (insert entityUtils (One 1) ex_meta (newMemoryPersister None) ex_g)))
                   \<lparr>heap := (heap (snd (snd (insert entityUtils (One 1) ex_meta
                                                  (newMemoryPersister None) ex_g))))
                             (6 := [], 1 := [])\<rparr>)
              = (Inr (Some f), gY)
          \<and> heap gY f
              = heap (snd (snd (insert entityUtils (One 1) ex_meta (newMemoryPersister None) ex_g))) 6)"
proof -
  let ?X = "insert entityUtils (One 1) ex_meta (newMemoryPersister None) ex_g"
  have e: "fst ?X = Inr 6" by (simp add: insert_eval)
  then have ins: "?X = (Inr 6, fst (snd ?X), snd (snd ?X))"
    by (metis prod.collapse)
  have norel: "oneToManyRelations ex_meta = []" "manyToOneRelations ex_meta = []"
    by (simp_all add: ex_defs)
  have alloc: "(1::nat) < next_addr ex_g" by (simp add: ex_defs)
  have noid: "\<not> has_id (heap ex_g 1) (idPropertyName ex_meta)"
    by (simp add: ex_defs has_id_def has_def)
  then have prim: "has_id (heap ex_g 1) (idPropertyName ex_meta) \<longrightarrow>
                   strict_eq (get_prop (heap ex_g 1) (idPropertyName ex_meta))
                     (get_prop (heap ex_g 1) (idPropertyName ex_meta))"
    by simp
  have tn: "tableName ex_meta \<noteq> ''__proto__''" by (simp add: ex_defs)
  note t = insert_findById_roundtrip [OF norel ins alloc prim tn]
  from t noid have 1: "heap (snd (snd ?X)) 6
       = set_prop (heap ex_g 1) (idPropertyName ex_meta)
           (format_id (idType (newMemoryPersister None)) (increment (ID_SEQUENCER ex_g)))"
    by simp
  from t have "\<forall>v w. \<exists>f gY. findById entityUtils (get_prop (heap (snd (snd ?X)) 6) (idPropertyName ex_meta))
                  ex_meta (fst (snd ?X)) ((snd (snd ?X))\<lparr>heap := (heap (snd (snd ?X)))(6 := v, 1 := w)\<rparr>)
                = (Inr (Some f), gY) \<and> heap gY f = heap (snd (snd ?X)) 6"
    by blast
  then have 2: "\<exists>f gY. findById entityUtils (get_prop (heap (snd (snd ?X)) 6) (idPropertyName ex_meta))
                  ex_meta (fst (snd ?X)) ((snd (snd ?X))\<lparr>heap := (heap (snd (snd ?X)))(6 := [], 1 := [])\<rparr>)
                = (Inr (Some f), gY) \<and> heap gY f = heap (snd (snd ?X)) 6"
    by blast
  from e alloc noid tn 1 2 show ?thesis by blast
qed

section \<open>Properties of relation population\<close>

lemmas family_defs =
  ex_grandMeta_def ex_parentMeta_def ex_childMeta_def ex_family_def ex_family_store_def
  ex_parentMeta_nofield_def ex_childMeta_nofield_def ex_family_nofield_def

text \<open>
  C5, as the claim states it, fails: the one-to-many relation \<open>children\<close> is mapped by a
  property for which the child table's metadata has no field, the many-to-one relation
  \<open>grand\<close> has no field in the parent's own metadata, and both population functions, and
  \<open>findById\<close>, return an entity instead of raising.
\<close>

theorem relation_without_field_counterexample:
  "otm_field_missing ex_family_nofield
     \<lparr>otm_propertyName = ''children'', mappedBy = ''parent'', otm_mappedTable = ''child''\<rparr>
   \<and> oneToManyRelations ex_parentMeta_nofield
       = [\<lparr>otm_propertyName = ''children'', mappedBy = ''parent'', otm_mappedTable = ''child''\<rparr>]
   \<and> fst (populateOneToManyRelations entityUtils ex_family_nofield 1 ex_parentMeta_nofield
            ex_family_store) = Inr 3
   \<and> mto_field_missing ex_parentMeta_nofield
       \<lparr>mto_propertyName = ''grand'', mto_mappedTable = ''grand''\<rparr>
   \<and> manyToOneRelations ex_parentMeta_nofield
       = [\<lparr>mto_propertyName = ''grand'', mto_mappedTable = ''grand''\<rparr>]
   \<and> fst (populateManyToOneRelations entityUtils ex_family_nofield 1 ex_parentMeta_nofield
            ex_family_store) = Inr 3
   \<and> fst (findById entityUtils (VStr ''2'') ex_parentMeta_nofield ex_family_nofield
            ex_family_store) = Inr (Some 5)"
  by (simp add: family_defs otm_field_missing_def mto_field_missing_def getMetadataByTable_def
        populateOneToManyRelations_eq populateManyToOneRelations_eq oneToMany_step_eq
        manyToOne_step_eq otm_resolve_def mto_resolve_def clone_def findById_def found_def
        findItem_def has_table_def table_items_def prepareItem_def populateRelations_def)

lemma forEach_filter:
  assumes "\<And>x g. x \<in> set xs \<Longrightarrow> \<not> P x \<Longrightarrow> f x g = (Inr (), g)"
  shows "forEach f xs g = forEach f (filter P xs) g"
  using assms
proof (induction xs arbitrary: g)
  case Nil
  then show ?case by simp
next
  case (Cons x xs)
  have IH: "forEach f xs g1 = forEach f (filter P xs) g1" for g1
    by (rule Cons.IH) (rule Cons.prems, simp_all)
  show ?case
  proof (cases "P x")
    case True
    then show ?thesis by (simp add: IH split: prod.splits sum.splits)
  next
    case False
    with Cons.prems [of x g] have "f x g = (Inr (), g)" by simp
    with False show ?thesis by (simp add: IH)
  qed
qed

lemma oneToMany_step_missing:
  "otm_field_missing this r \<Longrightarrow> oneToMany_step EU this m e eid r g = (Inr (), g)"
  by (auto simp: oneToMany_step_eq otm_resolve_def otm_field_missing_def split: option.splits)

lemma manyToOne_step_missing:
  "mto_field_missing m r \<Longrightarrow> manyToOne_step EU this m e r g = (Inr (), g)"
  by (simp add: manyToOne_step_eq mto_resolve_def mto_field_missing_def)

lemma oneToMany_step_relations_update [simp]:
  "oneToMany_step EU this (m\<lparr>oneToManyRelations := rs\<rparr>) = oneToMany_step EU this m"
  by (intro ext) (simp add: oneToMany_step_def Let_def split: option.splits sum.splits)

lemma manyToOne_step_relations_update [simp]:
  "manyToOne_step EU this (m\<lparr>manyToOneRelations := rs\<rparr>) = manyToOne_step EU this m"
  by (intro ext) (simp add: manyToOne_step_def Let_def split: option.splits sum.splits)

lemma populateOneToManyRelations_filter:
  "populateOneToManyRelations EU this a m g =
     populateOneToManyRelations EU this a
       (m\<lparr>oneToManyRelations := filter (\<lambda>r. \<not> otm_field_missing this r) (oneToManyRelations m)\<rparr>) g"
proof -
  have "forEach (oneToMany_step EU this m e eid) (oneToManyRelations m) h =
        forEach (oneToMany_step EU this m e eid)
          (filter (\<lambda>r. \<not> otm_field_missing this r) (oneToManyRelations m)) h" for e eid h
    by (rule forEach_filter) (simp add: oneToMany_step_missing)
  then show ?thesis
    unfolding populateOneToManyRelations_eq by simp
qed

lemma populateManyToOneRelations_filter:
  "populateManyToOneRelations EU this a m g =
     populateManyToOneRelations EU this a
       (m\<lparr>manyToOneRelations := filter (\<lambda>r. \<not> mto_field_missing m r) (manyToOneRelations m)\<rparr>) g"
proof -
  have "forEach (manyToOne_step EU this m e) (manyToOneRelations m) h =
        forEach (manyToOne_step EU this m e)
          (filter (\<lambda>r. \<not> mto_field_missing m r) (manyToOneRelations m)) h" for e h
    by (rule forEach_filter) (simp add: manyToOne_step_missing)
  then show ?thesis
    unfolding populateManyToOneRelations_eq by simp
qed

lemma populateRelations_all_missing:
  assumes "list_all (otm_field_missing this) (oneToManyRelations m)"
      and "list_all (mto_field_missing m) (manyToOneRelations m)"
  shows "\<exists>b g'. populateRelations EU this a m g = (Inr b, g') \<and> heap g' b = heap g a"
proof -
  from assms(1) have 1: "filter (\<lambda>r. \<not> otm_field_missing this r) (oneToManyRelations m) = []"
    by (simp add: list_all_iff filter_empty_conv)
  from assms(2) have 2: "filter (\<lambda>r. \<not> mto_field_missing m r) (manyToOneRelations m) = []"
    by (simp add: list_all_iff filter_empty_conv)
  have o: "populateOneToManyRelations EU this a m g = (Inr (next_addr g), snd (clone a g))"
    by (subst populateOneToManyRelations_filter) (simp add: 1 populateOneToManyRelations_eq)
  have p: "populateManyToOneRelations EU this c m h = (Inr (next_addr h), snd (clone c h))" for c h
    by (subst populateManyToOneRelations_filter) (simp add: 2 populateManyToOneRelations_eq)
  show ?thesis
    by (simp add: populateRelations_def o p clone_def)
qed

text \<open>
  C5, amended. A relation whose join field is missing is passed over: the callback of the
  loop returns without an error and without a change of the store. So population gives
  the result it gives for the metadata without these relations, and when every relation
  of the metadata misses its field the entity returned has the value of the entity
  given. (For a one-to-many relation the empty \<open>mappedTable\<close> or \<open>mappedBy\<close> and the
  unregistered table are checked before the field and do raise; for a many-to-one relation
  the field is looked up first.)
\<close>

theorem relation_without_field_skipped:
  "(otm_field_missing this r \<longrightarrow> oneToMany_step EU this m e eid r g = (Inr (), g))
   \<and> (mto_field_missing m r' \<longrightarrow> manyToOne_step EU this m e r' g = (Inr (), g))
   \<and> populateOneToManyRelations EU this a m g =
       populateOneToManyRelations EU this a
         (m\<lparr>oneToManyRelations :=
              filter (\<lambda>r. \<not> otm_field_missing this r) (oneToManyRelations m)\<rparr>) g
   \<and> populateManyToOneRelations EU this a m g =
       populateManyToOneRelations EU this a
         (m\<lparr>manyToOneRelations :=
              filter (\<lambda>r. \<not> mto_field_missing m r) (manyToOneRelations m)\<rparr>) g
   \<and> (list_all (otm_field_missing this) (oneToManyRelations m)
        \<and> list_all (mto_field_missing m) (manyToOneRelations m) \<longrightarrow>
        (\<exists>b g'. populateRelations EU this a m g = (Inr b, g') \<and> heap g' b = heap g a))"
  using oneToMany_step_missing [of this r EU m e eid g] manyToOne_step_missing [of m r' EU this e g]
    populateOneToManyRelations_filter [of EU this a m g]
    populateManyToOneRelations_filter [of EU this a m g]
    populateRelations_all_missing [of this m EU a g]
  by blast

theorem relation_without_field_skipped_witness:
  "list_all (otm_field_missing ex_family_nofield) (oneToManyRelations ex_parentMeta_nofield)
   \<and> list_all (mto_field_missing ex_parentMeta_nofield) (manyToOneRelations ex_parentMeta_nofield)
   \<and> (\<exists>b g'. populateRelations entityUtils ex_family_nofield 1 ex_parentMeta_nofield ex_family_store
                 = (Inr b, g')
          \<and> heap g' b = heap ex_family_store 1)"
proof -
  have 1: "list_all (otm_field_missing ex_family_nofield) (oneToManyRelations ex_parentMeta_nofield)"
    by (simp add: family_defs otm_field_missing_def getMetadataByTable_def)
  have 2: "list_all (mto_field_missing ex_parentMeta_nofield) (manyToOneRelations ex_parentMeta_nofield)"
    by (simp add: family_defs mto_field_missing_def)
  from relation_without_field_skipped [where this = ex_family_nofield and m = ex_parentMeta_nofield
      and EU = entityUtils and a = 1 and g = ex_family_store] 1 2
  show ?thesis by blast
qed




lemma forEach_Inl:
  "f x g = (Inl err, g1) \<Longrightarrow> forEach f (x # xs) g = (Inl err, g1)"
  by simp

lemma forEach_Inr:
  "f x g = (Inr u, g1) \<Longrightarrow> forEach f (x # xs) g = forEach f xs g1"
  by simp






end
